(* ===== verification/Prelude.thy ===== *)
theory Prelude
  imports Main "HOL-Library.Word" "HOL-Library.Finite_Map" "HOL-Library.Char_ord"
    "HOL-Library.List_Lexorder"
begin

text \<open>
  Shared vocabulary of the development: results with errors as values, the functions of
  Go's package \<^verbatim>\<open>strings\<close> the plugin calls (a Go string is a byte sequence,
  here a \<^typ>\<open>string\<close>, that is a list of bytes), Go's saturating \<^verbatim>\<open>time.Time.Sub\<close>,
  and the collections of rewrite rules the component theories add to.

  Argument order follows Go: \<open>hasPrefix s p\<close> is \<^verbatim>\<open>strings.HasPrefix(s, p)\<close>.
\<close>

named_theorems go_string \<open>characteristic equations of the Go string functions\<close>
named_theorems guard_defs \<open>definitions of checks, to be unfolded in case analyses\<close>

type_synonym ('e, 'a) result = "'e + 'a"

abbreviation Err :: "'e \<Rightarrow> ('e, 'a) result" where "Err \<equiv> Inl"
abbreviation Ok :: "'a \<Rightarrow> ('e, 'a) result" where "Ok \<equiv> Inr"

text \<open>
  A check returns \<^const>\<open>None\<close> for Go's \<^verbatim>\<open>nil\<close> error and \<open>Some e\<close> for a non-nil one.
  \<open>first_error\<close> is a sequence of \<^verbatim>\<open>if err := ...; err != nil { return err }\<close>.
\<close>

type_synonym 'e check = "'e option"

fun first_error :: "'e check list \<Rightarrow> 'e check" where
  "first_error [] = None"
| "first_error (Some e # _) = Some e"
| "first_error (None # cs) = first_error cs"

lemma first_error_None_iff: "first_error cs = None \<longleftrightarrow> (\<forall>c\<in>set cs. c = None)"
  by (induction cs rule: first_error.induct) auto

lemma first_error_map_None_iff: "first_error (map f xs) = None \<longleftrightarrow> (\<forall>x\<in>set xs. f x = None)"
  by (simp add: first_error_None_iff)

lemma first_error_Cons_Some:
  "first_error (c # cs) = Some e \<longleftrightarrow> c = Some e \<or> c = None \<and> first_error cs = Some e"
  by (cases c) auto

definition fail_if :: "bool \<Rightarrow> 'e \<Rightarrow> 'e check" where
  "fail_if b e = (if b then Some e else None)"

lemma fail_if_None [simp]: "fail_if b e = None \<longleftrightarrow> \<not> b"
  by (simp add: fail_if_def)

lemma fail_if_Some [simp]: "fail_if b e = Some e' \<longleftrightarrow> b \<and> e' = e"
  by (auto simp: fail_if_def)

subsection \<open>Prefixes, suffixes, substrings\<close>

definition hasPrefix :: "string \<Rightarrow> string \<Rightarrow> bool" where
  "hasPrefix s p \<longleftrightarrow> take (length p) s = p"

definition hasSuffix :: "string \<Rightarrow> string \<Rightarrow> bool" where
  "hasSuffix s p \<longleftrightarrow> hasPrefix (rev s) (rev p)"

definition trimPrefix :: "string \<Rightarrow> string \<Rightarrow> string" where
  "trimPrefix s p = (if hasPrefix s p then drop (length p) s else s)"

fun strContains :: "string \<Rightarrow> string \<Rightarrow> bool" where
  "strContains [] sub = (sub = [])"
| "strContains (c # s) sub = (hasPrefix (c # s) sub \<or> strContains s sub)"

definition containsAny :: "string \<Rightarrow> char list \<Rightarrow> bool" where
  "containsAny s cs \<longleftrightarrow> list_ex (\<lambda>c. c \<in> set cs) s"

lemma hasPrefix_iff [go_string]: "hasPrefix s p \<longleftrightarrow> (\<exists>r. s = p @ r)"
proof
  assume "hasPrefix s p"
  then have "s = p @ drop (length p) s"
    by (metis append_take_drop_id hasPrefix_def)
  then show "\<exists>r. s = p @ r" ..
qed (auto simp: hasPrefix_def)

lemma hasSuffix_iff [go_string]: "hasSuffix s p \<longleftrightarrow> (\<exists>r. s = r @ p)"
proof
  assume "hasSuffix s p"
  then obtain r where "rev s = rev p @ r"
    by (auto simp: hasSuffix_def hasPrefix_iff)
  then have "s = rev r @ p"
    by (metis rev_append rev_rev_ident)
  then show "\<exists>r. s = r @ p" ..
qed (auto simp: hasSuffix_def hasPrefix_iff)

lemma hasPrefix_Nil [simp]: "hasPrefix s []"
  by (simp add: hasPrefix_def)

lemma hasPrefix_append [simp]: "hasPrefix (p @ s) p"
  by (simp add: hasPrefix_def)

lemma strContains_iff [go_string]: "strContains s sub \<longleftrightarrow> (\<exists>a b. s = a @ sub @ b)"
proof (induction s)
  case Nil
  then show ?case by simp
next
  case (Cons c s)
  show ?case
  proof
    assume "strContains (c # s) sub"
    then consider "hasPrefix (c # s) sub" | "strContains s sub" by auto
    then show "\<exists>a b. c # s = a @ sub @ b"
    proof cases
      case 1
      then show ?thesis by (metis append_Nil hasPrefix_iff)
    next
      case 2
      with Cons.IH show ?thesis by (metis append_Cons)
    qed
  next
    assume "\<exists>a b. c # s = a @ sub @ b"
    then obtain a b where ab: "c # s = a @ sub @ b" by blast
    show "strContains (c # s) sub"
    proof (cases a)
      case Nil
      with ab have "hasPrefix (c # s) sub" by (metis append_Nil hasPrefix_append)
      then show ?thesis by simp
    next
      case (Cons x a')
      with ab have "s = a' @ sub @ b" by simp
      then have "strContains s sub" using Cons.IH by blast
      then show ?thesis by simp
    qed
  qed
qed

subsection \<open>Splitting at a separator byte\<close>

text \<open>\<^verbatim>\<open>strings.Split(s, sep)\<close> for a one-byte separator: always at least one part.\<close>

fun split :: "char \<Rightarrow> string \<Rightarrow> string list" where
  "split sep [] = [[]]"
| "split sep (c # s) =
     (if c = sep then [] # split sep s
      else (c # hd (split sep s)) # tl (split sep s))"

fun join :: "char \<Rightarrow> string list \<Rightarrow> string" where
  "join sep [] = []"
| "join sep [p] = p"
| "join sep (p # ps) = p @ sep # join sep ps"

lemma split_not_Nil [simp]: "split sep s \<noteq> []"
  by (cases s) auto

lemma join_Cons: "ps \<noteq> [] \<Longrightarrow> join sep (p # ps) = p @ sep # join sep ps"
  by (cases ps) auto

lemma join_Cons_char: "join sep ((c # p) # ps) = c # join sep (p # ps)"
  by (cases ps) auto

lemma join_split [go_string]: "join sep (split sep s) = s"
proof (induction s)
  case Nil
  then show ?case by simp
next
  case (Cons c s)
  then show ?case by (simp add: join_Cons join_Cons_char)
qed

lemma split_parts_no_sep: "p \<in> set (split sep s) \<Longrightarrow> sep \<notin> set p"
proof (induction s arbitrary: p)
  case Nil
  then show ?case by simp
next
  case (Cons c s)
  have hd: "hd (split sep s) \<in> set (split sep s)" by simp
  have tl: "q \<in> set (tl (split sep s)) \<Longrightarrow> q \<in> set (split sep s)" for q
    by (meson list.set_sel(2) split_not_Nil)
  show ?case
    using Cons.prems Cons.IH hd tl by (auto split: if_splits)
qed

lemma split_single: "sep \<notin> set p \<Longrightarrow> split sep p = [p]"
  by (induction p) auto

lemma split_append_sep: "sep \<notin> set p \<Longrightarrow> split sep (p @ sep # s) = p # split sep s"
  by (induction p) auto

lemma split_append: "split sep (p @ sep # s) = split sep p @ split sep s"
  by (induction p) auto

lemma split_join:
  assumes "ps \<noteq> []" and "\<And>p. p \<in> set ps \<Longrightarrow> sep \<notin> set p"
  shows "split sep (join sep ps) = ps"
  using assms
proof (induction ps)
  case Nil
  then show ?case by simp
next
  case (Cons p ps)
  then show ?case
    by (cases "ps = []") (auto simp: join_Cons split_single split_append_sep)
qed

subsection \<open>White space: \<^verbatim>\<open>strings.TrimSpace\<close> and \<^verbatim>\<open>strings.Fields\<close>\<close>

text \<open>
  The UTF-8 encodings of the code points for which \<^verbatim>\<open>unicode.IsSpace\<close> holds. A lead byte
  never occurs inside another encoded rune, so matching these byte strings at each position
  finds the same white space as Go's rune-wise scan, also around invalid UTF-8.
\<close>

definition unicode_spaces :: "string list" where
  "unicode_spaces =
    [[CHR 0x09], [CHR 0x0A], [CHR 0x0B], [CHR 0x0C], [CHR 0x0D], [CHR 0x20],
     [CHR 0xC2, CHR 0x85], [CHR 0xC2, CHR 0xA0], [CHR 0xE1, CHR 0x9A, CHR 0x80],
     [CHR 0xE2, CHR 0x80, CHR 0x80], [CHR 0xE2, CHR 0x80, CHR 0x81],
     [CHR 0xE2, CHR 0x80, CHR 0x82], [CHR 0xE2, CHR 0x80, CHR 0x83],
     [CHR 0xE2, CHR 0x80, CHR 0x84], [CHR 0xE2, CHR 0x80, CHR 0x85],
     [CHR 0xE2, CHR 0x80, CHR 0x86], [CHR 0xE2, CHR 0x80, CHR 0x87],
     [CHR 0xE2, CHR 0x80, CHR 0x88], [CHR 0xE2, CHR 0x80, CHR 0x89],
     [CHR 0xE2, CHR 0x80, CHR 0x8A], [CHR 0xE2, CHR 0x80, CHR 0xA8],
     [CHR 0xE2, CHR 0x80, CHR 0xA9], [CHR 0xE2, CHR 0x80, CHR 0xAF],
     [CHR 0xE2, CHR 0x81, CHR 0x9F], [CHR 0xE3, CHR 0x80, CHR 0x80]]"

definition leading_space :: "string \<Rightarrow> nat" where
  "leading_space s = (case find (hasPrefix s) unicode_spaces of None \<Rightarrow> 0 | Some w \<Rightarrow> length w)"

definition trailing_space :: "string \<Rightarrow> nat" where
  "trailing_space s = (case find (hasSuffix s) unicode_spaces of None \<Rightarrow> 0 | Some w \<Rightarrow> length w)"

lemma unicode_spaces_nonempty: "w \<in> set unicode_spaces \<Longrightarrow> w \<noteq> []"
  by (auto simp: unicode_spaces_def)

lemma leading_space_Nil [simp]: "leading_space [] = 0"
  by (simp add: leading_space_def unicode_spaces_def hasPrefix_def)

lemma trailing_space_Nil [simp]: "trailing_space [] = 0"
  by (simp add: trailing_space_def unicode_spaces_def hasSuffix_def hasPrefix_def)

function trimLeftSpace :: "string \<Rightarrow> string" where
  "trimLeftSpace s =
     (if leading_space s = 0 then s else trimLeftSpace (drop (leading_space s) s))"
  by pat_completeness auto
termination
proof (relation "measure length", simp)
  fix s :: string
  assume "leading_space s \<noteq> 0"
  moreover from this have "s \<noteq> []" by auto
  ultimately show "(drop (leading_space s) s, s) \<in> measure length" by simp
qed

function trimRightSpace :: "string \<Rightarrow> string" where
  "trimRightSpace s =
     (if trailing_space s = 0 then s
      else trimRightSpace (take (length s - trailing_space s) s))"
  by pat_completeness auto
termination
proof (relation "measure length", simp)
  fix s :: string
  assume "trailing_space s \<noteq> 0"
  moreover from this have "s \<noteq> []" by auto
  ultimately show "(take (length s - trailing_space s) s, s) \<in> measure length" by simp
qed

definition trimSpace :: "string \<Rightarrow> string" where
  "trimSpace s = trimRightSpace (trimLeftSpace s)"

text \<open>\<open>fieldsFrom cur s\<close>: the fields of \<open>s\<close>, where \<open>cur\<close> holds the bytes of the field being read.\<close>

function fieldsFrom :: "string \<Rightarrow> string \<Rightarrow> string list" where
  "fieldsFrom cur s =
     (if s = [] then (if cur = [] then [] else [cur])
      else if leading_space s = 0 then fieldsFrom (cur @ [hd s]) (tl s)
      else (if cur = [] then [] else [cur]) @ fieldsFrom [] (drop (leading_space s) s))"
  by pat_completeness auto
termination
  by (relation "measure (\<lambda>(cur, s). length s)") auto

definition strFields :: "string \<Rightarrow> string list" where
  "strFields s = fieldsFrom [] s"

declare trimLeftSpace.simps [simp del] trimRightSpace.simps [simp del] fieldsFrom.simps [simp del]

lemmas space_eval = trimSpace_def trimLeftSpace.simps trimRightSpace.simps strFields_def
  fieldsFrom.simps leading_space_def trailing_space_def unicode_spaces_def hasPrefix_def
  hasSuffix_def

lemma trimRightSpace_trimmed: "trailing_space (trimRightSpace s) = 0"
  by (induction s rule: trimRightSpace.induct) (simp add: trimRightSpace.simps)

lemma fieldsFrom_nonempty: "f \<in> set (fieldsFrom cur s) \<Longrightarrow> f \<noteq> []"
proof (induction cur s rule: fieldsFrom.induct)
  case (1 cur s)
  then show ?case
    by (subst (asm) (2) fieldsFrom.simps) (auto split: if_splits)
qed

lemma strFields_nonempty [go_string]: "f \<in> set (strFields s) \<Longrightarrow> f \<noteq> []"
  by (simp add: strFields_def fieldsFrom_nonempty)

subsection \<open>Bytes and ASCII case folding\<close>

abbreviation byte :: "char \<Rightarrow> nat" where "byte c \<equiv> of_char c"

definition asciiLower :: "char \<Rightarrow> char" where
  "asciiLower c = (if 65 \<le> byte c \<and> byte c \<le> 90 then char_of (byte c + 32) else c)"

text \<open>
  \<^verbatim>\<open>strings.EqualFold(s, t)\<close> against a lower-case ASCII \<open>t\<close>. The simple folding orbits that
  contain an ASCII letter have one member outside ASCII only for \<open>s\<close> (U+017F, bytes C5 BF) and
  for \<open>k\<close> (U+212A, bytes E2 84 AA).
\<close>

fun foldAscii :: "string \<Rightarrow> string" where
  "foldAscii [] = []"
| "foldAscii (c # s) =
     (if c = CHR 0xC5 \<and> take 1 s = [CHR 0xBF] then CHR ''s'' # foldAscii (drop 1 s)
      else if c = CHR 0xE2 \<and> take 2 s = [CHR 0x84, CHR 0xAA] then CHR ''k'' # foldAscii (drop 2 s)
      else asciiLower c # foldAscii s)"

definition equalFoldAscii :: "string \<Rightarrow> string \<Rightarrow> bool" where
  "equalFoldAscii s t \<longleftrightarrow> foldAscii s = t"

subsection \<open>Positions of a byte\<close>

text \<open>\<^verbatim>\<open>strings.IndexByte\<close> and \<^verbatim>\<open>strings.LastIndexByte\<close>, with \<^const>\<open>None\<close> for Go's \<open>-1\<close>.\<close>

fun indexByte :: "string \<Rightarrow> char \<Rightarrow> nat option" where
  "indexByte [] c = None"
| "indexByte (x # s) c = (if x = c then Some 0 else map_option Suc (indexByte s c))"

definition lastIndexByte :: "string \<Rightarrow> char \<Rightarrow> nat option" where
  "lastIndexByte s c = map_option (\<lambda>i. length s - 1 - i) (indexByte (rev s) c)"

lemma indexByte_None_iff [go_string]: "indexByte s c = None \<longleftrightarrow> c \<notin> set s"
  by (induction s) auto

lemma indexByte_append: "c \<notin> set p \<Longrightarrow> indexByte (p @ c # s) c = Some (length p)"
  by (induction p) auto

lemma lastIndexByte_append: "c \<notin> set s \<Longrightarrow> lastIndexByte (p @ c # s) c = Some (length p)"
  by (simp add: lastIndexByte_def indexByte_append)

lemma lastIndexByte_None_iff [go_string]: "lastIndexByte s c = None \<longleftrightarrow> c \<notin> set s"
  by (simp add: lastIndexByte_def indexByte_None_iff)

subsection \<open>Time\<close>

text \<open>
  Instants are nanoseconds on one time line (\<^typ>\<open>int\<close>); a \<^verbatim>\<open>time.Duration\<close> is an
  \<^verbatim>\<open>int64\<close>, and \<^verbatim>\<open>Time.Sub\<close> saturates at its ends instead of wrapping.
\<close>

type_synonym instant = int
type_synonym duration = int

definition maxDuration :: duration where "maxDuration = 2 ^ 63 - 1"
definition minDuration :: duration where "minDuration = - (2 ^ 63)"

definition timeSub :: "instant \<Rightarrow> instant \<Rightarrow> duration" where
  "timeSub t u = max minDuration (min maxDuration (t - u))"

definition second :: duration where "second = 1000000000"
definition minute :: duration where "minute = 60 * second"

lemmas duration_defs = maxDuration_def minDuration_def timeSub_def second_def minute_def

lemma timeSub_pos_iff [simp]: "0 < timeSub t u \<longleftrightarrow> u < t"
  by (auto simp: duration_defs)

lemma timeSub_le_iff: "minDuration \<le> d \<Longrightarrow> d < maxDuration \<Longrightarrow> timeSub t u \<le> d \<longleftrightarrow> t - u \<le> d"
  by (auto simp: duration_defs)

end
