(* ===== verification/Json.thy ===== *)
theory Json
  imports Prelude
begin

text \<open>
  Go values of type \<^verbatim>\<open>any\<close> as \<^verbatim>\<open>encoding/json\<close> and \<^verbatim>\<open>structpb.Struct.AsMap\<close> produce them,
  \<^verbatim>\<open>reflect.DeepEqual\<close> and \<^verbatim>\<open>fmt.Sprint\<close> on them, and the part of \<^verbatim>\<open>encoding/json\<close>
  that turns a parsed document into such values and into struct fields.

  A \<^verbatim>\<open>map[string]any\<close> is a finite map; a \<^verbatim>\<open>float64\<close> is its 64-bit pattern, so that Go's
  \<open>==\<close> on floats (\<open>-0 == 0\<close>, \<open>NaN != NaN\<close>) is not confused with equality of bits.
\<close>

unbundle bit_operations_syntax

subsection \<open>Values\<close>

datatype json =
    JNull
  | JBool bool
  | JNumber "64 word"
  | JString string
  | JArray "json list"
  | JObject "(string, json) fmap"

type_synonym claims = "(string, json) fmap"

definition float_nan :: "64 word \<Rightarrow> bool" where
  "float_nan w \<longleftrightarrow> w AND 0x7FF0000000000000 = 0x7FF0000000000000 \<and> w AND 0x000FFFFFFFFFFFFF \<noteq> 0"

definition float_inf :: "64 word \<Rightarrow> bool" where
  "float_inf w \<longleftrightarrow> w AND 0x7FFFFFFFFFFFFFFF = 0x7FF0000000000000"

definition float_zero :: "64 word \<Rightarrow> bool" where
  "float_zero w \<longleftrightarrow> w AND 0x7FFFFFFFFFFFFFFF = 0"

definition float_eq :: "64 word \<Rightarrow> 64 word \<Rightarrow> bool" where
  "float_eq v w \<longleftrightarrow> \<not> float_nan v \<and> \<not> float_nan w \<and> (v = w \<or> float_zero v \<and> float_zero w)"

primrec deepEqual :: "json \<Rightarrow> json \<Rightarrow> bool" where
  "deepEqual JNull w = (w = JNull)"
| "deepEqual (JBool b) w = (w = JBool b)"
| "deepEqual (JNumber f) w = (case w of JNumber g \<Rightarrow> float_eq f g | _ \<Rightarrow> False)"
| "deepEqual (JString s) w = (w = JString s)"
| "deepEqual (JArray xs) w =
     (case w of JArray ys \<Rightarrow> list_all2 (\<lambda>eq y. eq y) (map deepEqual xs) ys | _ \<Rightarrow> False)"
| "deepEqual (JObject m) w =
     (case w of JObject n \<Rightarrow> fmrel (\<lambda>eq y. eq y) (fmmap deepEqual m) n | _ \<Rightarrow> False)"

text \<open>No number in the value is a NaN, which is the case for everything decoded from JSON text.\<close>

primrec nan_free :: "json \<Rightarrow> bool" where
  "nan_free JNull = True"
| "nan_free (JBool b) = True"
| "nan_free (JNumber f) = (\<not> float_nan f)"
| "nan_free (JString s) = True"
| "nan_free (JArray xs) = list_all id (map nan_free xs)"
| "nan_free (JObject m) = fmpred (\<lambda>_ b. b) (fmmap nan_free m)"

lemma deepEqual_JArray: "deepEqual (JArray xs) (JArray ys) \<longleftrightarrow> list_all2 deepEqual xs ys"
  by (simp add: list_all2_map1)

lemma deepEqual_JObject: "deepEqual (JObject m) (JObject n) \<longleftrightarrow> fmrel deepEqual m n"
  by (simp add: fmap.rel_map)

lemma deepEqual_refl: "nan_free v \<Longrightarrow> deepEqual v v"
proof (induction v)
  case (JArray xs)
  then show ?case
    by (auto simp: list_all2_map1 list_all_iff intro!: list.rel_refl_strong)
next
  case (JObject m)
  have "fmrel deepEqual m m"
  proof (rule fmap.rel_refl_strong)
    fix v assume v: "v \<in> fmran' m"
    then obtain k where "fmlookup m k = Some v" by (auto elim: fmran'E)
    with JObject.prems have "nan_free v" by (auto simp: fmpred_iff)
    with JObject.IH v show "deepEqual v v" by blast
  qed
  then show ?case by (simp add: fmap.rel_map)
qed (auto simp: float_eq_def)

lemma float_eq_sym: "float_eq v w \<longleftrightarrow> float_eq w v"
  by (auto simp: float_eq_def)

lemma deepEqual_sym: "deepEqual v w \<Longrightarrow> deepEqual w v"
proof (induction v arbitrary: w)
  case (JNumber f)
  then show ?case by (auto simp: float_eq_sym split: json.splits)
next
  case (JArray xs)
  then obtain ys where w: "w = JArray ys" and xy: "list_all2 deepEqual xs ys"
    by (auto simp: list_all2_map1 split: json.splits)
  from xy have "list_all2 deepEqual ys xs"
    using JArray.IH by (auto simp: list_all2_conv_all_nth)
  with w show ?case by (simp add: list_all2_map1)
next
  case (JObject m)
  then obtain n where w: "w = JObject n" and mn: "fmrel deepEqual m n"
    by (auto simp: fmap.rel_map split: json.splits)
  have "fmrel deepEqual n m"
  proof (rule fmrelI)
    fix k
    from mn have "rel_option deepEqual (fmlookup m k) (fmlookup n k)" by (rule fmrelD)
    then show "rel_option deepEqual (fmlookup n k) (fmlookup m k)"
      using JObject.IH by (cases "fmlookup m k"; cases "fmlookup n k") (auto intro: fmran'I)
  qed
  with w show ?case by (simp add: fmap.rel_map)
qed auto

subsection \<open>Type assertions\<close>

text \<open>\<^verbatim>\<open>s, _ := c[k].(string)\<close>: the empty string when the key is absent or holds another type.\<close>

definition string_at :: "claims \<Rightarrow> string \<Rightarrow> string" where
  "string_at c k = (case fmlookup c k of Some (JString s) \<Rightarrow> s | _ \<Rightarrow> [])"

lemma string_at_upd [simp]:
  "string_at (fmupd k v c) k' =
     (if k' = k then (case v of JString s \<Rightarrow> s | _ \<Rightarrow> []) else string_at c k')"
  by (simp add: string_at_def)

subsection \<open>\<^verbatim>\<open>fmt.Sprint\<close>\<close>

text \<open>
  The default format of a value. Only the shortest decimal rendering of a \<^verbatim>\<open>float64\<close>
  (\<^verbatim>\<open>strconv\<close>) is left as the parameter \<open>ff\<close>. Maps print with their keys in byte order.
\<close>

primrec sprint :: "(64 word \<Rightarrow> string) \<Rightarrow> json \<Rightarrow> string" where
  "sprint ff JNull = ''<nil>''"
| "sprint ff (JBool b) = (if b then ''true'' else ''false'')"
| "sprint ff (JNumber f) = ff f"
| "sprint ff (JString s) = s"
| "sprint ff (JArray xs) = ''['' @ join (CHR '' '') (map (sprint ff) xs) @ '']''"
| "sprint ff (JObject m) =
     ''map['' @ join (CHR '' '') (map (\<lambda>(k, v). k @ '':'' @ v)
       (sorted_list_of_fmap (fmmap (sprint ff) m))) @ '']''"

subsection \<open>Documents\<close>

text \<open>A parsed JSON text, members in document order and possibly with repeated keys.\<close>

datatype jdoc =
    DNull
  | DBool bool
  | DNumber "64 word"
  | DString string
  | DArray "jdoc list"
  | DObject "(string \<times> jdoc) list"

text \<open>Decoding into \<^verbatim>\<open>any\<close>: a repeated key keeps its last value.\<close>

primrec to_any :: "jdoc \<Rightarrow> json" where
  "to_any DNull = JNull"
| "to_any (DBool b) = JBool b"
| "to_any (DNumber f) = JNumber f"
| "to_any (DString s) = JString s"
| "to_any (DArray ds) = JArray (map to_any ds)"
| "to_any (DObject ms) = JObject (fmap_of_list (rev (map (map_prod id to_any) ms)))"

text \<open>\<^verbatim>\<open>json.Marshal\<close> fails on NaN and infinities only; object keys come out in byte order.\<close>

primrec marshalable :: "json \<Rightarrow> bool" where
  "marshalable JNull = True"
| "marshalable (JBool b) = True"
| "marshalable (JNumber f) = (\<not> float_nan f \<and> \<not> float_inf f)"
| "marshalable (JString s) = True"
| "marshalable (JArray xs) = list_all id (map marshalable xs)"
| "marshalable (JObject m) = fmpred (\<lambda>_ b. b) (fmmap marshalable m)"

primrec of_any :: "json \<Rightarrow> jdoc" where
  "of_any JNull = DNull"
| "of_any (JBool b) = DBool b"
| "of_any (JNumber f) = DNumber f"
| "of_any (JString s) = DString s"
| "of_any (JArray xs) = DArray (map of_any xs)"
| "of_any (JObject m) = DObject (sorted_list_of_fmap (fmmap of_any m))"

definition marshal :: "json \<Rightarrow> jdoc option" where
  "marshal v = (if marshalable v then Some (of_any v) else None)"

lemma distinct_keys_sorted_list_of_fmap: "distinct (map fst (sorted_list_of_fmap m))"
  by (simp add: sorted_list_of_fmap_def comp_def sorted_list_of_fset.rep_eq)

lemma map_of_rev_distinct: "distinct (map fst xs) \<Longrightarrow> map_of (rev xs) = map_of xs"
  by (rule map_of_inject_set [THEN iffD2]) (auto simp: rev_map [symmetric])

lemma to_any_of_any: "to_any (of_any v) = v"
proof (induction v)
  case (JArray xs)
  then show ?case by (simp add: map_idI)
next
  case (JObject m)
  let ?l = "sorted_list_of_fmap (fmmap of_any m)"
  have "fmlookup (fmap_of_list (rev (map (map_prod id to_any) ?l))) k = fmlookup m k" for k
  proof -
    have "distinct (map fst (map (map_prod id to_any) ?l))"
      using distinct_keys_sorted_list_of_fmap [of "fmmap of_any m"] by (simp add: comp_def)
    then have "map_of (rev (map (map_prod id to_any) ?l)) k = map_of (map (map_prod id to_any) ?l) k"
      by (simp only: map_of_rev_distinct)
    also have "\<dots> = map_option to_any (fmlookup (fmmap of_any m) k)"
      by (simp add: map_prod_def id_def map_of_map flip: map_of_sorted_list)
    also have "\<dots> = fmlookup m k"
      using JObject.IH by (cases "fmlookup m k") (auto intro: fmran'I)
    finally show ?thesis by (simp add: fmlookup_of_list)
  qed
  then show ?case by (simp add: fmap_ext)
qed simp_all

subsection \<open>Decoding into struct fields\<close>

datatype json_error = UnmarshalTypeError | UnsupportedValue

text \<open>
  \<^verbatim>\<open>null\<close> leaves a string or bool field as it is, a value of another type is an error. The
  decoder records the first error, goes on and reports it at the end; every caller discards
  the target on error, so stopping at the first error is indistinguishable.
\<close>

fun decode_string :: "jdoc \<Rightarrow> string \<Rightarrow> (json_error, string) result" where
  "decode_string DNull cur = Ok cur"
| "decode_string (DString s) cur = Ok s"
| "decode_string _ cur = Err UnmarshalTypeError"

fun decode_bool :: "jdoc \<Rightarrow> bool \<Rightarrow> (json_error, bool) result" where
  "decode_bool DNull cur = Ok cur"
| "decode_bool (DBool b) cur = Ok b"
| "decode_bool _ cur = Err UnmarshalTypeError"

text \<open>A pointer field: \<^verbatim>\<open>null\<close> sets it to nil, anything else decodes into the pointee.\<close>

fun decode_pointer ::
  "(jdoc \<Rightarrow> 'a \<Rightarrow> (json_error, 'a) result) \<Rightarrow> 'a \<Rightarrow> jdoc \<Rightarrow> 'a option \<Rightarrow> (json_error, 'a option) result" where
  "decode_pointer dec zero DNull cur = Ok None"
| "decode_pointer dec zero d cur =
     map_sum id Some (dec d (case cur of None \<Rightarrow> zero | Some x \<Rightarrow> x))"

fun fold_result :: "('a \<Rightarrow> 's \<Rightarrow> ('e, 's) result) \<Rightarrow> 'a list \<Rightarrow> 's \<Rightarrow> ('e, 's) result" where
  "fold_result f [] s = Ok s"
| "fold_result f (x # xs) s = (case f x s of Err e \<Rightarrow> Err e | Ok s' \<Rightarrow> fold_result f xs s')"

text \<open>
  A slice is \<^const>\<open>None\<close> when nil. Decoding an array reuses the elements already there, so a field
  an element does not mention keeps its previous value (\<open>cur\<close>), as Go's decoder does.
\<close>

type_synonym 'a slice = "'a list option"

definition elems :: "'a slice \<Rightarrow> 'a list" where
  "elems s = (case s of None \<Rightarrow> [] | Some xs \<Rightarrow> xs)"

lemma elems_simps [simp]: "elems None = []" "elems (Some xs) = xs"
  by (simp_all add: elems_def)

fun decode_elems ::
  "(jdoc \<Rightarrow> 'a \<Rightarrow> (json_error, 'a) result) \<Rightarrow> 'a \<Rightarrow> jdoc list \<Rightarrow> 'a list \<Rightarrow> (json_error, 'a list) result" where
  "decode_elems dec zero [] cur = Ok []"
| "decode_elems dec zero (d # ds) cur =
     (case dec d (case cur of [] \<Rightarrow> zero | x # _ \<Rightarrow> x) of
        Err e \<Rightarrow> Err e
      | Ok x \<Rightarrow> map_sum id (Cons x) (decode_elems dec zero ds (tl cur)))"

fun decode_slice ::
  "(jdoc \<Rightarrow> 'a \<Rightarrow> (json_error, 'a) result) \<Rightarrow> 'a \<Rightarrow> jdoc \<Rightarrow> 'a slice \<Rightarrow> (json_error, 'a slice) result" where
  "decode_slice dec zero DNull cur = Ok None"
| "decode_slice dec zero (DArray ds) cur = map_sum id Some (decode_elems dec zero ds (elems cur))"
| "decode_slice dec zero _ cur = Err UnmarshalTypeError"

text \<open>
  A struct: unknown keys are skipped, a key selects the field whose name it equals under
  case folding, \<^verbatim>\<open>null\<close> has no effect.
\<close>

definition field_of :: "string list \<Rightarrow> string \<Rightarrow> string option" where
  "field_of names key = find (equalFoldAscii key) names"

fun decode_struct ::
  "string list \<Rightarrow> (string \<Rightarrow> jdoc \<Rightarrow> 'a \<Rightarrow> (json_error, 'a) result) \<Rightarrow> jdoc \<Rightarrow> 'a \<Rightarrow> (json_error, 'a) result" where
  "decode_struct names set_field DNull cur = Ok cur"
| "decode_struct names set_field (DObject ms) cur =
     fold_result (\<lambda>(k, d) x. case field_of names k of None \<Rightarrow> Ok x | Some n \<Rightarrow> set_field n d x) ms cur"
| "decode_struct names set_field _ cur = Err UnmarshalTypeError"

text \<open>
  The contract of a struct codec: decoding what was encoded gives the value back, whatever the
  target held before. Slices of such values then have a codec too.
\<close>

locale json_codec =
  fixes enc :: "'a \<Rightarrow> jdoc"
    and dec :: "jdoc \<Rightarrow> 'a \<Rightarrow> (json_error, 'a) result"
    and zero :: 'a
  assumes dec_enc: "dec (enc x) y = Ok x"
begin

lemma decode_elems_map: "decode_elems dec zero (map enc xs) cur = Ok xs"
  by (induction xs arbitrary: cur) (auto simp: dec_enc)

lemma decode_slice_enc:
  "decode_slice dec zero (case s of None \<Rightarrow> DNull | Some xs \<Rightarrow> DArray (map enc xs)) cur = Ok s"
  by (cases s) (simp_all add: decode_elems_map)

end

lemma fold_result_append:
  "fold_result f (xs @ ys) s = (case fold_result f xs s of Err e \<Rightarrow> Err e | Ok s' \<Rightarrow> fold_result f ys s')"
  by (induction xs arbitrary: s) (auto split: sum.splits)

lemma fold_result_invariant:
  assumes "fold_result f xs s = Ok s'" and "P s"
    and "\<And>x s s'. x \<in> set xs \<Longrightarrow> P s \<Longrightarrow> f x s = Ok s' \<Longrightarrow> P s'"
  shows "P s'"
  using assms
proof (induction xs arbitrary: s)
  case Nil
  then show ?case by simp
next
  case (Cons x xs)
  then obtain s1 where "f x s = Ok s1" and rest: "fold_result f xs s1 = Ok s'"
    by (auto split: sum.splits)
  then have "P s1" using Cons.prems(2,3) by (meson list.set_intros(1))
  with rest show ?case using Cons.IH Cons.prems(3) by (meson list.set_intros(2))
qed

end
