(* ===== verification/Http.thy ===== *)
theory Http
  imports Json
begin

text \<open>
  The parts of \<^verbatim>\<open>net/http\<close>, \<^verbatim>\<open>net/textproto\<close>, \<^verbatim>\<open>strings\<close> and \<^verbatim>\<open>strconv\<close> the plugin's HTTP
  servers use: header canonicalisation, requests and responses, string replacement, decimal rendering.
  A response body has the type \<open>'b\<close> of whoever writes it.
\<close>

subsection \<open>Headers\<close>

definition tokenByte :: "char \<Rightarrow> bool" where
  "tokenByte c \<longleftrightarrow>
     48 \<le> byte c \<and> byte c \<le> 57 \<or> 65 \<le> byte c \<and> byte c \<le> 90 \<or> 97 \<le> byte c \<and> byte c \<le> 122 \<or>
     c \<in> set ''!#$%&*+-.^_`|~'' \<or> byte c = 39"

definition asciiUpper :: "char \<Rightarrow> char" where
  "asciiUpper c = (if 97 \<le> byte c \<and> byte c \<le> 122 then char_of (byte c - 32) else c)"

text \<open>\<^verbatim>\<open>textproto.CanonicalMIMEHeaderKey\<close>: \<open>upper\<close> is set at the start and after a hyphen.\<close>

fun canonicalFrom :: "bool \<Rightarrow> string \<Rightarrow> string" where
  "canonicalFrom upper [] = []"
| "canonicalFrom upper (c # s) =
     (if upper then asciiUpper c else asciiLower c) # canonicalFrom (c = CHR ''-'') s"

definition canonicalKey :: "string \<Rightarrow> string" where
  "canonicalKey k = (if list_all tokenByte k then canonicalFrom True k else k)"

type_synonym header = "(string, string) fmap"

definition headerGet :: "header \<Rightarrow> string \<Rightarrow> string" where
  "headerGet h k = (case fmlookup h (canonicalKey k) of None \<Rightarrow> [] | Some v \<Rightarrow> v)"

definition headerSet :: "string \<Rightarrow> string \<Rightarrow> header \<Rightarrow> header" where
  "headerSet k v h = fmupd (canonicalKey k) v h"

lemma headerGet_Set [simp]:
  "headerGet (headerSet k v h) k' = (if canonicalKey k' = canonicalKey k then v else headerGet h k')"
  by (simp add: headerGet_def headerSet_def)

subsection \<open>Requests and responses\<close>

record http_request =
  rq_method :: string
  rq_path :: string
  rq_query :: "(string \<times> string) list"
  rq_header :: header
  rq_remote :: string
  rq_body :: string

record 'b http_response =
  rs_code :: nat
  rs_header :: header
  rs_body :: 'b

text \<open>A handler replies or panics.\<close>

datatype 'b outcome = Panicked | Replied "'b http_response"

definition contentType :: "string \<Rightarrow> header" where
  "contentType ct = headerSet ''Content-Type'' ct fmempty"

text \<open>\<^verbatim>\<open>http.Error\<close> and \<^verbatim>\<open>http.NotFound\<close>; \<open>text\<close> makes a body of a string.\<close>

definition httpError :: "(string \<Rightarrow> 'b) \<Rightarrow> string \<Rightarrow> nat \<Rightarrow> 'b http_response" where
  "httpError txt msg code =
     \<lparr>rs_code = code,
      rs_header = headerSet ''X-Content-Type-Options'' ''nosniff'' (contentType ''text/plain; charset=utf-8''),
      rs_body = txt (msg @ [char_of (10 :: nat)])\<rparr>"

definition notFound :: "(string \<Rightarrow> 'b) \<Rightarrow> 'b http_response" where
  "notFound txt = httpError txt ''404 page not found'' 404"

text \<open>\<^verbatim>\<open>url.Values.Get\<close>: the first value of the key.\<close>

definition queryGet :: "(string \<times> string) list \<Rightarrow> string \<Rightarrow> string" where
  "queryGet q k = (case map_of q k of None \<Rightarrow> [] | Some v \<Rightarrow> v)"

subsection \<open>Strings\<close>

function itoa :: "nat \<Rightarrow> string" where
  "itoa n = (if n < 10 then [char_of (48 + n)] else itoa (n div 10) @ [char_of (48 + n mod 10)])"
  by pat_completeness auto
termination by (relation "measure id") auto

declare itoa.simps [simp del]

definition trimRightByte :: "string \<Rightarrow> char \<Rightarrow> string" where
  "trimRightByte s c = rev (dropWhile (\<lambda>x. x = c) (rev s))"

text \<open>\<^verbatim>\<open>strings.Replace(s, old, new, 1)\<close> and \<^verbatim>\<open>strings.ReplaceAll\<close> for a non-empty \<open>old\<close>.\<close>

fun replaceFirst :: "string \<Rightarrow> string \<Rightarrow> string \<Rightarrow> string" where
  "replaceFirst [] old new = []"
| "replaceFirst (c # s) old new =
     (if hasPrefix (c # s) old then new @ drop (length old) (c # s) else c # replaceFirst s old new)"

function replaceAll :: "string \<Rightarrow> string \<Rightarrow> string \<Rightarrow> string" where
  "replaceAll [] old new = []"
| "replaceAll (c # s) old new =
     (if old \<noteq> [] \<and> hasPrefix (c # s) old then new @ replaceAll (drop (length old) (c # s)) old new
      else c # replaceAll s old new)"
  by pat_completeness auto
termination by (relation "measure (\<lambda>(s, _, _). length s)") auto

lemma replaceFirst_hit:
  assumes "strContains s old" "old \<noteq> []"
  shows "\<exists>a b. s = a @ old @ b \<and> \<not> strContains (a @ butlast old) old \<and> replaceFirst s old new = a @ new @ b"
  using assms
proof (induction s)
  case Nil
  then show ?case by (simp add: strContains_iff)
next
  case (Cons c s)
  show ?case
  proof (cases "hasPrefix (c # s) old")
    case True
    then obtain b where b: "c # s = old @ b" by (auto simp: hasPrefix_iff)
    have "\<not> strContains (butlast old) old"
    proof
      assume "strContains (butlast old) old"
      then obtain x y where "butlast old = x @ old @ y" by (auto simp: strContains_iff)
      then have "length old \<le> length (butlast old)" by simp
      moreover have "0 < length old" using Cons.prems(2) by simp
      ultimately show False unfolding length_butlast by linarith
    qed
    moreover have "replaceFirst (c # s) old new = new @ b"
    proof -
      have "replaceFirst (c # s) old new = new @ drop (length old) (c # s)" using True by simp
      also have "drop (length old) (c # s) = b" unfolding b by simp
      finally show ?thesis .
    qed
    ultimately show ?thesis using b by (intro exI [of _ "[]"] exI [of _ b]) simp
  next
    case False
    with Cons.prems have "strContains s old"
      by (simp add: hasPrefix_def)
    then obtain a b where ab: "s = a @ old @ b" "\<not> strContains (a @ butlast old) old"
      "replaceFirst s old new = a @ new @ b" using Cons.IH Cons.prems(2) by blast
    have "\<not> hasPrefix (c # a @ butlast old) old"
    proof
      assume "hasPrefix (c # a @ butlast old) old"
      then obtain r where "c # a @ butlast old = old @ r" by (auto simp: hasPrefix_iff)
      then have "c # s = old @ r @ [last old] @ b"
        using ab(1) Cons.prems(2) by (metis append.assoc append_Cons append_butlast_last_id)
      with False show False by (auto simp: hasPrefix_iff)
    qed
    with ab False show ?thesis
      by (intro exI [of _ "c # a"] exI [of _ b]) (simp add: hasPrefix_def)
  qed
qed

end
