(* ===== verification/Net.thy ===== *)
theory Net
  imports Prelude
begin

text \<open>
  What the plugin uses of Go's package \<^verbatim>\<open>net\<close>: \<^verbatim>\<open>ParseIP\<close>, \<^verbatim>\<open>SplitHostPort\<close>, the address
  classes of \<^verbatim>\<open>net.IP\<close>, and the host part \<^verbatim>\<open>(*url.URL).Hostname\<close> reads off \<^verbatim>\<open>URL.Host\<close>.
\<close>

unbundle bit_operations_syntax

subsection \<open>\<^verbatim>\<open>net.ParseIP\<close>\<close>

text \<open>A parsed address has 16 bytes; an IPv4 address is mapped under \<open>::ffff:0:0/96\<close>.\<close>

type_synonym ip = "8 word list"

definition v4InV6Prefix :: ip where
  "v4InV6Prefix = [0, 0, 0, 0, 0, 0, 0, 0, 0, 0, 0xff, 0xff]"

definition IPv4 :: "8 word \<Rightarrow> 8 word \<Rightarrow> 8 word \<Rightarrow> 8 word \<Rightarrow> ip" where
  "IPv4 a b c d = v4InV6Prefix @ [a, b, c, d]"

definition digit :: "char \<Rightarrow> nat option" where
  "digit c = (if 48 \<le> byte c \<and> byte c \<le> 57 then Some (byte c - 48) else None)"

definition hexDigit :: "char \<Rightarrow> nat option" where
  "hexDigit c =
     (if 48 \<le> byte c \<and> byte c \<le> 57 then Some (byte c - 48)
      else if 97 \<le> byte c \<and> byte c \<le> 102 then Some (byte c - 87)
      else if 65 \<le> byte c \<and> byte c \<le> 70 then Some (byte c - 55)
      else None)"

text \<open>
  \<open>parseIPv4Fields s val digLen acc\<close>: the octet being read is \<open>val\<close> with \<open>digLen\<close> digits so
  far, \<open>acc\<close> holds the octets before it. Leading zeros and octets above 255 are refused.
\<close>

fun parseIPv4Fields :: "string \<Rightarrow> nat \<Rightarrow> nat \<Rightarrow> ip \<Rightarrow> ip option" where
  "parseIPv4Fields [] val digLen acc =
     (if length acc < 3 then None else Some (acc @ [of_nat val]))"
| "parseIPv4Fields (c # s) val digLen acc =
     (case digit c of
        Some d \<Rightarrow>
          if digLen = 1 \<and> val = 0 then None
          else if val * 10 + d > 255 then None
          else parseIPv4Fields s (val * 10 + d) (Suc digLen) acc
      | None \<Rightarrow>
          if c = CHR ''.'' then
            if digLen = 0 \<or> s = [] then None
            else if length acc = 3 then None
            else parseIPv4Fields s 0 0 (acc @ [of_nat val])
          else None)"

text \<open>A run of at most four hexadecimal digits: its length, its value and the rest.\<close>

fun hexRun :: "string \<Rightarrow> nat \<Rightarrow> nat \<Rightarrow> (nat \<times> nat \<times> string) option" where
  "hexRun [] off acc = Some (off, acc, [])"
| "hexRun (c # s) off acc =
     (case hexDigit c of
        None \<Rightarrow> Some (off, acc, c # s)
      | Some d \<Rightarrow> if off > 3 then None else hexRun s (Suc off) (acc * 16 + d))"

text \<open>The group loop of IPv6 parsing: remaining text, bytes so far, position of \<open>::\<close>.\<close>

function parseGroups :: "string \<Rightarrow> ip \<Rightarrow> nat option \<Rightarrow> (string \<times> ip \<times> nat option) option" where
  "parseGroups s ip ellipsis =
     (if 16 \<le> length ip then Some (s, ip, ellipsis)
      else case hexRun s 0 0 of
        None \<Rightarrow> None
      | Some (off, acc, r) \<Rightarrow>
          if off = 0 then None
          else if take 1 r = ''.'' then
            if ellipsis = None \<and> length ip \<noteq> 12 then None
            else if length ip + 4 > 16 then None
            else map_option (\<lambda>q. ([], ip @ q, ellipsis)) (parseIPv4Fields s 0 0 [])
          else let ip' = ip @ [of_nat (acc div 256), of_nat acc] in
            if r = [] then Some ([], ip', ellipsis)
            else if hd r \<noteq> CHR '':'' then None
            else if tl r = [] then None
            else if hd (tl r) = CHR '':'' then
              if ellipsis \<noteq> None then None
              else if tl (tl r) = [] then Some ([], ip', Some (length ip'))
              else parseGroups (tl (tl r)) ip' (Some (length ip'))
            else parseGroups (tl r) ip' ellipsis)"
  by pat_completeness auto
termination
  by (relation "measure (\<lambda>(s, ip, e). 16 - length ip)") (auto simp: Let_def)

declare parseGroups.simps [simp del]

lemmas parseGroups_unfolded [code] = parseGroups.simps [unfolded Let_def]

definition expandEllipsis :: "string \<times> ip \<times> nat option \<Rightarrow> ip option" where
  "expandEllipsis = (\<lambda>(s, ip, ellipsis).
     if s \<noteq> [] then None
     else if length ip < 16 then
       (case ellipsis of
          None \<Rightarrow> None
        | Some e \<Rightarrow> Some (take e ip @ replicate (16 - length ip) 0 @ drop e ip))
     else if ellipsis \<noteq> None then None
     else Some ip)"

definition parseIPv6 :: "string \<Rightarrow> ip option" where
  "parseIPv6 s =
     (if hasPrefix s ''::'' then
        if drop 2 s = [] then Some (replicate 16 0)
        else Option.bind (parseGroups (drop 2 s) [] (Some 0)) expandEllipsis
      else Option.bind (parseGroups s [] None) expandEllipsis)"

text \<open>A zone (\<open>%\<close>) is legal for \<^verbatim>\<open>netip.ParseAddr\<close> and refused by \<^verbatim>\<open>net.ParseIP\<close>.\<close>

definition ParseIP :: "string \<Rightarrow> ip option" where
  "ParseIP s =
     (case find (\<lambda>c. c = CHR ''.'' \<or> c = CHR '':'' \<or> c = CHR ''%'') s of
        None \<Rightarrow> None
      | Some c \<Rightarrow>
          if c = CHR ''.'' then map_option (\<lambda>q. v4InV6Prefix @ q) (parseIPv4Fields s 0 0 [])
          else if c = CHR '':'' \<and> CHR ''%'' \<notin> set s then parseIPv6 s
          else None)"

lemmas parseIP_eval = ParseIP_def parseIPv6_def parseGroups.simps expandEllipsis_def
  hasPrefix_def digit_def hexDigit_def v4InV6Prefix_def

lemma parseIPv4Fields_length:
  "parseIPv4Fields s v n acc = Some q \<Longrightarrow> length acc \<le> 3 \<Longrightarrow> length q = 4"
  by (induction s v n acc rule: parseIPv4Fields.induct) (auto split: if_splits option.splits)

lemma parseGroups_length:
  assumes "parseGroups s ip e = Some (s', ip', e')" and "length ip \<le> 16" and "even (length ip)"
    and "\<And>n. e = Some n \<Longrightarrow> n \<le> length ip"
  shows "length ip' \<le> 16 \<and> (\<forall>n. e' = Some n \<longrightarrow> n \<le> length ip')"
  using assms
proof (induction "16 - length ip" arbitrary: s ip e rule: less_induct)
  case less
  show ?case
  proof (cases "16 \<le> length ip")
    case True
    with less.prems show ?thesis by (simp add: parseGroups.simps [of s ip e])
  next
    case False
    then have lt: "length ip + 2 \<le> 16"
      using less.prems(3) by presburger
    have step: ?thesis if "parseGroups t (ip @ [a, b]) e2 = Some (s', ip', e')"
      and "\<And>n. e2 = Some n \<Longrightarrow> n \<le> length ip + 2" for t a b e2
      using less.hyps [of "ip @ [a, b]" t e2] that lt less.prems(3) by simp
    have keep: ?thesis if "parseGroups t (ip @ [a, b]) e = Some (s', ip', e')" for t a b
      using less.prems(4) by (intro step [OF that]) (simp add: trans_le_add1)
    have new: ?thesis if "parseGroups t (ip @ [a, b]) (Some (Suc (Suc (length ip)))) = Some (s', ip', e')" for t a b
      by (intro step [OF that]) simp
    obtain off acc r where hex: "hexRun s 0 0 = Some (off, acc, r)"
      using less.prems(1) False
      by (cases "hexRun s 0 0") (auto simp: parseGroups.simps [of s ip e])
    note unf = less.prems(1) [unfolded parseGroups.simps [of s ip e] hex Let_def, simplified False, simplified]
    show ?thesis
    proof (cases "take 1 r = ''.''")
      case True
      with unf have "length ip + 4 \<le> 16" and "\<exists>q. parseIPv4Fields s 0 0 [] = Some q \<and> ip' = ip @ q"
        and "e' = e"
        by (auto split: if_splits)
      then show ?thesis
        using less.prems(4) by (fastforce dest: parseIPv4Fields_length)
    next
      case False
      let ?ip = "ip @ [of_nat (acc div 256), of_nat acc]"
      from False unf consider "ip' = ?ip" "e' = e" | "ip' = ?ip" "e' = Some (Suc (Suc (length ip)))"
        | "parseGroups (tl r) ?ip e = Some (s', ip', e')"
        | "parseGroups (tl (tl r)) ?ip (Some (Suc (Suc (length ip)))) = Some (s', ip', e')"
        by (auto split: if_splits)
      then show ?thesis
      proof cases
        case 1
        with lt show ?thesis by (auto dest: less.prems(4))
      next
        case 2
        with lt show ?thesis by simp
      next
        case 3
        then show ?thesis by (rule keep)
      next
        case 4
        then show ?thesis by (rule new)
      qed
    qed
  qed
qed

lemma ParseIP_length: "ParseIP s = Some ip \<Longrightarrow> length ip = 16"
proof -
  have v6: "length ip = 16" if "Option.bind (parseGroups t [] e) expandEllipsis = Some ip"
    and "e = None \<or> e = Some 0" for t e ip
  proof -
    from that(1) obtain s' ip' e' where pg: "parseGroups t [] e = Some (s', ip', e')"
      and ex: "expandEllipsis (s', ip', e') = Some ip"
      by (auto simp: bind_eq_Some_conv)
    have "length ip' \<le> 16 \<and> (\<forall>n. e' = Some n \<longrightarrow> n \<le> length ip')"
      using parseGroups_length [OF pg] that(2) by auto
    with ex show ?thesis
      by (auto simp: expandEllipsis_def split: if_splits option.splits)
  qed
  assume "ParseIP s = Some ip"
  then show ?thesis
    by (auto simp: ParseIP_def parseIPv6_def v4InV6Prefix_def
        split: option.splits if_splits intro: v6 dest: parseIPv4Fields_length)
qed

subsection \<open>Address classes of \<^verbatim>\<open>net.IP\<close>\<close>

definition To4 :: "ip \<Rightarrow> ip option" where
  "To4 ip =
     (if length ip = 4 then Some ip
      else if length ip = 16 \<and> take 12 ip = v4InV6Prefix then Some (drop 12 ip)
      else None)"

definition IPEqual :: "ip \<Rightarrow> ip \<Rightarrow> bool" where
  "IPEqual a b =
     (if length a = length b then a = b
      else if length a = 4 \<and> length b = 16 then take 12 b = v4InV6Prefix \<and> a = drop 12 b
      else if length a = 16 \<and> length b = 4 then take 12 a = v4InV6Prefix \<and> drop 12 a = b
      else False)"

definition IPv6unspecified :: ip where "IPv6unspecified = replicate 16 0"
definition IPv6loopback :: ip where "IPv6loopback = replicate 15 0 @ [1]"

definition IsUnspecified :: "ip \<Rightarrow> bool" where
  "IsUnspecified ip \<longleftrightarrow> IPEqual ip (IPv4 0 0 0 0) \<or> IPEqual ip IPv6unspecified"

definition IsLoopback :: "ip \<Rightarrow> bool" where
  "IsLoopback ip = (case To4 ip of Some ip4 \<Rightarrow> ip4 ! 0 = 127 | None \<Rightarrow> IPEqual ip IPv6loopback)"

definition IsPrivate :: "ip \<Rightarrow> bool" where
  "IsPrivate ip =
     (case To4 ip of
        Some ip4 \<Rightarrow> ip4 ! 0 = 10 \<or> ip4 ! 0 = 172 \<and> ip4 ! 1 AND 0xf0 = 16 \<or> ip4 ! 0 = 192 \<and> ip4 ! 1 = 168
      | None \<Rightarrow> length ip = 16 \<and> ip ! 0 AND 0xfe = 0xfc)"

definition IsLinkLocalUnicast :: "ip \<Rightarrow> bool" where
  "IsLinkLocalUnicast ip =
     (case To4 ip of
        Some ip4 \<Rightarrow> ip4 ! 0 = 169 \<and> ip4 ! 1 = 254
      | None \<Rightarrow> length ip = 16 \<and> ip ! 0 = 0xfe \<and> ip ! 1 AND 0xc0 = 0x80)"

definition IsLinkLocalMulticast :: "ip \<Rightarrow> bool" where
  "IsLinkLocalMulticast ip =
     (case To4 ip of
        Some ip4 \<Rightarrow> ip4 ! 0 = 224 \<and> ip4 ! 1 = 0 \<and> ip4 ! 2 = 0
      | None \<Rightarrow> length ip = 16 \<and> ip ! 0 = 0xff \<and> ip ! 1 AND 0x0f = 0x02)"

subsection \<open>\<^verbatim>\<open>net.SplitHostPort\<close>\<close>

datatype addr_error = MissingPort | TooManyColons | MissingBracket | UnexpectedOpen | UnexpectedClose

definition SplitHostPort :: "string \<Rightarrow> (addr_error, string \<times> string) result" where
  "SplitHostPort hostport =
     (case lastIndexByte hostport (CHR '':'') of
        None \<Rightarrow> Err MissingPort
      | Some i \<Rightarrow>
          let finish = (\<lambda>host j k.
                if CHR ''['' \<in> set (drop j hostport) then Err UnexpectedOpen
                else if CHR '']'' \<in> set (drop k hostport) then Err UnexpectedClose
                else Ok (host, drop (Suc i) hostport))
          in if hd hostport = CHR ''['' then
            (case indexByte hostport (CHR '']'') of
               None \<Rightarrow> Err MissingBracket
             | Some e \<Rightarrow>
                 if e + 1 = length hostport then Err MissingPort
                 else if e + 1 = i then finish (take (e - 1) (drop 1 hostport)) 1 (e + 1)
                 else if hostport ! (e + 1) = CHR '':'' then Err TooManyColons
                 else Err MissingPort)
          else if CHR '':'' \<in> set (take i hostport) then Err TooManyColons
          else finish (take i hostport) 0 0)"

lemma SplitHostPort_plain:
  assumes "set host \<inter> {CHR '':'', CHR ''['', CHR '']''} = {}"
    and "set port \<inter> {CHR '':'', CHR ''['', CHR '']''} = {}"
  shows "SplitHostPort (host @ '':'' @ port) = Ok (host, port)"
proof -
  have i: "lastIndexByte (host @ CHR '':'' # port) (CHR '':'') = Some (length host)"
    using assms by (intro lastIndexByte_append) auto
  have h: "hd (host @ CHR '':'' # port) \<noteq> CHR ''[''"
    using assms by (cases host) auto
  show ?thesis
    using assms i h by (auto simp: SplitHostPort_def Let_def)
qed

lemma SplitHostPort_bracketed:
  assumes "set host \<inter> {CHR ''['', CHR '']''} = {}"
    and "set port \<inter> {CHR '':'', CHR ''['', CHR '']''} = {}"
  shows "SplitHostPort (''['' @ host @ '']:'' @ port) = Ok (host, port)"
proof -
  let ?s = "CHR ''['' # host @ CHR '']'' # CHR '':'' # port"
  have i: "lastIndexByte ?s (CHR '':'') = Some (length host + 2)"
    using lastIndexByte_append [of "CHR '':''" port "CHR ''['' # host @ '']''"] assms by auto
  have e: "indexByte ?s (CHR '']'') = Some (length host + 1)"
    using indexByte_append [of "CHR '']''" "CHR ''['' # host"] assms by auto
  show ?thesis
    using assms i e by (auto simp: SplitHostPort_def Let_def)
qed

subsection \<open>\<^verbatim>\<open>(*url.URL).Hostname\<close>\<close>

definition validOptionalPort :: "string \<Rightarrow> bool" where
  "validOptionalPort port \<longleftrightarrow>
     port = [] \<or> hd port = CHR '':'' \<and> list_all (\<lambda>c. digit c \<noteq> None) (tl port)"

definition Hostname :: "string \<Rightarrow> string" where
  "Hostname hostPort =
     (let host =
            (case lastIndexByte hostPort (CHR '':'') of
               None \<Rightarrow> hostPort
             | Some colon \<Rightarrow>
                 if validOptionalPort (drop colon hostPort) then take colon hostPort else hostPort)
      in if hasPrefix host ''['' \<and> hasSuffix host '']''
         then take (length host - 2) (drop 1 host) else host)"

end
