(* ===== verification/Url_Query.thy ===== *)
theory Url_Query
  imports Http Net
begin

text \<open>
  The part of \<^verbatim>\<open>net/url\<close> and \<^verbatim>\<open>net/http/httptest\<close> through which \<^verbatim>\<open>internal/httproutes\<close> passes a request:
  percent-encoding of paths and query components, \<^verbatim>\<open>Values.Encode\<close> and \<^verbatim>\<open>ParseQuery\<close>, and the reading of the
  request line that \<^verbatim>\<open>httptest.NewRequest\<close> prints and parses back.
\<close>

subsection \<open>Percent-encoding\<close>

datatype encoding = EncodePath | EncodeQueryComponent

definition unreserved :: "char \<Rightarrow> bool" where
  "unreserved c \<longleftrightarrow> 48 \<le> byte c \<and> byte c \<le> 57 \<or> 65 \<le> byte c \<and> byte c \<le> 90 \<or> 97 \<le> byte c \<and> byte c \<le> 122 \<or>
     c \<in> set ''-_.~''"

definition shouldEscape :: "encoding \<Rightarrow> char \<Rightarrow> bool" where
  "shouldEscape mode c \<longleftrightarrow>
     \<not> unreserved c \<and> (c \<in> set ''$&+,/:;=?@'' \<longrightarrow> mode = EncodeQueryComponent \<or> c = CHR ''?'')"

definition upperhex :: "nat \<Rightarrow> char" where
  "upperhex n = ''0123456789ABCDEF'' ! n"

definition escapeByte :: "encoding \<Rightarrow> char \<Rightarrow> string" where
  "escapeByte mode c =
     (if shouldEscape mode c then
        (if c = CHR '' '' \<and> mode = EncodeQueryComponent then ''+''
         else [CHR ''%'', upperhex (byte c div 16), upperhex (byte c mod 16)])
      else [c])"

definition urlEscape :: "encoding \<Rightarrow> string \<Rightarrow> string" where
  "urlEscape mode s = concat (map (escapeByte mode) s)"

fun urlUnescape :: "encoding \<Rightarrow> string \<Rightarrow> string option" where
  "urlUnescape mode [] = Some []"
| "urlUnescape mode (c # s) =
     (if c = CHR ''%'' then
        (case s of
           a # b # s' \<Rightarrow>
             (case (hexDigit a, hexDigit b) of
                (Some x, Some y) \<Rightarrow> map_option (\<lambda>r. char_of (16 * x + y) # r) (urlUnescape mode s')
              | _ \<Rightarrow> None)
         | _ \<Rightarrow> None)
      else if c = CHR ''+'' \<and> mode = EncodeQueryComponent then map_option (\<lambda>r. CHR '' '' # r) (urlUnescape mode s)
      else map_option (\<lambda>r. c # r) (urlUnescape mode s))"

lemma hexDigit_upperhex:
  assumes "n < 16"
  shows "hexDigit (upperhex n) = Some n" and "unreserved (upperhex n)"
proof -
  have "list_all (\<lambda>n. hexDigit (upperhex n) = Some n \<and> unreserved (upperhex n)) [0..<16]" by code_simp
  with assms show "hexDigit (upperhex n) = Some n" "unreserved (upperhex n)" by (auto simp: list_all_iff)
qed

lemma escapeByte_cases:
  obtains (hex) a b where "escapeByte mode c = [CHR ''%'', a, b]" "hexDigit a = Some (byte c div 16)"
      "hexDigit b = Some (byte c mod 16)" "unreserved a" "unreserved b"
  | (plus) "escapeByte mode c = ''+''" "c = CHR '' ''" "mode = EncodeQueryComponent"
  | (plain) "escapeByte mode c = [c]" "\<not> shouldEscape mode c"
proof -
  have bounds: "byte c div 16 < 16" "byte c mod 16 < 16" by (simp_all add: less_mult_imp_div_less)
  consider "\<not> shouldEscape mode c" | "shouldEscape mode c" "c = CHR '' '' \<and> mode = EncodeQueryComponent"
    | "shouldEscape mode c" "\<not> (c = CHR '' '' \<and> mode = EncodeQueryComponent)" by blast
  then show ?thesis
  proof cases
    case 3
    show ?thesis
      by (rule hex [of "upperhex (byte c div 16)" "upperhex (byte c mod 16)"])
        (use 3 hexDigit_upperhex bounds in \<open>simp_all add: escapeByte_def\<close>)
  qed (auto simp: escapeByte_def intro: plus plain)
qed

lemma urlUnescape_escapeByte:
  "urlUnescape mode (escapeByte mode c @ s) = map_option (\<lambda>r. c # r) (urlUnescape mode s)"
proof (cases rule: escapeByte_cases [where mode = mode and c = c])
  case (hex a b)
  moreover have "char_of (16 * (byte c div 16) + byte c mod 16) = c"
    by (simp add: mult_div_mod_eq)
  ultimately show ?thesis by simp
next
  case plain
  then have "c \<noteq> CHR ''%''" "c = CHR ''+'' \<Longrightarrow> mode = EncodePath"
    by (cases mode; auto simp: shouldEscape_def unreserved_def)+
  with plain show ?thesis by auto
qed simp

lemma urlUnescape_urlEscape [simp]: "urlUnescape mode (urlEscape mode s) = Some s"
  by (induction s) (simp_all add: urlEscape_def urlUnescape_escapeByte)

lemma escapeByte_safe:
  assumes "d \<in> set (escapeByte mode c)"
  shows "d \<noteq> CHR ''?''" and "mode = EncodeQueryComponent \<Longrightarrow> d \<notin> set ''&;=''"
proof -
  have "\<not> shouldEscape mode d \<or> d = CHR ''%'' \<or> d = CHR ''+''"
    using assms by (cases rule: escapeByte_cases [where mode = mode and c = c]) (auto simp: shouldEscape_def)
  then show "d \<noteq> CHR ''?''" "mode = EncodeQueryComponent \<Longrightarrow> d \<notin> set ''&;=''"
    by (auto simp: shouldEscape_def unreserved_def)
qed

lemma urlEscape_no_query_mark: "CHR ''?'' \<notin> set (urlEscape mode s)"
  using escapeByte_safe(1) by (fastforce simp: urlEscape_def)

lemma urlEscape_query_safe: "d \<in> set (urlEscape EncodeQueryComponent s) \<Longrightarrow> d \<notin> set ''&;=''"
  using escapeByte_safe(2) by (fastforce simp: urlEscape_def)

lemma urlEscape_slash: "urlEscape EncodePath (CHR ''/'' # s) = CHR ''/'' # urlEscape EncodePath s"
  by (simp add: urlEscape_def escapeByte_def shouldEscape_def)

subsection \<open>Query strings\<close>

type_synonym query_values = "(string, string) fmap"

text \<open>\<^verbatim>\<open>Values.Encode\<close> for one value per key: the keys in byte order.\<close>

definition encodePair :: "string \<times> string \<Rightarrow> string" where
  "encodePair kv = urlEscape EncodeQueryComponent (fst kv) @ CHR ''='' # urlEscape EncodeQueryComponent (snd kv)"

definition encodeValues :: "query_values \<Rightarrow> string" where
  "encodeValues m = join (CHR ''&'') (map encodePair (sorted_list_of_fmap m))"

definition cutByte :: "string \<Rightarrow> char \<Rightarrow> string \<times> string" where
  "cutByte s c = (case indexByte s c of None \<Rightarrow> (s, []) | Some i \<Rightarrow> (take i s, drop (i + 1) s))"

text \<open>One setting of \<^verbatim>\<open>ParseQuery\<close>; a malformed one is skipped, since \<^verbatim>\<open>URL.Query\<close> ignores the error.\<close>

definition parsePair :: "string \<Rightarrow> (string \<times> string) list" where
  "parsePair p =
     (if CHR '';'' \<in> set p \<or> p = [] then []
      else let (k, v) = cutByte p (CHR ''='') in
        (case (urlUnescape EncodeQueryComponent k, urlUnescape EncodeQueryComponent v) of
           (Some k', Some v') \<Rightarrow> [(k', v')]
         | _ \<Rightarrow> []))"

definition parseQuery :: "string \<Rightarrow> (string \<times> string) list" where
  "parseQuery q = concat (map parsePair (split (CHR ''&'') q))"

lemma cutByte_append: "c \<notin> set p \<Longrightarrow> cutByte (p @ c # s) c = (p, s)"
  by (simp add: cutByte_def indexByte_append)

lemma parsePair_encodePair [simp]: "parsePair (encodePair kv) = [kv]"
proof -
  let ?k = "urlEscape EncodeQueryComponent (fst kv)" and ?v = "urlEscape EncodeQueryComponent (snd kv)"
  have "CHR '';'' \<notin> set (encodePair kv)"
    using urlEscape_query_safe [of "CHR '';''"] by (auto simp: encodePair_def)
  moreover have "cutByte (encodePair kv) (CHR ''='') = (?k, ?v)"
    using urlEscape_query_safe [of "CHR ''=''"] by (auto simp: encodePair_def intro!: cutByte_append)
  ultimately show ?thesis by (simp add: parsePair_def encodePair_def)
qed

lemma encodePair_no_amp: "CHR ''&'' \<notin> set (encodePair kv)"
  using urlEscape_query_safe [of "CHR ''&''"] by (auto simp: encodePair_def)

lemma parseQuery_encodeValues: "parseQuery (encodeValues m) = sorted_list_of_fmap m"
proof (cases "sorted_list_of_fmap m")
  case Nil
  then show ?thesis by (simp add: parseQuery_def encodeValues_def parsePair_def)
next
  case (Cons kv kvs)
  have "split (CHR ''&'') (encodeValues m) = map encodePair (sorted_list_of_fmap m)"
    unfolding encodeValues_def by (rule split_join) (auto simp: Cons encodePair_no_amp)
  then show ?thesis by (simp add: parseQuery_def comp_def)
qed

lemma queryGet_encodeValues:
  "queryGet (parseQuery (encodeValues m)) k = (case fmlookup m k of None \<Rightarrow> [] | Some v \<Rightarrow> v)"
proof -
  have "map_of (sorted_list_of_fmap m) k = fmlookup m k"
    using fmlookup_of_list [of "sorted_list_of_fmap m"] by simp
  then show ?thesis by (simp add: queryGet_def parseQuery_encodeValues)
qed

subsection \<open>Request lines\<close>

definition validMethod :: "string \<Rightarrow> bool" where
  "validMethod m \<longleftrightarrow> m \<noteq> [] \<and> list_all tokenByte m"

text \<open>\<^verbatim>\<open>(&url.URL{Path: path, RawQuery: raw}).String()\<close> for a path that starts with a slash; \<^verbatim>\<open>String\<close> puts
  \<^verbatim>\<open>./\<close> before a relative path whose first segment has a colon, and leaves the path \<^verbatim>\<open>*\<close> alone.\<close>

definition urlString :: "string \<Rightarrow> string \<Rightarrow> string" where
  "urlString path raw =
     (let p = (if path = ''*'' then path else urlEscape EncodePath path)
      in (if CHR '':'' \<in> set (fst (cutByte p (CHR ''/''))) then ''./'' else []) @ p @ (if raw = [] then [] else CHR ''?'' # raw))"

text \<open>
  \<^verbatim>\<open>httptest.NewRequest\<close> prints a request line and has \<^verbatim>\<open>http.ReadRequest\<close> read it; \<^const>\<open>None\<close> stands for its panic.
  Request lines other than a token followed by an absolute path (the path \<^verbatim>\<open>*\<close>, \<^verbatim>\<open>CONNECT\<close> to an authority, a method with
  blanks or line breaks in it) are left to the parameter \<open>other\<close>. The remote address of such a request is a constant.
\<close>

definition newRequest ::
  "(string \<Rightarrow> string \<Rightarrow> string \<Rightarrow> http_request option) \<Rightarrow> string \<Rightarrow> string \<Rightarrow> string \<Rightarrow> http_request option" where
  "newRequest other m target bdy =
     (if validMethod m \<and> hasPrefix target ''/'' then
        (let (p, raw) = cutByte target (CHR ''?'') in
         map_option (\<lambda>path. \<lparr>rq_method = m, rq_path = path, rq_query = parseQuery raw, rq_header = fmempty,
           rq_remote = ''192.0.2.1:1234'', rq_body = bdy\<rparr>) (urlUnescape EncodePath p))
      else other m target bdy)"

lemma cutByte_urlString:
  "cutByte (urlEscape EncodePath path @ (if raw = [] then [] else CHR ''?'' # raw)) (CHR ''?'') = (urlEscape EncodePath path, raw)"
  using urlEscape_no_query_mark [of EncodePath path] cutByte_append [of "CHR ''?''" "urlEscape EncodePath path" raw]
  by (cases "raw = []") (simp_all add: cutByte_def indexByte_None_iff [THEN iffD2])

lemma urlString_absolute:
  "urlString (CHR ''/'' # p) raw = urlEscape EncodePath (CHR ''/'' # p) @ (if raw = [] then [] else CHR ''?'' # raw)"
  by (simp add: urlString_def urlEscape_slash cutByte_def)

lemma newRequest_urlString:
  assumes "validMethod m"
  shows "newRequest other m (urlString (CHR ''/'' # p) (encodeValues vals)) bdy =
    Some \<lparr>rq_method = m, rq_path = CHR ''/'' # p, rq_query = sorted_list_of_fmap vals, rq_header = fmempty,
      rq_remote = ''192.0.2.1:1234'', rq_body = bdy\<rparr>"
proof -
  have "hasPrefix (urlString (CHR ''/'' # p) (encodeValues vals)) ''/''"
    unfolding urlString_absolute by (simp add: urlEscape_slash hasPrefix_def)
  with assms show ?thesis
    unfolding newRequest_def urlString_absolute cutByte_urlString by (simp add: parseQuery_encodeValues)
qed

end
