(* ===== verification/Runtime_Config.thy ===== *)
theory Runtime_Config
  imports Json Net
begin

text \<open>
  \<^verbatim>\<open>internal/runtime/runtime.go\<close>: the configuration record, its validation, the host's
  \<^verbatim>\<open>ConfigEntry\<close> loader and the JSON form of the record (struct tags).

  Parameters, gathered in the record \<open>golib\<close>: \<^verbatim>\<open>url.Parse\<close> (with the fields of the result the
  plugin reads), \<^verbatim>\<open>regexp.Compile\<close> followed by \<^verbatim>\<open>MatchString\<close>, and the decimal rendering of a
  \<^verbatim>\<open>float64\<close>. Theorems hold for every choice of them.
\<close>

subsection \<open>Parameters\<close>

record url =
  Scheme :: string
  Host :: string
  HasUser :: bool
  RawQuery :: string
  Fragment :: string

record golib =
  url_parse :: "string \<Rightarrow> url option"
  rx_compile :: "string \<Rightarrow> (string \<Rightarrow> bool) option"
  fmt_float :: "64 word \<Rightarrow> string"

subsection \<open>Data\<close>

definition AllowedIcons :: "string list" where
  "AllowedIcons =
     [''authentik.svg'', ''keycloak.svg'', ''auth0.svg'', ''okta.svg'', ''microsoft.svg'',
      ''google.svg'', ''gitlab.svg'', ''generic-key.svg'']"

record ClaimFilter =
  cf_ClaimPath :: string
  cf_Operator :: string
  cf_Value :: json

record RoleMappingRule =
  rm_ClaimPath :: string
  rm_Operator :: string
  rm_Value :: json
  rm_Role :: string

record Config =
  DatabaseURL :: string
  IssuerURL :: string
  ClientID :: string
  ClientSecret :: string
  Scopes :: string
  DisplayName :: string
  IconURLPath :: string
  ClaimFilters :: "ClaimFilter slice"
  ClaimRoleMapping :: "RoleMappingRule slice"
  EmailVerifiedRequired :: bool
  LinkByEmail :: bool

text \<open>Go's zero values \<^verbatim>\<open>Config{}\<close>, \<^verbatim>\<open>ClaimFilter{}\<close>, \<^verbatim>\<open>RoleMappingRule{}\<close>.\<close>

definition zeroFilter :: ClaimFilter where
  "zeroFilter = \<lparr>cf_ClaimPath = [], cf_Operator = [], cf_Value = JNull\<rparr>"

definition zeroRule :: RoleMappingRule where
  "zeroRule = \<lparr>rm_ClaimPath = [], rm_Operator = [], rm_Value = JNull, rm_Role = []\<rparr>"

definition zeroConfig :: Config where
  "zeroConfig = \<lparr>DatabaseURL = [], IssuerURL = [], ClientID = [], ClientSecret = [], Scopes = [],
     DisplayName = [], IconURLPath = [], ClaimFilters = None, ClaimRoleMapping = None,
     EmailVerifiedRequired = False, LinkByEmail = False\<rparr>"

definition ProviderConfigured :: "Config \<Rightarrow> bool" where
  "ProviderConfigured c \<longleftrightarrow> IssuerURL c \<noteq> [] \<and> ClientID c \<noteq> [] \<and> ClientSecret c \<noteq> []"

definition providerPartiallyConfigured :: "Config \<Rightarrow> bool" where
  "providerPartiallyConfigured c \<longleftrightarrow> IssuerURL c \<noteq> [] \<or> ClientID c \<noteq> [] \<or> ClientSecret c \<noteq> []"

subsection \<open>Errors\<close>

datatype rule_error =
    BadOperator string
  | ClaimPathRequired
  | EmptySegment string
  | BadSegment string string
  | NeedsStringValue string
  | InvalidRegex
  | BadRole string

datatype url_error = NotURL | BadScheme | NotOrigin | NotHttps

datatype config_error =
    IssuerRequired
  | IssuerInvalid url_error
  | ClientIDRequired
  | ClientSecretRequired
  | ScopesMissingOpenID
  | LinkRequiresVerifiedEmail
  | IconNotAllowed string
  | FilterInvalid nat rule_error
  | MappingInvalid nat rule_error
  | ClaimFiltersMarshal
  | ClaimFiltersShape json_error
  | RoleMappingMarshal
  | RoleMappingShape json_error

subsection \<open>URL checks\<close>

definition isLocalhost :: "string \<Rightarrow> bool" where
  "isLocalhost host \<longleftrightarrow>
     equalFoldAscii host ''localhost'' \<or>
     (case ParseIP host of None \<Rightarrow> False | Some ip \<Rightarrow> IsLoopback ip)"

definition validateIssuerURL :: "golib \<Rightarrow> string \<Rightarrow> url_error check" where
  "validateIssuerURL lib raw =
     (case url_parse lib raw of
        None \<Rightarrow> Some NotURL
      | Some u \<Rightarrow> first_error
          [fail_if (Scheme u \<noteq> ''https'' \<and> Scheme u \<noteq> ''http'') BadScheme,
           fail_if (Host u = [] \<or> HasUser u \<or> RawQuery u \<noteq> [] \<or> Fragment u \<noteq> []) NotOrigin,
           fail_if (Scheme u = ''http'' \<and> \<not> isLocalhost (Hostname (Host u))) NotHttps])"

definition IssuerAllowsLoopback :: "golib \<Rightarrow> string \<Rightarrow> bool" where
  "IssuerAllowsLoopback lib issuerURL =
     (case url_parse lib issuerURL of
        None \<Rightarrow> False
      | Some u \<Rightarrow> if Host u = [] then False else isLocalhost (Hostname (Host u)))"

definition ValidateFetchURL :: "golib \<Rightarrow> string \<Rightarrow> url_error check" where
  "ValidateFetchURL lib raw =
     (case url_parse lib raw of
        None \<Rightarrow> Some NotURL
      | Some u \<Rightarrow> first_error
          [fail_if (Scheme u \<noteq> ''https'' \<and> Scheme u \<noteq> ''http'') BadScheme,
           fail_if (Host u = [] \<or> HasUser u) NotOrigin,
           fail_if (Scheme u = ''http'' \<and> \<not> isLocalhost (Hostname (Host u))) NotHttps])"

definition scopeIncludesOpenID :: "string \<Rightarrow> bool" where
  "scopeIncludesOpenID scopes \<longleftrightarrow> list_ex (\<lambda>scope. scope = ''openid'') (strFields scopes)"

subsection \<open>Rule checks\<close>

definition asciiLetter :: "char \<Rightarrow> bool" where
  "asciiLetter c \<longleftrightarrow> 65 \<le> byte c \<and> byte c \<le> 90 \<or> 97 \<le> byte c \<and> byte c \<le> 122"

text \<open>The regular expression \<^verbatim>\<open>^[A-Za-z_][A-Za-z0-9_-]*$\<close>.\<close>

fun claimPathSegment :: "string \<Rightarrow> bool" where
  "claimPathSegment [] = False"
| "claimPathSegment (c # s) =
     ((asciiLetter c \<or> c = CHR ''_'') \<and>
      list_all (\<lambda>d. asciiLetter d \<or> digit d \<noteq> None \<or> d = CHR ''_'' \<or> d = CHR ''-'') s)"

definition ValidateClaimPath :: "string \<Rightarrow> rule_error check" where
  "ValidateClaimPath path =
     (if path = [] then Some ClaimPathRequired
      else first_error (map (\<lambda>seg.
        if seg = [] then Some (EmptySegment path)
        else if \<not> claimPathSegment seg then Some (BadSegment path seg)
        else None) (split (CHR ''.'') path)))"

definition ValidateOperator :: "string \<Rightarrow> rule_error check" where
  "ValidateOperator op =
     (if op = ''equals'' \<or> op = ''contains'' \<or> op = ''starts_with'' \<or> op = ''regex'' then None
      else Some (BadOperator op))"

definition ValidateOperatorValue :: "string \<Rightarrow> json \<Rightarrow> rule_error check" where
  "ValidateOperatorValue op v =
     (if op = ''starts_with'' \<or> op = ''regex''
      then (case v of JString _ \<Rightarrow> None | _ \<Rightarrow> Some (NeedsStringValue op))
      else None)"

definition stringOf :: "json \<Rightarrow> string" where
  "stringOf v = (case v of JString s \<Rightarrow> s | _ \<Rightarrow> [])"

definition regexCheck :: "golib \<Rightarrow> string \<Rightarrow> json \<Rightarrow> rule_error check" where
  "regexCheck lib op v =
     (if op = ''regex'' \<and> rx_compile lib (stringOf v) = None then Some InvalidRegex else None)"

definition customIconAllowed :: "golib \<Rightarrow> string \<Rightarrow> bool" where
  "customIconAllowed lib raw =
     (if raw = [] \<or> containsAny raw [CHR '' '', CHR 0x09, CHR 0x0D, CHR 0x0A] then False
      else if hasPrefix raw ''/'' then \<not> hasPrefix raw ''//'' \<and> \<not> strContains raw ''..''
      else case url_parse lib raw of
             None \<Rightarrow> False
           | Some u \<Rightarrow> (Scheme u = ''https'' \<or> Scheme u = ''http'') \<and> Host u \<noteq> [] \<and> \<not> HasUser u)"

definition IconAllowed :: "golib \<Rightarrow> string \<Rightarrow> bool" where
  "IconAllowed lib name \<longleftrightarrow> list_ex (\<lambda>a. a = name) AllowedIcons \<or> customIconAllowed lib name"

subsection \<open>\<^verbatim>\<open>ValidateConfig\<close>\<close>

definition validateFilter :: "golib \<Rightarrow> ClaimFilter \<Rightarrow> rule_error check" where
  "validateFilter lib f = first_error
     [ValidateOperator (cf_Operator f),
      fail_if (cf_ClaimPath f = []) ClaimPathRequired,
      ValidateClaimPath (cf_ClaimPath f),
      ValidateOperatorValue (cf_Operator f) (cf_Value f),
      regexCheck lib (cf_Operator f) (cf_Value f)]"

definition validateRule :: "golib \<Rightarrow> RoleMappingRule \<Rightarrow> rule_error check" where
  "validateRule lib r = first_error
     [ValidateOperator (rm_Operator r),
      fail_if (rm_ClaimPath r = []) ClaimPathRequired,
      ValidateClaimPath (rm_ClaimPath r),
      fail_if (rm_Role r \<noteq> ''user'' \<and> rm_Role r \<noteq> ''admin'') (BadRole (rm_Role r)),
      ValidateOperatorValue (rm_Operator r) (rm_Value r),
      regexCheck lib (rm_Operator r) (rm_Value r)]"

text \<open>The two \<^verbatim>\<open>for i, f := range\<close> loops: the first bad rule is reported with its index.\<close>

fun validateEach :: "('a \<Rightarrow> rule_error check) \<Rightarrow> nat \<Rightarrow> 'a list \<Rightarrow> (nat \<times> rule_error) option" where
  "validateEach chk i [] = None"
| "validateEach chk i (x # xs) =
     (case chk x of Some e \<Rightarrow> Some (i, e) | None \<Rightarrow> validateEach chk (Suc i) xs)"

definition ValidateConfig :: "golib \<Rightarrow> Config \<Rightarrow> config_error check" where
  "ValidateConfig lib cfg = first_error
     [if providerPartiallyConfigured cfg then first_error
        [fail_if (IssuerURL cfg = []) IssuerRequired,
         map_option IssuerInvalid (validateIssuerURL lib (IssuerURL cfg)),
         fail_if (ClientID cfg = []) ClientIDRequired,
         fail_if (ClientSecret cfg = []) ClientSecretRequired]
      else None,
      fail_if (\<not> scopeIncludesOpenID (Scopes cfg)) ScopesMissingOpenID,
      fail_if (LinkByEmail cfg \<and> \<not> EmailVerifiedRequired cfg) LinkRequiresVerifiedEmail,
      fail_if (\<not> IconAllowed lib (IconURLPath cfg)) (IconNotAllowed (IconURLPath cfg)),
      map_option (\<lambda>(i, e). FilterInvalid i e)
        (validateEach (validateFilter lib) 0 (elems (ClaimFilters cfg))),
      map_option (\<lambda>(i, e). MappingInvalid i e)
        (validateEach (validateRule lib) 0 (elems (ClaimRoleMapping cfg)))]"

subsection \<open>JSON form of the records\<close>

definition filterFields :: "string list" where
  "filterFields = [''claim_path'', ''operator'', ''value'']"

definition setFilterField :: "string \<Rightarrow> jdoc \<Rightarrow> ClaimFilter \<Rightarrow> (json_error, ClaimFilter) result" where
  "setFilterField n d f =
     (if n = ''claim_path'' then map_sum id (\<lambda>s. f\<lparr>cf_ClaimPath := s\<rparr>) (decode_string d (cf_ClaimPath f))
      else if n = ''operator'' then map_sum id (\<lambda>s. f\<lparr>cf_Operator := s\<rparr>) (decode_string d (cf_Operator f))
      else Ok (f\<lparr>cf_Value := to_any d\<rparr>))"

definition decodeFilter :: "jdoc \<Rightarrow> ClaimFilter \<Rightarrow> (json_error, ClaimFilter) result" where
  "decodeFilter = decode_struct filterFields setFilterField"

definition ruleFields :: "string list" where
  "ruleFields = [''claim_path'', ''operator'', ''value'', ''role'']"

definition setRuleField :: "string \<Rightarrow> jdoc \<Rightarrow> RoleMappingRule \<Rightarrow> (json_error, RoleMappingRule) result" where
  "setRuleField n d r =
     (if n = ''claim_path'' then map_sum id (\<lambda>s. r\<lparr>rm_ClaimPath := s\<rparr>) (decode_string d (rm_ClaimPath r))
      else if n = ''operator'' then map_sum id (\<lambda>s. r\<lparr>rm_Operator := s\<rparr>) (decode_string d (rm_Operator r))
      else if n = ''role'' then map_sum id (\<lambda>s. r\<lparr>rm_Role := s\<rparr>) (decode_string d (rm_Role r))
      else Ok (r\<lparr>rm_Value := to_any d\<rparr>))"

definition decodeRule :: "jdoc \<Rightarrow> RoleMappingRule \<Rightarrow> (json_error, RoleMappingRule) result" where
  "decodeRule = decode_struct ruleFields setRuleField"

definition decodeFilters :: "jdoc \<Rightarrow> ClaimFilter slice \<Rightarrow> (json_error, ClaimFilter slice) result" where
  "decodeFilters = decode_slice decodeFilter zeroFilter"

definition decodeRules :: "jdoc \<Rightarrow> RoleMappingRule slice \<Rightarrow> (json_error, RoleMappingRule slice) result" where
  "decodeRules = decode_slice decodeRule zeroRule"

definition configFields :: "string list" where
  "configFields = [''database_url'', ''issuer_url'', ''client_id'', ''client_secret'', ''scopes'',
     ''display_name'', ''icon_url_path'', ''claim_filters'', ''claim_role_mapping'',
     ''email_verified_required'', ''link_by_email'']"

definition setConfigField :: "string \<Rightarrow> jdoc \<Rightarrow> Config \<Rightarrow> (json_error, Config) result" where
  "setConfigField n d c =
     (if n = ''database_url'' then map_sum id (\<lambda>s. c\<lparr>DatabaseURL := s\<rparr>) (decode_string d (DatabaseURL c))
      else if n = ''issuer_url'' then map_sum id (\<lambda>s. c\<lparr>IssuerURL := s\<rparr>) (decode_string d (IssuerURL c))
      else if n = ''client_id'' then map_sum id (\<lambda>s. c\<lparr>ClientID := s\<rparr>) (decode_string d (ClientID c))
      else if n = ''client_secret'' then map_sum id (\<lambda>s. c\<lparr>ClientSecret := s\<rparr>) (decode_string d (ClientSecret c))
      else if n = ''scopes'' then map_sum id (\<lambda>s. c\<lparr>Scopes := s\<rparr>) (decode_string d (Scopes c))
      else if n = ''display_name'' then map_sum id (\<lambda>s. c\<lparr>DisplayName := s\<rparr>) (decode_string d (DisplayName c))
      else if n = ''icon_url_path'' then map_sum id (\<lambda>s. c\<lparr>IconURLPath := s\<rparr>) (decode_string d (IconURLPath c))
      else if n = ''claim_filters'' then map_sum id (\<lambda>s. c\<lparr>ClaimFilters := s\<rparr>) (decodeFilters d (ClaimFilters c))
      else if n = ''claim_role_mapping'' then map_sum id (\<lambda>s. c\<lparr>ClaimRoleMapping := s\<rparr>) (decodeRules d (ClaimRoleMapping c))
      else if n = ''email_verified_required'' then
        map_sum id (\<lambda>b. c\<lparr>EmailVerifiedRequired := b\<rparr>) (decode_bool d (EmailVerifiedRequired c))
      else map_sum id (\<lambda>b. c\<lparr>LinkByEmail := b\<rparr>) (decode_bool d (LinkByEmail c)))"

definition decodeConfig :: "jdoc \<Rightarrow> Config \<Rightarrow> (json_error, Config) result" where
  "decodeConfig = decode_struct configFields setConfigField"

definition encodeFilter :: "ClaimFilter \<Rightarrow> jdoc" where
  "encodeFilter f = DObject
     [(''claim_path'', DString (cf_ClaimPath f)), (''operator'', DString (cf_Operator f)),
      (''value'', of_any (cf_Value f))]"

definition encodeRule :: "RoleMappingRule \<Rightarrow> jdoc" where
  "encodeRule r = DObject
     [(''claim_path'', DString (rm_ClaimPath r)), (''operator'', DString (rm_Operator r)),
      (''value'', of_any (rm_Value r)), (''role'', DString (rm_Role r))]"

definition encodeSlice :: "('a \<Rightarrow> jdoc) \<Rightarrow> 'a slice \<Rightarrow> jdoc" where
  "encodeSlice enc s = (case s of None \<Rightarrow> DNull | Some xs \<Rightarrow> DArray (map enc xs))"

definition configMembers :: "Config \<Rightarrow> (string \<times> jdoc) list" where
  "configMembers c =
     [(''database_url'', DString (DatabaseURL c)), (''issuer_url'', DString (IssuerURL c)),
      (''client_id'', DString (ClientID c)), (''client_secret'', DString (ClientSecret c)),
      (''scopes'', DString (Scopes c)), (''display_name'', DString (DisplayName c)),
      (''icon_url_path'', DString (IconURLPath c)),
      (''claim_filters'', encodeSlice encodeFilter (ClaimFilters c)),
      (''claim_role_mapping'', encodeSlice encodeRule (ClaimRoleMapping c)),
      (''email_verified_required'', DBool (EmailVerifiedRequired c)),
      (''link_by_email'', DBool (LinkByEmail c))]"

text \<open>\<^verbatim>\<open>json.Marshal(cfg)\<close>.\<close>

definition marshalConfig :: "Config \<Rightarrow> (json_error, jdoc) result" where
  "marshalConfig c =
     (if list_all (\<lambda>f. marshalable (cf_Value f)) (elems (ClaimFilters c)) \<and>
         list_all (\<lambda>r. marshalable (rm_Value r)) (elems (ClaimRoleMapping c))
      then Ok (DObject (configMembers c)) else Err UnsupportedValue)"

subsection \<open>\<^verbatim>\<open>LoadConfig\<close>\<close>

record ConfigEntry =
  ce_key :: string
  ce_value :: "claims option"

definition loadDefaults :: Config where
  "loadDefaults = zeroConfig\<lparr>Scopes := ''openid profile email'', DisplayName := ''Sign in with OIDC'',
     IconURLPath := ''generic-key.svg'', EmailVerifiedRequired := True\<rparr>"

text \<open>\<^verbatim>\<open>m["value"]\<close>: a nil \<^verbatim>\<open>any\<close> when the key is missing.\<close>

definition entryVal :: "claims \<Rightarrow> json" where
  "entryVal m = (case fmlookup m ''value'' of None \<Rightarrow> JNull | Some v \<Rightarrow> v)"

definition loadFilters :: "json \<Rightarrow> Config \<Rightarrow> (config_error, Config) result" where
  "loadFilters v c =
     (case marshal v of
        None \<Rightarrow> Err ClaimFiltersMarshal
      | Some raw \<Rightarrow> map_sum ClaimFiltersShape (\<lambda>s. c\<lparr>ClaimFilters := s\<rparr>) (decodeFilters raw (ClaimFilters c)))"

definition loadRules :: "json \<Rightarrow> Config \<Rightarrow> (config_error, Config) result" where
  "loadRules v c =
     (case marshal v of
        None \<Rightarrow> Err RoleMappingMarshal
      | Some raw \<Rightarrow> map_sum RoleMappingShape (\<lambda>s. c\<lparr>ClaimRoleMapping := s\<rparr>) (decodeRules raw (ClaimRoleMapping c)))"

definition loadEntry :: "ConfigEntry \<Rightarrow> Config \<Rightarrow> (config_error, Config) result" where
  "loadEntry e c =
     (case ce_value e of
        None \<Rightarrow> Ok c
      | Some m \<Rightarrow>
          let v = entryVal m; s = stringOf v; k = ce_key e in
          if k = ''database_url'' then Ok (c\<lparr>DatabaseURL := s\<rparr>)
          else if k = ''issuer_url'' then Ok (c\<lparr>IssuerURL := trimSpace s\<rparr>)
          else if k = ''client_id'' then Ok (c\<lparr>ClientID := s\<rparr>)
          else if k = ''client_secret'' then Ok (c\<lparr>ClientSecret := s\<rparr>)
          else if k = ''scopes'' then Ok (if s \<noteq> [] then c\<lparr>Scopes := s\<rparr> else c)
          else if k = ''display_name'' then Ok (if s \<noteq> [] then c\<lparr>DisplayName := s\<rparr> else c)
          else if k = ''icon_url_path'' then Ok (if s \<noteq> [] then c\<lparr>IconURLPath := s\<rparr> else c)
          else if k = ''claim_filters'' then loadFilters v c
          else if k = ''claim_role_mapping'' then loadRules v c
          else if k = ''email_verified_required'' then
            Ok (case v of JBool b \<Rightarrow> c\<lparr>EmailVerifiedRequired := b\<rparr> | _ \<Rightarrow> c)
          else if k = ''link_by_email'' then
            Ok (case v of JBool b \<Rightarrow> c\<lparr>LinkByEmail := b\<rparr> | _ \<Rightarrow> c)
          else Ok c)"

definition LoadConfig :: "golib \<Rightarrow> ConfigEntry list \<Rightarrow> (config_error, Config) result" where
  "LoadConfig lib entries =
     (case fold_result loadEntry entries loadDefaults of
        Err e \<Rightarrow> Err e
      | Ok cfg \<Rightarrow> (case ValidateConfig lib cfg of Some e \<Rightarrow> Err e | None \<Rightarrow> Ok cfg))"

subsection \<open>A concrete instance of the parameters\<close>

text \<open>
  Used by witnesses only: a URL reader for \<^verbatim>\<open>http(s)://host/path\<close> forms and patterns that match
  as substrings.
\<close>

definition demo_url :: "string \<Rightarrow> url option" where
  "demo_url raw =
     (let mk = (\<lambda>sch rest. Some \<lparr>Scheme = sch, Host = takeWhile (\<lambda>c. c \<noteq> CHR ''/'') rest,
                 HasUser = CHR ''@'' \<in> set rest, RawQuery = [], Fragment = []\<rparr>)
      in if hasPrefix raw ''https://'' then mk ''https'' (drop 8 raw)
         else if hasPrefix raw ''http://'' then mk ''http'' (drop 7 raw)
         else None)"

definition demo_lib :: golib where
  "demo_lib = \<lparr>url_parse = demo_url, rx_compile = (\<lambda>p. Some (\<lambda>s. strContains s p)),
     fmt_float = (\<lambda>_. ''0'')\<rparr>"

subsection \<open>What a valid configuration is\<close>

text \<open>
  The specification the validation is measured against: conditions on the configuration with
  no order of checks, no early return and no error values.
\<close>

definition issuer_ok :: "golib \<Rightarrow> string \<Rightarrow> bool" where
  "issuer_ok lib raw \<longleftrightarrow>
     (\<exists>u. url_parse lib raw = Some u \<and> Host u \<noteq> [] \<and> \<not> HasUser u \<and> RawQuery u = [] \<and> Fragment u = [] \<and>
          (Scheme u = ''https'' \<or> Scheme u = ''http'' \<and> isLocalhost (Hostname (Host u))))"

definition path_ok :: "string \<Rightarrow> bool" where
  "path_ok path \<longleftrightarrow>
     (\<exists>segs. segs \<noteq> [] \<and> path = join (CHR ''.'') segs \<and> (\<forall>seg\<in>set segs. claimPathSegment seg))"

definition operand_ok :: "golib \<Rightarrow> string \<Rightarrow> json \<Rightarrow> bool" where
  "operand_ok lib op v \<longleftrightarrow>
     op \<in> {''equals'', ''contains''} \<or>
     op = ''starts_with'' \<and> (\<exists>s. v = JString s) \<or>
     op = ''regex'' \<and> (\<exists>s. v = JString s \<and> rx_compile lib s \<noteq> None)"

definition filter_ok :: "golib \<Rightarrow> ClaimFilter \<Rightarrow> bool" where
  "filter_ok lib f \<longleftrightarrow> path_ok (cf_ClaimPath f) \<and> operand_ok lib (cf_Operator f) (cf_Value f)"

definition rule_ok :: "golib \<Rightarrow> RoleMappingRule \<Rightarrow> bool" where
  "rule_ok lib r \<longleftrightarrow> path_ok (rm_ClaimPath r) \<and> operand_ok lib (rm_Operator r) (rm_Value r) \<and>
     rm_Role r \<in> {''user'', ''admin''}"

definition config_ok :: "golib \<Rightarrow> Config \<Rightarrow> bool" where
  "config_ok lib c \<longleftrightarrow>
     (IssuerURL c = [] \<and> ClientID c = [] \<and> ClientSecret c = [] \<or>
      issuer_ok lib (IssuerURL c) \<and> IssuerURL c \<noteq> [] \<and> ClientID c \<noteq> [] \<and> ClientSecret c \<noteq> []) \<and>
     ''openid'' \<in> set (strFields (Scopes c)) \<and>
     (LinkByEmail c \<longrightarrow> EmailVerifiedRequired c) \<and>
     IconAllowed lib (IconURLPath c) \<and>
     (\<forall>f\<in>set (elems (ClaimFilters c)). filter_ok lib f) \<and>
     (\<forall>r\<in>set (elems (ClaimRoleMapping c)). rule_ok lib r)"

subsection \<open>The checks meet the specification\<close>

lemma validateIssuerURL_iff: "validateIssuerURL lib raw = None \<longleftrightarrow> issuer_ok lib raw"
  by (auto simp: validateIssuerURL_def issuer_ok_def first_error_None_iff split: option.splits)

lemma claimPathSegment_chars:
  assumes "claimPathSegment seg" and "c \<in> set seg"
  shows "asciiLetter c \<or> digit c \<noteq> None \<or> c = CHR ''_'' \<or> c = CHR ''-''"
  using assms by (cases seg) (auto simp: list_all_iff)

lemma claimPathSegment_no_dot: "claimPathSegment seg \<Longrightarrow> CHR ''.'' \<notin> set seg"
  by (auto dest: claimPathSegment_chars simp: asciiLetter_def digit_def split: if_splits)

lemma claimPathSegment_nonempty: "claimPathSegment seg \<Longrightarrow> seg \<noteq> []"
  by auto

lemma path_ok_iff_split: "path_ok path \<longleftrightarrow> (\<forall>seg\<in>set (split (CHR ''.'') path). claimPathSegment seg)"
proof
  assume "path_ok path"
  then obtain segs where "segs \<noteq> []" "path = join (CHR ''.'') segs" "\<forall>seg\<in>set segs. claimPathSegment seg"
    by (auto simp: path_ok_def)
  then show "\<forall>seg\<in>set (split (CHR ''.'') path). claimPathSegment seg"
    by (simp add: split_join claimPathSegment_no_dot)
next
  assume "\<forall>seg\<in>set (split (CHR ''.'') path). claimPathSegment seg"
  then show "path_ok path"
    unfolding path_ok_def by (intro exI [of _ "split (CHR ''.'') path"]) (simp add: join_split)
qed

lemma ValidateClaimPath_iff: "ValidateClaimPath path = None \<longleftrightarrow> path_ok path"
  by (cases "path = []")
    (auto simp: ValidateClaimPath_def path_ok_iff_split first_error_map_None_iff simp del: set_map
      dest: claimPathSegment_nonempty split: if_splits)

lemma path_ok_nonempty: "path_ok path \<Longrightarrow> path \<noteq> []"
  by (auto simp: path_ok_iff_split)

lemma operator_checks_iff:
  "ValidateOperator op = None \<and> ValidateOperatorValue op v = None \<and> regexCheck lib op v = None
   \<longleftrightarrow> operand_ok lib op v"
  by (auto simp: ValidateOperator_def ValidateOperatorValue_def regexCheck_def operand_ok_def
      stringOf_def split: json.splits if_splits)

text \<open>
  The contract of a per-rule check, and what the indexed loop over it then guarantees. Both
  rule lists of the configuration interpret it.
\<close>

locale rule_check =
  fixes chk :: "'r \<Rightarrow> rule_error check"
    and ok :: "'r \<Rightarrow> bool"
  assumes chk_iff: "chk r = None \<longleftrightarrow> ok r"
begin

lemma validateEach_None_iff: "validateEach chk i rs = None \<longleftrightarrow> (\<forall>r\<in>set rs. ok r)"
  by (induction rs arbitrary: i) (auto simp: chk_iff [symmetric] split: option.splits)

lemma validateEach_Some:
  assumes "validateEach chk i rs = Some (j, e)"
  shows "\<exists>k < length rs. j = i + k \<and> chk (rs ! k) = Some e \<and> (\<forall>r\<in>set (take k rs). ok r)"
  using assms
proof (induction rs arbitrary: i)
  case Nil
  then show ?case by simp
next
  case (Cons r rs)
  show ?case
  proof (cases "chk r")
    case None
    with Cons obtain k where "k < length rs" "j = Suc i + k" "chk (rs ! k) = Some e"
      "\<forall>r\<in>set (take k rs). ok r"
      by fastforce
    with None show ?thesis by (intro exI [of _ "Suc k"]) (auto simp: chk_iff [symmetric])
  next
    case (Some e')
    with Cons.prems show ?thesis by (intro exI [of _ 0]) auto
  qed
qed

end

interpretation filters: rule_check "validateFilter lib" "filter_ok lib" for lib
proof
  show "validateFilter lib f = None \<longleftrightarrow> filter_ok lib f" for f
    using operator_checks_iff [of "cf_Operator f" "cf_Value f" lib]
    by (auto simp: validateFilter_def filter_ok_def first_error_None_iff ValidateClaimPath_iff
        dest: path_ok_nonempty)
qed

interpretation rules: rule_check "validateRule lib" "rule_ok lib" for lib
proof
  show "validateRule lib r = None \<longleftrightarrow> rule_ok lib r" for r
    using operator_checks_iff [of "rm_Operator r" "rm_Value r" lib]
    by (auto simp: validateRule_def rule_ok_def first_error_None_iff ValidateClaimPath_iff
        dest: path_ok_nonempty)
qed

lemma ValidateConfig_None_iff: "ValidateConfig lib c = None \<longleftrightarrow> config_ok lib c"
  by (auto simp: ValidateConfig_def config_ok_def first_error_None_iff providerPartiallyConfigured_def
      validateIssuerURL_iff scopeIncludesOpenID_def list_ex_iff
      filters.validateEach_None_iff rules.validateEach_None_iff)

subsection \<open>The JSON codec of the records\<close>

lemma filterFields_exact: "list_all (\<lambda>k. field_of filterFields k = Some k) filterFields"
  by code_simp

lemma ruleFields_exact: "list_all (\<lambda>k. field_of ruleFields k = Some k) ruleFields"
  by code_simp

lemma configFields_exact: "list_all (\<lambda>k. field_of configFields k = Some k) configFields"
  by code_simp

interpretation filter_codec: json_codec encodeFilter decodeFilter zeroFilter
proof
  show "decodeFilter (encodeFilter f) y = Ok f" for f y
    using filterFields_exact
    by (simp add: filterFields_def decodeFilter_def encodeFilter_def setFilterField_def to_any_of_any)
qed

interpretation rule_codec: json_codec encodeRule decodeRule zeroRule
proof
  show "decodeRule (encodeRule r) y = Ok r" for r y
    using ruleFields_exact
    by (simp add: ruleFields_def decodeRule_def encodeRule_def setRuleField_def to_any_of_any)
qed

lemma decodeFilters_encode: "decodeFilters (encodeSlice encodeFilter s) cur = Ok s"
  unfolding decodeFilters_def encodeSlice_def by (rule filter_codec.decode_slice_enc)

lemma decodeRules_encode: "decodeRules (encodeSlice encodeRule s) cur = Ok s"
  unfolding decodeRules_def encodeSlice_def by (rule rule_codec.decode_slice_enc)

text \<open>
  \<open>agrees K c x\<close>: \<open>x\<close> has the values of \<open>c\<close> in the fields whose JSON names are in \<open>K\<close>. Every
  member of an encoding adds its own name to \<open>K\<close>, whatever the order.
\<close>

definition field_eq :: "string \<Rightarrow> Config \<Rightarrow> Config \<Rightarrow> bool" where
  "field_eq k c x =
     (if k = ''database_url'' then DatabaseURL x = DatabaseURL c
      else if k = ''issuer_url'' then IssuerURL x = IssuerURL c
      else if k = ''client_id'' then ClientID x = ClientID c
      else if k = ''client_secret'' then ClientSecret x = ClientSecret c
      else if k = ''scopes'' then Scopes x = Scopes c
      else if k = ''display_name'' then DisplayName x = DisplayName c
      else if k = ''icon_url_path'' then IconURLPath x = IconURLPath c
      else if k = ''claim_filters'' then ClaimFilters x = ClaimFilters c
      else if k = ''claim_role_mapping'' then ClaimRoleMapping x = ClaimRoleMapping c
      else if k = ''email_verified_required'' then EmailVerifiedRequired x = EmailVerifiedRequired c
      else if k = ''link_by_email'' then LinkByEmail x = LinkByEmail c
      else True)"

definition agrees :: "string set \<Rightarrow> Config \<Rightarrow> Config \<Rightarrow> bool" where
  "agrees K c x \<longleftrightarrow> (\<forall>k\<in>K. field_eq k c x)"

lemma setConfigField_member:
  assumes "(k, d) \<in> set (configMembers c)"
  shows "\<exists>x'. setConfigField k d x = Ok x' \<and> field_eq k c x' \<and>
    (\<forall>k'. field_eq k' c x \<longrightarrow> field_eq k' c x')"
  using assms unfolding configMembers_def list.set insert_iff empty_iff prod.inject simp_thms
  by (elim disjE conjE)
    (simp_all add: setConfigField_def decodeFilters_encode decodeRules_encode field_eq_def)

lemma configMembers_keys: "map fst (configMembers c) = configFields"
  by (simp add: configMembers_def configFields_def)

lemma decodeConfig_members:
  assumes "set ms \<subseteq> set (configMembers c)" and "agrees K c x"
  shows "\<exists>x'. decodeConfig (DObject ms) x = Ok x' \<and> agrees (K \<union> fst ` set ms) c x'"
  using assms
proof (induction ms arbitrary: K x)
  case Nil
  then show ?case by (simp add: decodeConfig_def)
next
  case (Cons m ms)
  obtain k d where m: "m = (k, d)" by force
  with Cons.prems have kd: "(k, d) \<in> set (configMembers c)" by simp
  then have "k \<in> set configFields"
    by (metis configMembers_keys fst_conv image_eqI list.set_map)
  then have key: "field_of configFields k = Some k"
    using configFields_exact by (simp add: list_all_iff)
  obtain x1 where "setConfigField k d x = Ok x1" and "agrees (insert k K) c x1"
    using setConfigField_member [OF kd, of x] Cons.prems(2) unfolding agrees_def by blast
  then show ?case
    using Cons.IH [of "insert k K" x1] Cons.prems(1) m key by (simp add: decodeConfig_def)
qed

lemma agrees_all:
  assumes "set configFields \<subseteq> K" and "agrees K c x"
  shows "x = c"
proof -
  from assms have "\<forall>k\<in>set configFields. field_eq k c x" by (auto simp: agrees_def)
  then show ?thesis
    by (intro Config.equality) (simp_all add: configFields_def field_eq_def)
qed

lemma decodeConfig_marshal:
  assumes "marshalConfig c = Ok (DObject ms)" and "set ms' = set ms"
  shows "decodeConfig (DObject ms') base = Ok c"
proof -
  from assms(1) have ms: "ms = configMembers c"
    by (auto simp: marshalConfig_def split: if_splits)
  then obtain x where x: "decodeConfig (DObject ms') base = Ok x" "agrees (fst ` set ms') c x"
    using decodeConfig_members [of ms' c "{}" base] assms(2) by (auto simp: agrees_def)
  have "fst ` set ms' = set configFields"
    using assms(2) ms configMembers_keys by (metis list.set_map)
  with x show ?thesis using agrees_all by blast
qed

subsection \<open>Properties\<close>

text \<open>
  C15: validation is exact. \<^const>\<open>ValidateConfig\<close> returns no error precisely for the configurations
  that meet the specification: provider settings are all absent or complete with an acceptable
  issuer URL, the scopes contain \<^verbatim>\<open>openid\<close>, linking by e-mail implies mandatory verified e-mail,
  the icon is allowed, and every claim filter and role rule has a well-formed path, a known
  operator with an operand that operator accepts, and (for rules) the role user or admin.
\<close>

theorem ValidateConfig_exact: "ValidateConfig lib c = None \<longleftrightarrow> config_ok lib c"
  by (rule ValidateConfig_None_iff)

text \<open>
  The reported index is the first bad rule. When \<^const>\<open>ValidateConfig\<close> rejects a configuration
  because of filter \<open>i\<close>, that filter fails with the reported error, every filter before it is
  well formed, and everything validated before the filters was in order.
\<close>

lemma ValidateConfig_first_bad_filter:
  assumes "ValidateConfig lib c = Some (FilterInvalid i e)"
  shows "i < length (elems (ClaimFilters c)) \<and> validateFilter lib (elems (ClaimFilters c) ! i) = Some e \<and>
    (\<forall>f\<in>set (take i (elems (ClaimFilters c))). filter_ok lib f) \<and>
    config_ok lib (c\<lparr>ClaimFilters := None, ClaimRoleMapping := None\<rparr>)"
proof -
  let ?fs = "elems (ClaimFilters c)"
  have each: "validateEach (validateFilter lib) 0 ?fs = Some (i, e)"
    using assms unfolding ValidateConfig_def
    by (auto simp: first_error_Cons_Some split: if_splits)
  have rest: "config_ok lib (c\<lparr>ClaimFilters := None, ClaimRoleMapping := None\<rparr>)"
    using assms unfolding ValidateConfig_def config_ok_def
    by (auto simp: first_error_Cons_Some first_error_None_iff validateIssuerURL_iff [symmetric]
        providerPartiallyConfigured_def scopeIncludesOpenID_def list_ex_iff split: if_splits)
  show ?thesis
    using filters.validateEach_Some [OF each] rest by auto
qed

text \<open>
  Claim paths. A path is accepted precisely when it is a dot-joined, non-empty sequence of
  identifiers of the shape \<^verbatim>\<open>[A-Za-z_][A-Za-z0-9_-]*\<close>; splitting an accepted path and joining the
  parts gives it back.
\<close>

theorem ValidateClaimPath_exact:
  "ValidateClaimPath path = None \<longleftrightarrow>
     (\<exists>segs. segs \<noteq> [] \<and> path = join (CHR ''.'') segs \<and> split (CHR ''.'') path = segs \<and>
       (\<forall>seg\<in>set segs. claimPathSegment seg))"
proof -
  have "split (CHR ''.'') (join (CHR ''.'') segs) = segs"
    if "segs \<noteq> []" and "\<forall>seg\<in>set segs. claimPathSegment seg" for segs
    using that by (simp add: split_join claimPathSegment_no_dot)
  then show ?thesis
    unfolding ValidateClaimPath_iff path_ok_def by blast
qed

theorem ValidateClaimPath_exact_witness:
  "\<exists>segs. ''realm_access.roles'' = join (CHR ''.'') segs \<and> segs \<noteq> [] \<and> list_all claimPathSegment segs"
proof -
  have "ValidateClaimPath ''realm_access.roles'' = None" by code_simp
  from ValidateClaimPath_exact [THEN iffD1, OF this] show ?thesis unfolding list_all_iff by blast
qed

text \<open>
  Persisted settings survive. What \<^verbatim>\<open>json.Marshal\<close> produces for a configuration decodes, over any
  base configuration and with the members in any order (Postgres \<^verbatim>\<open>jsonb\<close> reorders them), to the
  same configuration, including the difference between a nil and an empty rule list.
\<close>

theorem config_json_roundtrip:
  assumes "marshalConfig c = Ok (DObject ms)" and "set ms' = set ms"
  shows "decodeConfig (DObject ms') base = Ok c"
  using assms by (rule decodeConfig_marshal)

text \<open>A concrete provider configuration with one filter and one role rule.\<close>

definition demo_config :: Config where
  "demo_config = loadDefaults\<lparr>IssuerURL := ''https://idp.example/o/app/'', ClientID := ''silo'',
     ClientSecret := ''s3cret'',
     ClaimFilters := Some [\<lparr>cf_ClaimPath = ''groups'', cf_Operator = ''contains'', cf_Value = JString ''staff''\<rparr>],
     ClaimRoleMapping := Some [\<lparr>rm_ClaimPath = ''groups'', rm_Operator = ''contains'',
        rm_Value = JString ''admins'', rm_Role = ''admin''\<rparr>]\<rparr>"

lemma demo_config_valid: "ValidateConfig demo_lib demo_config = None"
  by code_simp

theorem config_json_roundtrip_witness:
  "\<exists>ms. marshalConfig demo_config = Ok (DObject ms) \<and>
     decodeConfig (DObject (rev ms)) zeroConfig = Ok demo_config"
proof -
  have h: "marshalConfig demo_config = Ok (DObject (configMembers demo_config))"
    by (simp add: marshalConfig_def demo_config_def)
  from config_json_roundtrip [OF h, of "rev (configMembers demo_config)" zeroConfig] h
  show ?thesis by auto
qed

subsection \<open>The loader\<close>

lemmas loadEntry_unfold = loadEntry_def loadFilters_def loadRules_def Let_def

lemma loadEntry_frame:
  assumes "loadEntry e c = Ok c'"
  shows "ce_key e \<noteq> ''email_verified_required'' \<Longrightarrow> EmailVerifiedRequired c' = EmailVerifiedRequired c"
    and "ce_key e \<noteq> ''link_by_email'' \<Longrightarrow> LinkByEmail c' = LinkByEmail c"
  using assms
  by (auto simp: loadEntry_unfold map_sum_def split: option.splits if_splits sum.splits json.splits)

lemma LoadConfig_Ok_iff:
  "LoadConfig lib es = Ok c \<longleftrightarrow> fold_result loadEntry es loadDefaults = Ok c \<and> config_ok lib c"
  by (auto simp: LoadConfig_def ValidateConfig_None_iff [symmetric] split: sum.splits option.splits)

text \<open>
  What the host configures is valid and secure by default. A configuration that
  \<^const>\<open>LoadConfig\<close> returns meets the specification; without an explicit entry, verified e-mail is
  mandatory and linking by e-mail is off.
\<close>

theorem LoadConfig_secure:
  assumes "LoadConfig lib es = Ok c"
  shows "config_ok lib c \<and>
    ((\<forall>e\<in>set es. ce_key e \<noteq> ''email_verified_required'') \<longrightarrow> EmailVerifiedRequired c) \<and>
    ((\<forall>e\<in>set es. ce_key e \<noteq> ''link_by_email'') \<longrightarrow> \<not> LinkByEmail c)"
proof -
  from assms have run: "fold_result loadEntry es loadDefaults = Ok c" and ok: "config_ok lib c"
    by (simp_all add: LoadConfig_Ok_iff)
  have "(\<forall>e\<in>set es. ce_key e \<noteq> ''email_verified_required'') \<longrightarrow> EmailVerifiedRequired c"
    using fold_result_invariant [OF run, of EmailVerifiedRequired] loadEntry_frame(1)
    by (auto simp: loadDefaults_def)
  moreover have "(\<forall>e\<in>set es. ce_key e \<noteq> ''link_by_email'') \<longrightarrow> \<not> LinkByEmail c"
    using fold_result_invariant [OF run, of "\<lambda>c. \<not> LinkByEmail c"] loadEntry_frame(2)
    by (auto simp: loadDefaults_def zeroConfig_def)
  ultimately show ?thesis using ok by blast
qed

text \<open>
  The issuer is kept verbatim. The last \<^verbatim>\<open>issuer_url\<close> entry decides the issuer; only
  surrounding white space is removed, a trailing slash stays.
\<close>

theorem LoadConfig_issuer_verbatim:
  assumes "LoadConfig lib (es @ [\<lparr>ce_key = ''issuer_url'', ce_value = Some m\<rparr>]) = Ok c"
    and "fmlookup m ''value'' = Some (JString s)"
  shows "IssuerURL c = trimSpace s"
  using assms
  by (auto simp: LoadConfig_Ok_iff fold_result_append loadEntry_def entryVal_def stringOf_def Let_def
      split: sum.splits)

definition demo_entries :: "ConfigEntry list" where
  "demo_entries =
     [\<lparr>ce_key = ''client_id'', ce_value = Some (fmap_of_list [(''value'', JString ''silo'')])\<rparr>,
      \<lparr>ce_key = ''client_secret'', ce_value = Some (fmap_of_list [(''value'', JString ''s3cret'')])\<rparr>]"

definition demo_issuer_value :: claims where
  "demo_issuer_value = fmap_of_list [(''value'', JString '' https://idp.example/o/app/ '')]"

lemma demo_load:
  "LoadConfig demo_lib (demo_entries @ [\<lparr>ce_key = ''issuer_url'', ce_value = Some demo_issuer_value\<rparr>]) =
   Ok (demo_config\<lparr>ClaimFilters := None, ClaimRoleMapping := None\<rparr>)"
  by code_simp

theorem LoadConfig_secure_witness:
  "config_ok demo_lib (demo_config\<lparr>ClaimFilters := None, ClaimRoleMapping := None\<rparr>) \<and>
   EmailVerifiedRequired demo_config"
  using LoadConfig_secure [OF demo_load] by (auto simp: demo_entries_def)

theorem LoadConfig_issuer_verbatim_witness:
  "IssuerURL (demo_config\<lparr>ClaimFilters := None, ClaimRoleMapping := None\<rparr>) =
     trimSpace '' https://idp.example/o/app/ '' \<and>
   trimSpace '' https://idp.example/o/app/ '' = ''https://idp.example/o/app/''"
proof -
  have v: "fmlookup demo_issuer_value ''value'' = Some (JString '' https://idp.example/o/app/ '')"
    by code_simp
  have t: "trimSpace '' https://idp.example/o/app/ '' = ''https://idp.example/o/app/''"
    by code_simp
  from LoadConfig_issuer_verbatim [OF demo_load v] t show ?thesis by simp
qed

end
