(* ===== verification/Claims.thy ===== *)
theory Claims
  imports Runtime_Config
begin

text \<open>
  \<^verbatim>\<open>internal/claims\<close>: path resolution (\<^verbatim>\<open>path.go\<close>), the four operators (\<^verbatim>\<open>operator.go\<close>), filter and
  role evaluation with their traced variants (\<^verbatim>\<open>eval.go\<close>), and the identity derived from a claim
  set (\<^verbatim>\<open>identity.go\<close>).
\<close>

subsection \<open>path.go\<close>

fun walk :: "json \<Rightarrow> string list \<Rightarrow> json option" where
  "walk cur [] = Some cur"
| "walk cur (p # parts) =
     (case cur of
        JObject obj \<Rightarrow> (case fmlookup obj p of None \<Rightarrow> None | Some v \<Rightarrow> walk v parts)
      | _ \<Rightarrow> None)"

definition ResolvePath :: "claims \<Rightarrow> string \<Rightarrow> json option" where
  "ResolvePath m path = (if path = [] then None else walk (JObject m) (split (CHR ''.'') path))"

subsection \<open>operator.go\<close>

definition equals :: "json \<Rightarrow> json \<Rightarrow> bool" where
  "equals a b =
     (case a of JArray _ \<Rightarrow> False | _ \<Rightarrow> (case b of JArray _ \<Rightarrow> False | _ \<Rightarrow> deepEqual a b))"

definition contains :: "json \<Rightarrow> json \<Rightarrow> bool" where
  "contains claim v =
     (case claim of
        JArray es \<Rightarrow> list_ex (\<lambda>e. deepEqual e v) es
      | JString c \<Rightarrow> (case v of JString s \<Rightarrow> strContains c s | _ \<Rightarrow> False)
      | _ \<Rightarrow> False)"

definition startsWith :: "json \<Rightarrow> json \<Rightarrow> bool" where
  "startsWith claim v =
     (case claim of JString c \<Rightarrow> (case v of JString p \<Rightarrow> hasPrefix c p | _ \<Rightarrow> False) | _ \<Rightarrow> False)"

definition regexMatch :: "golib \<Rightarrow> json \<Rightarrow> json \<Rightarrow> bool" where
  "regexMatch lib claim v =
     (case v of
        JString pattern \<Rightarrow>
          (case rx_compile lib pattern of
             None \<Rightarrow> False
           | Some rx \<Rightarrow>
               (case claim of
                  JString s \<Rightarrow> rx s
                | JArray es \<Rightarrow> list_ex (\<lambda>e. case e of JString s \<Rightarrow> rx s | _ \<Rightarrow> False) es
                | _ \<Rightarrow> rx (sprint (fmt_float lib) claim)))
      | _ \<Rightarrow> False)"

definition Eval :: "golib \<Rightarrow> string \<Rightarrow> json \<Rightarrow> json \<Rightarrow> bool" where
  "Eval lib operator claimValue ruleValue =
     (if operator = ''equals'' then equals claimValue ruleValue
      else if operator = ''contains'' then contains claimValue ruleValue
      else if operator = ''starts_with'' then startsWith claimValue ruleValue
      else if operator = ''regex'' then regexMatch lib claimValue ruleValue
      else False)"

subsection \<open>eval.go\<close>

datatype filter_error = ErrFilterRejected

fun EvaluateFilters :: "golib \<Rightarrow> claims \<Rightarrow> ClaimFilter list \<Rightarrow> filter_error check" where
  "EvaluateFilters lib c [] = None"
| "EvaluateFilters lib c (f # fs) =
     (case ResolvePath c (cf_ClaimPath f) of
        None \<Rightarrow> Some ErrFilterRejected
      | Some v \<Rightarrow>
          if \<not> Eval lib (cf_Operator f) v (cf_Value f) then Some ErrFilterRejected
          else EvaluateFilters lib c fs)"

record FilterTrace =
  ft_Index :: nat
  ft_ClaimPath :: string
  ft_Operator :: string
  ft_Value :: json
  ft_ClaimValue :: json
  ft_ClaimFound :: bool
  ft_Match :: bool

definition traceFilter :: "golib \<Rightarrow> claims \<Rightarrow> nat \<Rightarrow> ClaimFilter \<Rightarrow> FilterTrace" where
  "traceFilter lib c i f =
     (let r = ResolvePath c (cf_ClaimPath f);
          v = (case r of None \<Rightarrow> JNull | Some v \<Rightarrow> v);
          found = (r \<noteq> None)
      in \<lparr>ft_Index = i, ft_ClaimPath = cf_ClaimPath f, ft_Operator = cf_Operator f,
          ft_Value = cf_Value f, ft_ClaimValue = v, ft_ClaimFound = found,
          ft_Match = (found \<and> Eval lib (cf_Operator f) v (cf_Value f))\<rparr>)"

text \<open>The loop carries \<open>out\<close> and \<open>allPass\<close>; \<open>i\<close> is the range index.\<close>

fun traceLoop ::
  "golib \<Rightarrow> claims \<Rightarrow> nat \<Rightarrow> ClaimFilter list \<Rightarrow> FilterTrace list \<Rightarrow> bool \<Rightarrow> FilterTrace list \<times> bool" where
  "traceLoop lib c i [] out allPass = (out, allPass)"
| "traceLoop lib c i (f # fs) out allPass =
     (let t = traceFilter lib c i f
      in traceLoop lib c (Suc i) fs (out @ [t]) (if \<not> ft_Match t then False else allPass))"

definition TraceFilters :: "golib \<Rightarrow> claims \<Rightarrow> ClaimFilter list \<Rightarrow> FilterTrace list \<times> bool" where
  "TraceFilters lib c fs = traceLoop lib c 0 fs [] True"

fun traceRoleFrom :: "golib \<Rightarrow> claims \<Rightarrow> int \<Rightarrow> RoleMappingRule list \<Rightarrow> string \<times> int" where
  "traceRoleFrom lib c i [] = (''user'', -1)"
| "traceRoleFrom lib c i (r # rs) =
     (case ResolvePath c (rm_ClaimPath r) of
        None \<Rightarrow> traceRoleFrom lib c (i + 1) rs
      | Some v \<Rightarrow>
          if Eval lib (rm_Operator r) v (rm_Value r) then (rm_Role r, i)
          else traceRoleFrom lib c (i + 1) rs)"

definition TraceRole :: "golib \<Rightarrow> claims \<Rightarrow> RoleMappingRule list \<Rightarrow> string \<times> int" where
  "TraceRole lib c rules = traceRoleFrom lib c 0 rules"

definition ResolveRole :: "golib \<Rightarrow> claims \<Rightarrow> RoleMappingRule list \<Rightarrow> string" where
  "ResolveRole lib c rules = fst (TraceRole lib c rules)"

subsection \<open>identity.go\<close>

record Identity =
  Subject :: string
  Email :: string
  id_DisplayName :: string

definition DeriveIdentity :: "claims \<Rightarrow> Identity" where
  "DeriveIdentity c =
     (let sub = string_at c ''sub''; email = string_at c ''email''; name = string_at c ''name'';
          first = string_at c ''given_name''; last = string_at c ''family_name'';
          name' =
            (if name = [] then
               if first \<noteq> [] \<and> last \<noteq> [] then first @ '' '' @ last
               else if first \<noteq> [] then first
               else if last \<noteq> [] then last
               else email
             else name)
      in \<lparr>Subject = sub, Email = email, id_DisplayName = name'\<rparr>)"

definition EmailVerified :: "claims \<Rightarrow> bool \<times> bool" where
  "EmailVerified c =
     (case fmlookup c ''email_verified'' of
        None \<Rightarrow> (False, False)
      | Some (JBool b) \<Rightarrow> (b, True)
      | Some _ \<Rightarrow> (False, True))"

subsection \<open>Matching\<close>

text \<open>
  The contract shared by the two kinds of rule: a rule hits a claim set when its path resolves
  and its operator holds of the value found there.
\<close>

locale rule_match =
  fixes hit :: "golib \<Rightarrow> claims \<Rightarrow> 'r \<Rightarrow> bool"
    and path :: "'r \<Rightarrow> string"
    and op :: "'r \<Rightarrow> string"
    and operand :: "'r \<Rightarrow> json"
  assumes hit_iff:
    "hit lib c r \<longleftrightarrow> (\<exists>v. ResolvePath c (path r) = Some v \<and> Eval lib (op r) v (operand r))"
begin

lemma hit_frame:
  assumes "hd (split (CHR ''.'') (path r)) \<noteq> k"
  shows "hit lib (fmupd k v c) r \<longleftrightarrow> hit lib c r"
proof -
  have "ResolvePath (fmupd k v c) (path r) = ResolvePath c (path r)"
    using assms by (cases "split (CHR ''.'') (path r)") (auto simp: ResolvePath_def)
  then show ?thesis by (simp add: hit_iff)
qed

lemma hit_missing: "ResolvePath c (path r) = None \<Longrightarrow> \<not> hit lib c r"
  by (simp add: hit_iff)

lemma hit_known_operator: "hit lib c r \<Longrightarrow> op r \<in> {''equals'', ''contains'', ''starts_with'', ''regex''}"
  by (auto simp: hit_iff Eval_def split: if_splits)

end

definition filter_hit :: "golib \<Rightarrow> claims \<Rightarrow> ClaimFilter \<Rightarrow> bool" where
  "filter_hit lib c f =
     (case ResolvePath c (cf_ClaimPath f) of None \<Rightarrow> False | Some v \<Rightarrow> Eval lib (cf_Operator f) v (cf_Value f))"

definition rule_hit :: "golib \<Rightarrow> claims \<Rightarrow> RoleMappingRule \<Rightarrow> bool" where
  "rule_hit lib c r =
     (case ResolvePath c (rm_ClaimPath r) of None \<Rightarrow> False | Some v \<Rightarrow> Eval lib (rm_Operator r) v (rm_Value r))"

interpretation fmatch: rule_match filter_hit cf_ClaimPath cf_Operator cf_Value
  by unfold_locales (auto simp: filter_hit_def split: option.splits)

interpretation rmatch: rule_match rule_hit rm_ClaimPath rm_Operator rm_Value
  by unfold_locales (auto simp: rule_hit_def split: option.splits)

lemma EvaluateFilters_None_iff: "EvaluateFilters lib c fs = None \<longleftrightarrow> (\<forall>f\<in>set fs. filter_hit lib c f)"
  by (induction fs) (auto simp: filter_hit_def split: option.splits)

lemma traceFilter_simps [simp]:
  "ft_Index (traceFilter lib c i f) = i"
  "ft_ClaimPath (traceFilter lib c i f) = cf_ClaimPath f"
  "ft_ClaimFound (traceFilter lib c i f) \<longleftrightarrow> ResolvePath c (cf_ClaimPath f) \<noteq> None"
  by (simp_all add: traceFilter_def Let_def)

lemma traceFilter_match: "ft_Match (traceFilter lib c i f) \<longleftrightarrow> filter_hit lib c f"
  by (auto simp: traceFilter_def filter_hit_def Let_def split: option.splits)

lemma traceLoop_eq:
  "traceLoop lib c i fs out ok =
     (out @ map (\<lambda>(j, f). traceFilter lib c j f) (enumerate i fs), ok \<and> (\<forall>f\<in>set fs. filter_hit lib c f))"
  by (induction fs arbitrary: i out ok) (auto simp: Let_def traceFilter_match)

lemma TraceFilters_eq:
  "TraceFilters lib c fs =
     (map (\<lambda>(j, f). traceFilter lib c j f) (enumerate 0 fs), \<forall>f\<in>set fs. filter_hit lib c f)"
  by (simp add: TraceFilters_def traceLoop_eq)

lemma traceRoleFrom_none:
  "(\<forall>r\<in>set rs. \<not> rule_hit lib c r) \<Longrightarrow> traceRoleFrom lib c i rs = (''user'', -1)"
  by (induction rs arbitrary: i) (auto simp: rule_hit_def split: option.splits)

lemma traceRoleFrom_first:
  assumes "k < length rs" and "rule_hit lib c (rs ! k)" and "\<forall>r\<in>set (take k rs). \<not> rule_hit lib c r"
  shows "traceRoleFrom lib c i rs = (rm_Role (rs ! k), i + int k)"
  using assms
proof (induction rs arbitrary: i k)
  case Nil
  then show ?case by simp
next
  case (Cons r rs)
  show ?case
  proof (cases k)
    case 0
    with Cons.prems show ?thesis by (auto simp: rule_hit_def split: option.splits)
  next
    case (Suc j)
    with Cons.prems have "\<not> rule_hit lib c r" by simp
    then have "traceRoleFrom lib c i (r # rs) = traceRoleFrom lib c (i + 1) rs"
      by (auto simp: rule_hit_def split: option.splits)
    with Suc Cons show ?thesis by simp
  qed
qed

lemma least_hit:
  assumes "\<exists>x\<in>set xs. P x"
  obtains k where "k < length xs" "P (xs ! k)" "\<forall>x\<in>set (take k xs). \<not> P x"
proof -
  from split_list_first_prop [OF assms] obtain ys x zs
    where "xs = ys @ x # zs" "P x" "\<forall>y\<in>set ys. \<not> P y" by blast
  then show ?thesis using that [of "length ys"] by simp
qed

lemma nth_in_take: "a < b \<Longrightarrow> a < length xs \<Longrightarrow> xs ! a \<in> set (take b xs)"
  by (auto simp: in_set_conv_nth intro!: exI [of _ a])

lemma least_hit_unique:
  assumes "k < length xs" "P (xs ! k)" "\<forall>x\<in>set (take k xs). \<not> P x"
    and "k' < length xs" "P (xs ! k')" "\<forall>x\<in>set (take k' xs). \<not> P x"
  shows "k' = k"
  using assms nth_in_take [of k k' xs] nth_in_take [of k' k xs] by (cases k k' rule: linorder_cases) auto

lemma equals_iff: "equals a b \<longleftrightarrow> (\<forall>es. a \<noteq> JArray es) \<and> (\<forall>es. b \<noteq> JArray es) \<and> deepEqual a b"
  by (cases a; cases b) (simp_all add: equals_def del: deepEqual.simps)

lemma ResolveRole_cases: "ResolveRole lib c rs = ''user'' \<or> (\<exists>r\<in>set rs. rule_hit lib c r \<and> ResolveRole lib c rs = rm_Role r)"
proof (cases "\<exists>r\<in>set rs. rule_hit lib c r")
  case True
  then obtain k where "k < length rs" "rule_hit lib c (rs ! k)" "\<forall>r\<in>set (take k rs). \<not> rule_hit lib c r"
    by (rule least_hit)
  then show ?thesis
    using traceRoleFrom_first [of k rs lib c 0] by (auto simp: ResolveRole_def TraceRole_def)
next
  case False
  then show ?thesis by (simp add: ResolveRole_def TraceRole_def traceRoleFrom_none)
qed

lemma ResolveRole_valid:
  assumes "config_ok lib cfg"
  shows "ResolveRole lib c (elems (ClaimRoleMapping cfg)) \<in> {''user'', ''admin''}"
proof -
  from assms have "\<forall>r\<in>set (elems (ClaimRoleMapping cfg)). rm_Role r \<in> {''user'', ''admin''}"
    by (simp add: config_ok_def rule_ok_def)
  then show ?thesis
    using ResolveRole_cases [of lib c "elems (ClaimRoleMapping cfg)"] by fastforce
qed

lemma walk_append: "walk v (ps @ qs) = Option.bind (walk v ps) (\<lambda>w. walk w qs)"
  by (induction v ps rule: walk.induct) (auto split: json.splits option.splits)

lemma ResolvePath_join:
  assumes "segs \<noteq> []" and "\<forall>seg\<in>set segs. claimPathSegment seg"
  shows "ResolvePath c (join (CHR ''.'') segs) = walk (JObject c) segs"
proof -
  have "split (CHR ''.'') (join (CHR ''.'') segs) = segs"
    using assms by (simp add: split_join claimPathSegment_no_dot)
  moreover have "path_ok (join (CHR ''.'') segs)"
    using assms by (auto simp: path_ok_def)
  ultimately show ?thesis
    using path_ok_nonempty by (simp add: ResolvePath_def)
qed

subsection \<open>Properties\<close>

text \<open>
  Paths compose. Resolving \<open>p.q\<close> is resolving \<open>p\<close> to an object and \<open>q\<close> inside it; a missing
  prefix or a prefix that is not an object (a scalar or an array) makes the whole path missing.
\<close>

lemma ResolvePath_compose:
  assumes "p \<noteq> []" and "q \<noteq> []"
  shows "ResolvePath c (p @ ''.'' @ q) =
    (case ResolvePath c p of Some (JObject m) \<Rightarrow> ResolvePath m q | _ \<Rightarrow> None)"
proof -
  have "walk w (split (CHR ''.'') q) = (case w of JObject m \<Rightarrow> ResolvePath m q | _ \<Rightarrow> None)" for w
    using assms(2) by (cases "split (CHR ''.'') q"; cases w) (auto simp: ResolvePath_def)
  then show ?thesis
    using assms
    by (auto simp: ResolvePath_def split_append walk_append bind_eq_None_conv
        split: option.splits json.splits Option.bind_splits)
qed

definition demo_claims :: claims where
  "demo_claims = fmap_of_list
     [(''sub'', JString ''u1''), (''email'', JString ''u1@example''), (''email_verified'', JBool True),
      (''groups'', JArray [JString ''staff'', JString ''admins'']),
      (''realm_access'', JObject (fmap_of_list [(''roles'', JArray [JString ''ops''])]))]"

text \<open>
  C30: filters are a conjunction. \<^const>\<open>EvaluateFilters\<close> accepts exactly when every filter's path
  resolves and its operator holds of the value found; a missing claim rejects, the empty list accepts.
\<close>

theorem EvaluateFilters_conjunction:
  "EvaluateFilters lib c fs = None \<longleftrightarrow>
     (\<forall>f\<in>set fs. \<exists>v. ResolvePath c (cf_ClaimPath f) = Some v \<and> Eval lib (cf_Operator f) v (cf_Value f))"
  by (simp add: EvaluateFilters_None_iff fmatch.hit_iff)

definition demo_filter :: ClaimFilter where
  "demo_filter = \<lparr>cf_ClaimPath = ''groups'', cf_Operator = ''contains'', cf_Value = JString ''staff''\<rparr>"

theorem EvaluateFilters_conjunction_witness:
  "EvaluateFilters demo_lib demo_claims [demo_filter] = None \<and>
   EvaluateFilters demo_lib fmempty [demo_filter] \<noteq> None"
proof -
  have "\<forall>f\<in>set [demo_filter]. \<exists>v. ResolvePath demo_claims (cf_ClaimPath f) = Some v \<and>
      Eval demo_lib (cf_Operator f) v (cf_Value f)"
    by (simp add: demo_filter_def demo_claims_def ResolvePath_def fmlookup_of_list Eval_def contains_def)
  moreover have "\<not> (\<forall>f\<in>set [demo_filter]. \<exists>v. ResolvePath fmempty (cf_ClaimPath f) = Some v \<and>
      Eval demo_lib (cf_Operator f) v (cf_Value f))"
    by (simp add: demo_filter_def ResolvePath_def)
  ultimately show ?thesis
    using EvaluateFilters_conjunction [of demo_lib demo_claims "[demo_filter]"]
      EvaluateFilters_conjunction [of demo_lib fmempty "[demo_filter]"] by blast
qed

text \<open>
  The simulator's trace tells the truth about the gate. \<^const>\<open>TraceFilters\<close> evaluates every
  filter, one entry per filter in order, each entry reporting whether that filter's path
  resolved and whether the filter passes; the overall flag is the conjunction of the entries
  and agrees with the short-circuiting \<^const>\<open>EvaluateFilters\<close> of real logins.
\<close>

theorem TraceFilters_faithful:
  assumes "TraceFilters lib c fs = (tr, pass)"
  shows "pass = (EvaluateFilters lib c fs = None) \<and> pass = (\<forall>t\<in>set tr. ft_Match t) \<and>
    length tr = length fs \<and>
    (\<forall>i<length fs. ft_Index (tr ! i) = i \<and> ft_ClaimPath (tr ! i) = cf_ClaimPath (fs ! i) \<and>
       (ft_ClaimFound (tr ! i) \<longleftrightarrow> ResolvePath c (cf_ClaimPath (fs ! i)) \<noteq> None) \<and>
       (ft_Match (tr ! i) \<longleftrightarrow> EvaluateFilters lib c [fs ! i] = None))"
proof -
  have tr: "tr = map (\<lambda>(j, f). traceFilter lib c j f) (enumerate 0 fs)"
    and pass: "pass = (\<forall>f\<in>set fs. filter_hit lib c f)"
    using assms by (simp_all add: TraceFilters_eq)
  have nth: "tr ! i = traceFilter lib c i (fs ! i)" if "i < length fs" for i
    using that by (simp add: tr nth_enumerate_eq)
  have len: "length tr = length fs" by (simp add: tr)
  have "(\<forall>t\<in>set tr. ft_Match t) = (\<forall>f\<in>set fs. filter_hit lib c f)"
    by (simp add: all_set_conv_all_nth len nth traceFilter_match)
  with pass nth len show ?thesis
    by (simp add: EvaluateFilters_None_iff traceFilter_match del: EvaluateFilters.simps)
qed

theorem TraceFilters_faithful_witness:
  "\<exists>tr. TraceFilters demo_lib demo_claims [demo_filter] = (tr, True) \<and>
     EvaluateFilters demo_lib demo_claims [demo_filter] = None"
proof -
  have h: "TraceFilters demo_lib demo_claims [demo_filter] = ([traceFilter demo_lib demo_claims 0 demo_filter], True)"
    by code_simp
  from TraceFilters_faithful [OF h] h show ?thesis by auto
qed

text \<open>
  C31: first match wins. \<^const>\<open>TraceRole\<close> returns the role and index of the first rule that hits,
  and role user with index -1 exactly when none does.
\<close>

theorem TraceRole_first_match:
  "TraceRole lib c rs = (role, i) \<longleftrightarrow>
     (i = -1 \<and> role = ''user'' \<and> (\<forall>r\<in>set rs. \<not> rule_hit lib c r)) \<or>
     (\<exists>k<length rs. i = int k \<and> role = rm_Role (rs ! k) \<and> rule_hit lib c (rs ! k) \<and>
        (\<forall>r\<in>set (take k rs). \<not> rule_hit lib c r))"
  (is "_ = ?spec role i")
proof (cases "\<exists>r\<in>set rs. rule_hit lib c r")
  case True
  then obtain k where k: "k < length rs" "rule_hit lib c (rs ! k)" "\<forall>r\<in>set (take k rs). \<not> rule_hit lib c r"
    by (rule least_hit)
  have eq: "TraceRole lib c rs = (rm_Role (rs ! k), int k)"
    using traceRoleFrom_first [OF k] by (simp add: TraceRole_def)
  show ?thesis
  proof
    assume "TraceRole lib c rs = (role, i)"
    with eq k show "?spec role i" by (intro disjI2 exI [of _ k]) simp
  next
    assume "?spec role i"
    with True obtain k' where k': "k' < length rs" "rule_hit lib c (rs ! k')"
      "\<forall>r\<in>set (take k' rs). \<not> rule_hit lib c r" and res: "i = int k'" "role = rm_Role (rs ! k')"
      by blast
    have "k' = k" by (rule least_hit_unique [where P = "rule_hit lib c", OF k k'])
    with res eq show "TraceRole lib c rs = (role, i)" by simp
  qed
next
  case False
  then show ?thesis by (auto simp: TraceRole_def traceRoleFrom_none)
qed

definition demo_rule :: RoleMappingRule where
  "demo_rule = \<lparr>rm_ClaimPath = ''groups'', rm_Operator = ''contains'', rm_Value = JString ''admins'', rm_Role = ''admin''\<rparr>"

theorem TraceRole_first_match_witness: "TraceRole demo_lib demo_claims [demo_rule] = (''admin'', 0)"
proof -
  have "rule_hit demo_lib demo_claims demo_rule" by code_simp
  then show ?thesis
    using TraceRole_first_match [of demo_lib demo_claims "[demo_rule]" "''admin''" 0]
    by (auto simp: demo_rule_def)
qed

text \<open>
  No role is invented. With a valid configuration the resolved role is user or admin, and it
  is admin only if a configured rule that grants admin matches the claims.
\<close>

lemma ResolveRole_no_escalation:
  assumes "config_ok lib cfg"
  shows "ResolveRole lib c (elems (ClaimRoleMapping cfg)) \<in> {''user'', ''admin''} \<and>
    (ResolveRole lib c (elems (ClaimRoleMapping cfg)) = ''admin'' \<longrightarrow>
      (\<exists>r\<in>set (elems (ClaimRoleMapping cfg)). rm_Role r = ''admin'' \<and> rule_hit lib c r))"
  using ResolveRole_valid [OF assms, of c] ResolveRole_cases [of lib c "elems (ClaimRoleMapping cfg)"]
  by fastforce

text \<open>
  The operators on array claims. Membership uses JSON-typed deep equality; \<^verbatim>\<open>equals\<close> and
  \<^verbatim>\<open>starts_with\<close> never match an array; \<^verbatim>\<open>regex\<close> looks at the string elements only (other elements
  are skipped, not stringified).
\<close>

theorem Eval_array_claims:
  "Eval lib ''contains'' (JArray es) v = (\<exists>e\<in>set es. deepEqual e v) \<and>
   \<not> Eval lib ''equals'' (JArray es) v \<and>
   \<not> Eval lib ''starts_with'' (JArray es) v \<and>
   Eval lib ''regex'' (JArray es) v =
     (\<exists>pat rx s. v = JString pat \<and> rx_compile lib pat = Some rx \<and> JString s \<in> set es \<and> rx s)"
proof -
  have "list_ex (\<lambda>e. case e of JString s \<Rightarrow> rx s | _ \<Rightarrow> False) es = (\<exists>s. JString s \<in> set es \<and> rx s)" for rx
    by (induction es) (auto split: json.splits)
  then show ?thesis
    by (auto simp: Eval_def contains_def equals_def startsWith_def regexMatch_def list_ex_iff
        split: json.splits option.splits)
qed

text \<open>
  Equality is symmetric and, on values decoded from JSON, reflexive except for arrays: a rule
  value matches the claim it was copied from.
\<close>

lemma Eval_equals_laws:
  "(Eval lib ''equals'' a b \<longleftrightarrow> Eval lib ''equals'' b a) \<and>
   (nan_free a \<longrightarrow> (Eval lib ''equals'' a a \<longleftrightarrow> (\<forall>es. a \<noteq> JArray es)))"
  by (auto simp: Eval_def equals_iff simp del: deepEqual.simps dest: deepEqual_sym intro: deepEqual_refl)

end
