(* ===== verification/Float64.thy ===== *)
theory Float64
  imports Prelude "HOL-Library.Log_Nat"
begin

text \<open>
  Go \<^verbatim>\<open>float64\<close> arithmetic as the rate limiter uses it: every operation is the exact rational
  operation followed by \<open>rnd64\<close>, rounding to 53 significant bits, ties to even. The exponent is
  unbounded: the limiter's numbers (tokens, seconds, rates) stay far away from overflow and
  from the subnormal range.
\<close>

definition pow2 :: "int \<Rightarrow> rat" where
  "pow2 k = (if 0 \<le> k then 2 ^ nat k else 1 / 2 ^ nat (- k))"

text \<open>\<open>ilog2 x\<close> is the exponent of the binade of a positive \<open>x\<close>: \<open>2^k \<le> x < 2^(k+1)\<close>.\<close>

definition ilog2 :: "rat \<Rightarrow> int" where
  "ilog2 x = (let (a, b) = quotient_of x; k = bitlen a - bitlen b
              in if pow2 k \<le> x then k else k - 1)"

definition roundEven :: "rat \<Rightarrow> int" where
  "roundEven q =
     (let n = \<lfloor>q\<rfloor>; d = q - of_int n
      in if d < 1 / 2 then n else if 1 / 2 < d then n + 1 else if even n then n else n + 1)"

definition rndPos :: "rat \<Rightarrow> rat" where
  "rndPos x = (let u = pow2 (ilog2 x - 52) in of_int (roundEven (x / u)) * u)"

definition rnd64 :: "rat \<Rightarrow> rat" where
  "rnd64 x = (if x = 0 then 0 else if 0 < x then rndPos x else - rndPos (- x))"

text \<open>The unit roundoff.\<close>

definition ulp1 :: rat where "ulp1 = 1 / 2 ^ 53"

subsection \<open>Powers of two and binades\<close>

lemma pow2_pos [simp]: "0 < pow2 k"
  by (simp add: pow2_def)

lemma pow2_ge_0 [simp]: "0 \<le> pow2 k"
  by (simp add: pow2_def)

lemma pow2_neq_0 [simp]: "pow2 k \<noteq> 0"
  by (simp add: pow2_def)

lemma pow2_0 [simp]: "pow2 0 = 1"
  by (simp add: pow2_def)

lemma pow2_Suc: "pow2 (k + 1) = 2 * pow2 k"
proof -
  consider "0 \<le> k" | "k = -1" | "k < -1" by linarith
  then show ?thesis
  proof cases
    case 1
    then show ?thesis by (simp add: pow2_def nat_add_distrib)
  next
    case 2
    then show ?thesis by (simp add: pow2_def)
  next
    case 3
    then have "nat (- k) = Suc (nat (- (k + 1)))" by simp
    with 3 show ?thesis by (simp add: pow2_def)
  qed
qed

lemma pow2_add_nat: "pow2 (k + int n) = 2 ^ n * pow2 k"
proof (induction n)
  case 0
  then show ?case by simp
next
  case (Suc n)
  have "pow2 (k + int (Suc n)) = pow2 ((k + int n) + 1)" by (simp add: algebra_simps)
  with Suc show ?case by (simp only: pow2_Suc) simp
qed

lemma pow2_diff: "k \<le> l \<Longrightarrow> pow2 l = 2 ^ nat (l - k) * pow2 k"
  using pow2_add_nat [of k "nat (l - k)"] by simp

lemma pow2_mono: "k \<le> l \<Longrightarrow> pow2 k \<le> pow2 l"
proof -
  assume "k \<le> l"
  moreover have "1 * pow2 k \<le> 2 ^ nat (l - k) * pow2 k" by (intro mult_right_mono) auto
  ultimately show ?thesis by (simp add: pow2_diff [of k l])
qed

lemma pow2_less_iff [simp]: "pow2 k < pow2 l \<longleftrightarrow> k < l"
proof
  assume "pow2 k < pow2 l"
  then show "k < l" using pow2_mono [of l k] by linarith
next
  assume "k < l"
  then have "pow2 (k + 1) \<le> pow2 l" by (simp add: pow2_mono)
  then show "pow2 k < pow2 l" using pow2_Suc [of k] pow2_pos [of k] by linarith
qed

lemma bitlen_binade:
  assumes "0 < a"
  shows "pow2 (bitlen a - 1) \<le> of_int a \<and> of_int a < pow2 (bitlen a)"
proof -
  have pos: "0 < bitlen a" using assms bitlen_eq_zero_iff [of a] bitlen_nonneg [of a] by linarith
  have "2 ^ nat (bitlen a - 1) \<le> a \<and> a < 2 ^ nat (bitlen a)"
    using assms by (rule bitlen_bounds)
  then have "(of_int (2 ^ nat (bitlen a - 1)) :: rat) \<le> of_int a \<and> (of_int a :: rat) < of_int (2 ^ nat (bitlen a))"
    by (simp only: of_int_le_iff of_int_less_iff)
  with pos show ?thesis by (simp add: pow2_def)
qed

lemma ilog2_bounds:
  assumes "0 < x"
  shows "pow2 (ilog2 x) \<le> x" and "x < pow2 (ilog2 x + 1)"
proof -
  obtain a b where q: "quotient_of x = (a, b)" by force
  have x: "x = of_int a / of_int b" using quotient_of_div [OF q] .
  have b: "0 < b" using quotient_of_denom_pos [OF q] .
  with assms x have a: "0 < a" by (simp add: zero_less_divide_iff)
  let ?k = "bitlen a - bitlen b"
  have A: "pow2 (bitlen a - 1) \<le> of_int a" "of_int a < pow2 (bitlen a)"
    and B: "pow2 (bitlen b - 1) \<le> of_int b" "of_int b < pow2 (bitlen b)"
    using bitlen_binade [OF a] bitlen_binade [OF b] by auto
  have split: "pow2 (k + l) = pow2 k * pow2 l" for k l
  proof (cases "0 \<le> l")
    case True
    then show ?thesis using pow2_add_nat [of k "nat l"] by (simp add: pow2_def)
  next
    case False
    then have "pow2 k = 2 ^ nat (- l) * pow2 (k + l)"
      using pow2_add_nat [of "k + l" "nat (- l)"] by simp
    with False show ?thesis by (simp add: pow2_def)
  qed
  have hi: "x < pow2 (?k + 1)"
  proof -
    have "of_int a < pow2 (?k + 1) * pow2 (bitlen b - 1)"
      using A(2) split [of "?k + 1" "bitlen b - 1"] by simp
    also have "\<dots> \<le> pow2 (?k + 1) * of_int b" using B(1) by simp
    finally show ?thesis using b by (simp add: x divide_less_eq)
  qed
  have lo: "pow2 (?k - 1) \<le> x"
  proof -
    have "pow2 (?k - 1) * of_int b \<le> pow2 (?k - 1) * pow2 (bitlen b)" using B(2) by simp
    also have "\<dots> \<le> of_int a" using A(1) split [of "?k - 1" "bitlen b"] by simp
    finally show ?thesis using b by (simp add: x le_divide_eq)
  qed
  have il: "ilog2 x = (if pow2 ?k \<le> x then ?k else ?k - 1)"
    by (simp add: ilog2_def q)
  show "pow2 (ilog2 x) \<le> x" using il lo by simp
  show "x < pow2 (ilog2 x + 1)" using il hi by simp
qed

lemma ilog2_mono: "0 < x \<Longrightarrow> x \<le> y \<Longrightarrow> ilog2 x \<le> ilog2 y"
  using ilog2_bounds [of x] ilog2_bounds [of y] pow2_less_iff [of "ilog2 x" "ilog2 y + 1"] by linarith

subsection \<open>Rounding\<close>

lemma roundEven_bounds: "of_int (roundEven q) \<le> q + 1 / 2" "q - 1 / 2 \<le> of_int (roundEven q)"
proof -
  define n where "n = \<lfloor>q\<rfloor>"
  have n: "of_int n \<le> q" "q < of_int n + 1" unfolding n_def by linarith+
  show "of_int (roundEven q) \<le> q + 1 / 2" "q - 1 / 2 \<le> of_int (roundEven q)"
    unfolding roundEven_def n_def [symmetric] Let_def using n by auto
qed

lemma roundEven_floor: "\<lfloor>q\<rfloor> \<le> roundEven q" "roundEven q \<le> \<lfloor>q\<rfloor> + 1"
  by (auto simp: roundEven_def Let_def)

lemma roundEven_mono:
  assumes "q \<le> r"
  shows "roundEven q \<le> roundEven r"
proof (cases "\<lfloor>q\<rfloor> = \<lfloor>r\<rfloor>")
  case True
  with assms show ?thesis by (auto simp: roundEven_def Let_def)
next
  case False
  with floor_mono [OF assms] have "\<lfloor>q\<rfloor> + 1 \<le> \<lfloor>r\<rfloor>" by linarith
  with roundEven_floor [of q] roundEven_floor [of r] show ?thesis by linarith
qed

lemma roundEven_of_int [simp]: "roundEven (of_int n) = n"
  by (simp add: roundEven_def)

lemma rndPos_error:
  assumes "0 < x"
  shows "\<bar>rndPos x - x\<bar> \<le> ulp1 * x"
proof -
  let ?u = "pow2 (ilog2 x - 52)"
  have u: "0 < ?u" by simp
  have "\<bar>of_int (roundEven (x / ?u)) - x / ?u\<bar> \<le> 1 / 2"
    using roundEven_bounds [of "x / ?u"] by linarith
  then have "\<bar>of_int (roundEven (x / ?u)) - x / ?u\<bar> * ?u \<le> 1 / 2 * ?u"
    using u by (intro mult_right_mono) auto
  moreover have "\<bar>of_int (roundEven (x / ?u)) - x / ?u\<bar> * ?u = \<bar>rndPos x - x\<bar>"
  proof -
    have "(of_int (roundEven (x / ?u)) - x / ?u) * ?u = rndPos x - x"
      using u by (simp add: rndPos_def Let_def left_diff_distrib)
    then have "\<bar>of_int (roundEven (x / ?u)) - x / ?u\<bar> * \<bar>?u\<bar> = \<bar>rndPos x - x\<bar>"
      by (metis abs_mult)
    then show ?thesis by simp
  qed
  moreover have "1 / 2 * ?u \<le> ulp1 * x"
  proof -
    have "pow2 (ilog2 x) = 2 ^ 52 * ?u" using pow2_add_nat [of "ilog2 x - 52" 52] by simp
    then have "1 / 2 * ?u = ulp1 * pow2 (ilog2 x)" by (simp add: ulp1_def)
    also have "\<dots> \<le> ulp1 * x" using ilog2_bounds(1) [OF assms] by (simp add: ulp1_def)
    finally show ?thesis .
  qed
  ultimately show ?thesis by linarith
qed

text \<open>A multiple of the unit of its own or any larger binade is exact; powers of two bound a binade.\<close>

lemma rndPos_le_pow2:
  assumes "0 < x"
  shows "rndPos x \<le> pow2 (ilog2 x + 1)"
proof -
  let ?u = "pow2 (ilog2 x - 52)"
  have top: "pow2 (ilog2 x + 1) = of_int (2 ^ 53) * ?u"
    using pow2_add_nat [of "ilog2 x - 52" 53] by (simp add: add.commute)
  have "x / ?u \<le> of_int (2 ^ 53)"
    using ilog2_bounds(2) [OF assms] top by (simp add: divide_le_eq)
  then have "roundEven (x / ?u) \<le> 2 ^ 53"
    using roundEven_mono roundEven_of_int by metis
  then have "(of_int (roundEven (x / ?u)) :: rat) \<le> of_int (2 ^ 53)" by (simp only: of_int_le_iff)
  then show ?thesis unfolding top rndPos_def Let_def by (intro mult_right_mono) auto
qed

lemma rndPos_ge_pow2:
  assumes "0 < x"
  shows "pow2 (ilog2 x) \<le> rndPos x"
proof -
  let ?u = "pow2 (ilog2 x - 52)"
  have bot: "pow2 (ilog2 x) = of_int (2 ^ 52) * ?u"
    using pow2_add_nat [of "ilog2 x - 52" 52] by simp
  have "of_int (2 ^ 52) \<le> x / ?u"
    using ilog2_bounds(1) [OF assms] bot by (simp add: le_divide_eq)
  then have "2 ^ 52 \<le> roundEven (x / ?u)"
    using roundEven_mono roundEven_of_int by metis
  then have "(of_int (2 ^ 52) :: rat) \<le> of_int (roundEven (x / ?u))" by (simp only: of_int_le_iff)
  then show ?thesis unfolding bot rndPos_def Let_def by (intro mult_right_mono) auto
qed

lemma rndPos_mono:
  assumes "0 < x" and "x \<le> y"
  shows "rndPos x \<le> rndPos y"
proof (cases "ilog2 x = ilog2 y")
  case True
  have "x / pow2 (ilog2 y - 52) \<le> y / pow2 (ilog2 y - 52)"
    using assms(2) by (simp add: divide_right_mono less_imp_le)
  then show ?thesis
    unfolding rndPos_def Let_def True by (intro mult_right_mono) (auto intro: roundEven_mono)
next
  case False
  with ilog2_mono [OF assms] have "ilog2 x + 1 \<le> ilog2 y" by linarith
  then have "pow2 (ilog2 x + 1) \<le> pow2 (ilog2 y)" by (rule pow2_mono)
  with rndPos_le_pow2 [of x] rndPos_ge_pow2 [of y] assms show ?thesis by linarith
qed

lemma rndPos_pos: "0 < x \<Longrightarrow> 0 < rndPos x"
  using rndPos_ge_pow2 [of x] pow2_pos [of "ilog2 x"] by linarith

lemma rnd64_0 [simp]: "rnd64 0 = 0"
  by (simp add: rnd64_def)

lemma rnd64_nonneg [simp]: "0 \<le> x \<Longrightarrow> 0 \<le> rnd64 x"
  using rndPos_pos [of x] by (auto simp: rnd64_def)

lemma rnd64_pos [simp]: "0 < x \<Longrightarrow> 0 < rnd64 x"
  using rndPos_pos [of x] by (auto simp: rnd64_def)

lemma rnd64_mono: "x \<le> y \<Longrightarrow> rnd64 x \<le> rnd64 y"
  using rndPos_mono [of x y] rndPos_mono [of "- y" "- x"] rndPos_pos [of "- x"] rndPos_pos [of y]
  by (auto simp: rnd64_def)

lemma rnd64_error: "0 \<le> x \<Longrightarrow> \<bar>rnd64 x - x\<bar> \<le> ulp1 * x"
  using rndPos_error [of x] by (auto simp: rnd64_def)

lemma rnd64_upper: "0 \<le> x \<Longrightarrow> rnd64 x \<le> (1 + ulp1) * x"
  using rnd64_error [of x] by (simp add: algebra_simps abs_le_iff)

lemma rnd64_lower: "0 \<le> x \<Longrightarrow> (1 - ulp1) * x \<le> rnd64 x"
  using rnd64_error [of x] by (simp add: algebra_simps abs_le_iff)

text \<open>Integers up to \<open>2^53\<close> are exact.\<close>

lemma rnd64_of_nat:
  assumes "n \<le> 2 ^ 53"
  shows "rnd64 (of_nat n) = of_nat n"
proof (cases "n = 0")
  case False
  let ?x = "of_nat n :: rat" and ?e = "ilog2 (of_nat n) - 52"
  have pos: "0 < ?x" using False by simp
  show ?thesis
  proof (cases "?e \<le> 0")
    case True
    have "pow2 0 = 2 ^ nat (- ?e) * pow2 ?e" using True pow2_diff [of ?e 0] by simp
    then have "?x = ?x * 2 ^ nat (- ?e) * pow2 ?e" by (simp only: mult.assoc) simp
    then have "?x / pow2 ?e = of_int (int n * 2 ^ nat (- ?e))"
      using pow2_pos [of ?e] by (metis nonzero_mult_div_cancel_right of_int_mult of_int_numeral
          of_int_of_nat_eq of_int_power order_less_irrefl)
    then have "of_int (roundEven (?x / pow2 ?e)) * pow2 ?e = ?x / pow2 ?e * pow2 ?e"
      by (simp only: roundEven_of_int)
    with False show ?thesis by (simp add: rnd64_def rndPos_def Let_def)
  next
    case big: False
    have "pow2 53 \<le> ?x"
      using big pow2_mono [of 53 "ilog2 ?x"] ilog2_bounds(1) [OF pos] by linarith
    moreover have "?x \<le> 2 ^ 53" using assms by (metis of_nat_le_iff of_nat_numeral of_nat_power)
    ultimately have x: "?x = pow2 53" by (simp add: pow2_def)
    have "rndPos ?x \<le> pow2 53 \<and> pow2 53 \<le> rndPos ?x"
    proof -
      have "ilog2 ?x = 53"
        using ilog2_bounds(1) [OF pos] big pow2_less_iff [of 53 "ilog2 ?x"] x by linarith
      then have "?x / pow2 ?e = of_int (2 ^ 52)" by (simp add: x pow2_def)
      then have "roundEven (?x / pow2 ?e) = 2 ^ 52" by (simp only: roundEven_of_int)
      then show ?thesis using \<open>ilog2 ?x = 53\<close> by (simp add: rndPos_def pow2_def)
    qed
    with False x show ?thesis by (simp add: rnd64_def)
  qed
qed simp

lemma rnd64_1 [simp]: "rnd64 1 = 1"
  using rnd64_of_nat [of 1] by simp

lemma rnd64_numeral: "numeral n \<le> (2 ^ 53 :: nat) \<Longrightarrow> rnd64 (numeral n) = numeral n"
  using rnd64_of_nat [of "numeral n"] by simp

end
