(* ===== verification/Rate_Limit.thy ===== *)
theory Rate_Limit
  imports Float64
begin

text \<open>
  \<^verbatim>\<open>internal/ratelimit/ratelimit.go\<close>: the keyed token-bucket limiter. \<^verbatim>\<open>float64\<close> operations round
  with \<^const>\<open>rnd64\<close>; the clock reading \<^verbatim>\<open>l.now()\<close> is the argument \<open>now\<close>; the mutex makes every
  call one atomic state change.
\<close>

subsection \<open>The limiter\<close>

record bucket =
  tokens :: rat
  stamp :: instant

record Limiter =
  rate :: rat
  burst :: rat
  ttl :: duration
  buckets :: "(string, bucket) fmap"
  lastSwip :: instant

text \<open>The zero \<^verbatim>\<open>time.Time\<close> (1 January of year 1) on the time line that starts at the Unix epoch.\<close>

definition zeroTime :: instant where "zeroTime = - 62135596800 * second"

definition newLimiter :: "rat \<Rightarrow> rat \<Rightarrow> Limiter" where
  "newLimiter ratePerSec b =
     \<lparr>rate = (if ratePerSec \<le> 0 then 1 else ratePerSec), burst = (if b < 1 then 1 else b),
      ttl = 10 * minute, buckets = fmempty, lastSwip = zeroTime\<rparr>"

definition sweepLocked :: "instant \<Rightarrow> Limiter \<Rightarrow> Limiter" where
  "sweepLocked now l =
     (if timeSub now (lastSwip l) < ttl l then l
      else l\<lparr>lastSwip := now,
        buckets := fmfilter (\<lambda>k. case fmlookup (buckets l) k of
            None \<Rightarrow> True | Some b \<Rightarrow> \<not> timeSub now (stamp b) > ttl l) (buckets l)\<rparr>)"

text \<open>\<^verbatim>\<open>Duration.Seconds\<close>: whole seconds plus the fraction, each converted to \<^verbatim>\<open>float64\<close>.\<close>

definition secondsPos :: "duration \<Rightarrow> rat" where
  "secondsPos d =
     rnd64 (rnd64 (of_int (d div second)) + rnd64 (rnd64 (of_int (d mod second)) / 1000000000))"

definition durationSeconds :: "duration \<Rightarrow> rat" where
  "durationSeconds d = (if 0 \<le> d then secondsPos d else - secondsPos (- d))"

definition refill :: "rat \<Rightarrow> rat \<Rightarrow> instant \<Rightarrow> bucket \<Rightarrow> bucket" where
  "refill r cap now b =
     (let elapsed = durationSeconds (timeSub now (stamp b)) in
      if elapsed > 0 then
        let t = rnd64 (tokens b + rnd64 (elapsed * r))
        in \<lparr>tokens = (if t > cap then cap else t), stamp = now\<rparr>
      else b)"

text \<open>The wait for the next token, rounded up to whole seconds and never below one.\<close>

definition retryAfter :: "rat \<Rightarrow> rat \<Rightarrow> duration" where
  "retryAfter r t =
     (let need = rnd64 (1 - t);
          wait = \<lfloor>rnd64 (rnd64 (need / r) * 1000000000)\<rfloor>;
          wait' = (if wait mod second \<noteq> 0 then wait + (second - wait mod second) else wait)
      in if wait' \<le> 0 then second else wait')"

definition Allow :: "instant \<Rightarrow> string \<Rightarrow> Limiter \<Rightarrow> (bool \<times> duration) \<times> Limiter" where
  "Allow now key l =
     (let l1 = sweepLocked now l;
          b = (case fmlookup (buckets l1) key of
                 None \<Rightarrow> \<lparr>tokens = burst l1, stamp = now\<rparr>
               | Some b \<Rightarrow> refill (rate l1) (burst l1) now b)
      in if tokens b \<ge> 1
         then ((True, 0), l1\<lparr>buckets := fmupd key (b\<lparr>tokens := rnd64 (tokens b - 1)\<rparr>) (buckets l1)\<rparr>)
         else ((False, retryAfter (rate l1) (tokens b)), l1\<lparr>buckets := fmupd key b (buckets l1)\<rparr>))"

text \<open>A sequence of calls: the answers in order and the final limiter.\<close>

fun allowRun :: "(instant \<times> string) list \<Rightarrow> Limiter \<Rightarrow> bool list \<times> Limiter" where
  "allowRun [] l = ([], l)"
| "allowRun ((now, key) # calls) l =
     (let (ans, l1) = Allow now key l; (rest, l2) = allowRun calls l1 in (fst ans # rest, l2))"

subsection \<open>Elapsed time\<close>

lemma secondsPos_nonneg: "0 \<le> d \<Longrightarrow> 0 \<le> secondsPos d"
  by (simp add: secondsPos_def second_def pos_imp_zdiv_nonneg_iff add_nonneg_nonneg)

lemma secondsPos_pos:
  assumes "0 < d"
  shows "0 < secondsPos d"
proof -
  have "0 < d div second \<or> 0 < d mod second"
    using assms unfolding second_def by (simp add: pos_imp_zdiv_pos_iff) (smt (verit) mod_pos_pos_trivial)
  moreover have "0 \<le> d div second" "0 \<le> d mod second"
    using assms by (simp_all add: second_def pos_imp_zdiv_nonneg_iff)
  ultimately show ?thesis
    unfolding secondsPos_def by (intro rnd64_pos) (auto intro: add_pos_nonneg add_nonneg_pos)
qed

lemma durationSeconds_pos_iff [simp]: "0 < durationSeconds d \<longleftrightarrow> 0 < d"
proof (cases "d > 0")
  case True
  then show ?thesis by (simp add: durationSeconds_def secondsPos_pos)
next
  case False
  then show ?thesis
    using secondsPos_nonneg [of "- d"]
    by (cases "d = 0") (simp_all add: durationSeconds_def secondsPos_def [of 0] not_less)
qed

subsection \<open>The invariant\<close>

text \<open>\<open>rnd64 x = x\<close> says that \<open>x\<close> is a \<^verbatim>\<open>float64\<close>, which the type of \<^verbatim>\<open>burst\<close> guarantees.\<close>

definition bucket_ok :: "rat \<Rightarrow> bucket \<Rightarrow> bool" where
  "bucket_ok cap b \<longleftrightarrow> 0 \<le> tokens b \<and> tokens b \<le> cap"

definition limiter_ok :: "Limiter \<Rightarrow> bool" where
  "limiter_ok l \<longleftrightarrow> 0 < rate l \<and> 1 \<le> burst l \<and> rnd64 (burst l) = burst l \<and>
     fmpred (\<lambda>_ b. bucket_ok (burst l) b) (buckets l)"

lemma refill_ok:
  assumes "bucket_ok cap b" and "0 < r" and "0 \<le> cap"
  shows "bucket_ok cap (refill r cap now b)"
proof -
  have "0 \<le> rnd64 (tokens b + rnd64 (durationSeconds (timeSub now (stamp b)) * r))" if "stamp b < now"
  proof -
    have "0 < durationSeconds (timeSub now (stamp b))" using that by simp
    with assms show ?thesis by (simp add: bucket_ok_def del: durationSeconds_pos_iff)
  qed
  with assms show ?thesis
    by (auto simp: refill_def bucket_ok_def Let_def)
qed

lemma take_ok:
  assumes "bucket_ok cap b" and "1 \<le> tokens b" and "rnd64 cap = cap"
  shows "bucket_ok cap (b\<lparr>tokens := rnd64 (tokens b - 1)\<rparr>)"
proof -
  have "rnd64 (tokens b - 1) \<le> rnd64 cap"
    using assms by (intro rnd64_mono) (simp add: bucket_ok_def)
  with assms show ?thesis by (simp add: bucket_ok_def)
qed

lemma sweepLocked_fields [simp]:
  "rate (sweepLocked now l) = rate l" "burst (sweepLocked now l) = burst l" "ttl (sweepLocked now l) = ttl l"
  by (simp_all add: sweepLocked_def)

lemma sweepLocked_lookup:
  "fmlookup (buckets (sweepLocked now l)) k =
     (case fmlookup (buckets l) k of
        None \<Rightarrow> None
      | Some b \<Rightarrow> if ttl l \<le> timeSub now (lastSwip l) \<and> ttl l < timeSub now (stamp b) then None else Some b)"
  by (auto simp: sweepLocked_def split: option.splits)

lemma limiter_ok_lookup: "limiter_ok l \<Longrightarrow> fmlookup (buckets l) k = Some b \<Longrightarrow> bucket_ok (burst l) b"
  by (auto simp: limiter_ok_def dest: fmpredD)

text \<open>The bucket a call works on: fresh and full, or the stored one refilled.\<close>

definition current :: "instant \<Rightarrow> string \<Rightarrow> Limiter \<Rightarrow> bucket" where
  "current now key l =
     (case fmlookup (buckets (sweepLocked now l)) key of
        None \<Rightarrow> \<lparr>tokens = burst l, stamp = now\<rparr>
      | Some b \<Rightarrow> refill (rate l) (burst l) now b)"

definition spend :: "bucket \<Rightarrow> bucket" where
  "spend b = (if 1 \<le> tokens b then b\<lparr>tokens := rnd64 (tokens b - 1)\<rparr> else b)"

lemma Allow_eq:
  "Allow now key l =
     (let b = current now key l; l1 = sweepLocked now l in
      ((1 \<le> tokens b, if 1 \<le> tokens b then 0 else retryAfter (rate l) (tokens b)),
       l1\<lparr>buckets := fmupd key (spend b) (buckets l1)\<rparr>))"
  by (cases "fmlookup (buckets (sweepLocked now l)) key")
    (simp_all add: Allow_def current_def spend_def Let_def)

lemma current_ok:
  assumes "limiter_ok l"
  shows "bucket_ok (burst l) (current now key l)"
  using assms limiter_ok_lookup [OF assms, of key]
  by (auto simp: current_def sweepLocked_lookup limiter_ok_def bucket_ok_def [of _ "\<lparr>tokens = _, stamp = _\<rparr>"]
      split: option.splits if_splits intro!: refill_ok)

lemma spend_ok: "bucket_ok cap b \<Longrightarrow> rnd64 cap = cap \<Longrightarrow> bucket_ok cap (spend b)"
  by (auto simp: spend_def intro: take_ok)

lemma Allow_invariant:
  assumes "limiter_ok l"
  shows "limiter_ok (snd (Allow now key l))"
proof -
  have cur: "bucket_ok (burst l) (spend (current now key l))"
    using current_ok [OF assms] assms by (simp add: spend_ok limiter_ok_def)
  have "fmpred (\<lambda>_ b. bucket_ok (burst l) b) (buckets (sweepLocked now l))"
    using limiter_ok_lookup [OF assms] by (auto simp: fmpred_iff sweepLocked_lookup split: option.splits if_splits)
  with cur show ?thesis
    using assms by (auto simp: Allow_eq Let_def limiter_ok_def)
qed

lemma newLimiter_ok: "rnd64 b = b \<Longrightarrow> limiter_ok (newLimiter r b)"
  by (auto simp: newLimiter_def limiter_ok_def)

subsection \<open>The wait\<close>

lemma retryAfter_whole: "retryAfter r t mod second = 0" and retryAfter_pos: "0 < retryAfter r t"
proof -
  let ?w = "\<lfloor>rnd64 (rnd64 (rnd64 (1 - t) / r) * 1000000000)\<rfloor>"
  have up: "(?w + (second - ?w mod second)) mod second = 0"
    by (simp add: mod_add_right_eq mod_diff_right_eq algebra_simps)
  then show "retryAfter r t mod second = 0"
    by (simp add: retryAfter_def Let_def)
  show "0 < retryAfter r t"
    by (simp add: retryAfter_def Let_def second_def)
qed

lemma Allow_answer:
  "fst (Allow now key l) = (ok, retry) \<Longrightarrow>
     (ok \<and> retry = 0) \<or> (\<not> ok \<and> 0 < retry \<and> retry mod second = 0)"
  by (auto simp: Allow_eq Let_def retryAfter_pos retryAfter_whole split: if_splits)

subsection \<open>How many calls are granted\<close>

fun grantedTo :: "string \<Rightarrow> (instant \<times> string) list \<Rightarrow> Limiter \<Rightarrow> nat" where
  "grantedTo k [] l = 0"
| "grantedTo k ((now, key) # calls) l =
     (let (ans, l1) = Allow now key l
      in (if key = k \<and> fst ans then 1 else 0) + grantedTo k calls l1)"

text \<open>
  \<open>c5\<close> bounds the accumulated rounding of one refill. \<open>level T k l\<close> bounds the tokens key \<open>k\<close> can
  draw on at time \<open>T\<close>; a bucket idle long enough to be swept has the full level already.
\<close>

definition c5 :: rat where "c5 = (1 + ulp1) ^ 5"

definition level :: "instant \<Rightarrow> string \<Rightarrow> Limiter \<Rightarrow> rat" where
  "level T k l =
     (case fmlookup (buckets l) k of
        None \<Rightarrow> burst l
      | Some b \<Rightarrow> min (burst l) (tokens b + c5 * rate l * (of_int (max 0 (T - stamp b)) / 1000000000)))"

lemma ulp1_pos [simp]: "0 < ulp1" "0 \<le> ulp1"
  by (simp_all add: ulp1_def)

lemma c5_ge_1 [simp]: "1 \<le> c5" "0 \<le> c5"
  by (simp_all add: c5_def)

lemma secondsPos_upper:
  assumes "0 \<le> d"
  shows "secondsPos d \<le> (1 + ulp1) ^ 3 * (of_int d / 1000000000)"
proof -
  let ?s = "of_int (d div second) :: rat" and ?n = "of_int (d mod second) :: rat"
  let ?m = "1 + ulp1"
  have nn: "0 \<le> ?s" "0 \<le> ?n"
    using assms by (simp_all add: second_def pos_imp_zdiv_nonneg_iff)
  have m: "1 \<le> ?m" "0 \<le> ?m" "?m \<le> ?m ^ 2" "0 \<le> ?m ^ 2" by (simp_all add: self_le_power)
  have "rnd64 ?s \<le> ?m ^ 2 * ?s"
    using rnd64_upper [OF nn(1)] mult_right_mono [OF m(3) nn(1)] by linarith
  moreover have "rnd64 (rnd64 ?n / 1000000000) \<le> ?m ^ 2 * (?n / 1000000000)"
  proof -
    have "rnd64 (rnd64 ?n / 1000000000) \<le> ?m * (rnd64 ?n / 1000000000)"
      using nn(2) by (intro rnd64_upper) simp
    also have "\<dots> \<le> ?m * (?m * ?n / 1000000000)"
      using rnd64_upper [OF nn(2)] m(2) by (intro mult_left_mono divide_right_mono) auto
    finally show ?thesis by (simp add: power2_eq_square mult.assoc)
  qed
  ultimately have "rnd64 ?s + rnd64 (rnd64 ?n / 1000000000) \<le> ?m ^ 2 * (?s + ?n / 1000000000)"
    by (simp add: distrib_left)
  also have "?s + ?n / 1000000000 = of_int d / 1000000000"
  proof -
    have "(of_int (d div second * second + d mod second) :: rat) = of_int d"
      by (simp only: div_mult_mod_eq)
    then have "?s * 1000000000 + ?n = of_int d" by (simp only: of_int_add of_int_mult) (simp add: second_def)
    then show ?thesis by (simp add: field_simps)
  qed
  finally have sum: "rnd64 ?s + rnd64 (rnd64 ?n / 1000000000) \<le> ?m ^ 2 * (of_int d / 1000000000)" .
  have "secondsPos d \<le> ?m * (rnd64 ?s + rnd64 (rnd64 ?n / 1000000000))"
    unfolding secondsPos_def using nn by (intro rnd64_upper add_nonneg_nonneg) auto
  also have "\<dots> \<le> ?m * (?m ^ 2 * (of_int d / 1000000000))"
    using sum m(2) by (rule mult_left_mono)
  finally show ?thesis by (simp add: power_numeral_reduce algebra_simps)
qed

lemma five_factors: "m * (t + m * (m ^ 3 * d * r)) = m * t + m ^ 5 * r * d" for m t d r :: rat
  by (simp add: algebra_simps power_numeral_reduce)

lemma refill_level:
  assumes "bucket_ok cap b" and "0 < r"
  shows "tokens (refill r cap now b) \<le>
    min cap (tokens b + c5 * r * (of_int (max 0 (now - stamp b)) / 1000000000)) + ulp1 * cap"
proof (cases "stamp b < now")
  case False
  then have "refill r cap now b = b" by (simp add: refill_def)
  moreover from assms False have "0 \<le> ulp1 * cap" by (simp add: bucket_ok_def)
  ultimately show ?thesis using False assms by (simp add: bucket_ok_def)
next
  case True
  let ?m = "1 + ulp1" and ?D = "of_int (now - stamp b) / 1000000000 :: rat"
  let ?e = "durationSeconds (timeSub now (stamp b))"
  have tok: "0 \<le> tokens b" "tokens b \<le> cap" using assms by (auto simp: bucket_ok_def)
  have pos: "0 < timeSub now (stamp b)" using True by simp
  have e: "0 < ?e" using pos by simp
  have "?e \<le> ?m ^ 3 * (of_int (timeSub now (stamp b)) / 1000000000)"
    using secondsPos_upper [OF less_imp_le [OF pos]] less_imp_le [OF pos] by (simp add: durationSeconds_def)
  also have "\<dots> \<le> ?m ^ 3 * ?D"
    using True by (intro mult_left_mono divide_right_mono) (auto simp: duration_defs)
  finally have eD: "?e * r \<le> ?m ^ 3 * ?D * r" using assms(2) by (intro mult_right_mono) auto
  let ?t = "rnd64 (tokens b + rnd64 (?e * r))"
  have er: "0 \<le> ?e * r" by (rule less_imp_le [OF mult_pos_pos [OF e assms(2)]])
  have "?t \<le> ?m * (tokens b + rnd64 (?e * r))"
    using tok er by (intro rnd64_upper add_nonneg_nonneg) auto
  also have "\<dots> \<le> ?m * (tokens b + ?m * (?e * r))"
    using rnd64_upper [OF er] by (intro mult_left_mono add_left_mono) auto
  also have "\<dots> \<le> ?m * (tokens b + ?m * (?m ^ 3 * ?D * r))"
    using eD by (intro mult_left_mono add_left_mono) auto
  also have "\<dots> = tokens b + ulp1 * tokens b + c5 * r * ?D"
    unfolding five_factors c5_def by (simp add: distrib_right)
  also have "\<dots> \<le> tokens b + ulp1 * cap + c5 * r * ?D"
    using tok by (simp add: mult_left_mono)
  finally have t: "?t \<le> tokens b + c5 * r * ?D + ulp1 * cap" by simp
  have "tokens (refill r cap now b) = min cap ?t"
    using True by (simp add: refill_def Let_def min_def)
  moreover have "0 \<le> ulp1 * cap" using tok by simp
  ultimately show ?thesis using t True by (simp add: min_def)
qed

text \<open>An idle bucket is full again by the time the sweep may drop it. Both configured limiters satisfy this.\<close>

definition refills_before_sweep :: "Limiter \<Rightarrow> bool" where
  "refills_before_sweep l \<longleftrightarrow> 0 \<le> ttl l \<and> ttl l div second \<le> 2 ^ 53 \<and> burst l \<le> rate l * of_int (ttl l div second)"

lemma refills_before_sweep_frac:
  assumes "refills_before_sweep l" and "0 < rate l"
  shows "burst l \<le> rate l * (of_int (ttl l) / 1000000000)"
proof -
  have "ttl l div second * second \<le> ttl l" by (simp add: second_def)
  then have "(of_int (ttl l div second * second) :: rat) \<le> of_int (ttl l)" by (simp only: of_int_le_iff)
  then have "(of_int (ttl l div second) :: rat) \<le> of_int (ttl l) / 1000000000"
    by (simp add: second_def le_divide_eq)
  then have "rate l * of_int (ttl l div second) \<le> rate l * (of_int (ttl l) / 1000000000)"
    using assms(2) by (intro mult_left_mono) auto
  with assms(1) show ?thesis by (simp add: refills_before_sweep_def)
qed

lemma level_sweep:
  assumes "limiter_ok l" and "refills_before_sweep l"
  shows "level now k (sweepLocked now l) = level now k l"
proof (cases "fmlookup (buckets l) k")
  case None
  then show ?thesis by (simp add: level_def sweepLocked_lookup)
next
  case (Some b)
  show ?thesis
  proof (cases "ttl l \<le> timeSub now (lastSwip l) \<and> ttl l < timeSub now (stamp b)")
    case False
    then show ?thesis using Some by (auto simp: level_def sweepLocked_lookup)
  next
    case True
    have r: "0 < rate l" and tok: "0 \<le> tokens b"
      using assms(1) limiter_ok_lookup [OF assms(1) Some] by (auto simp: limiter_ok_def bucket_ok_def)
    have "ttl l \<le> max 0 (now - stamp b)"
      using True assms(2) by (auto simp: duration_defs refills_before_sweep_def)
    then have "rate l * (of_int (ttl l) / 1000000000) \<le> rate l * (of_int (max 0 (now - stamp b)) / 1000000000)"
      using r by (intro mult_left_mono divide_right_mono) (auto simp del: of_int_max)
    also have "\<dots> \<le> c5 * (rate l * (of_int (max 0 (now - stamp b)) / 1000000000))"
      using r mult_right_mono [OF c5_ge_1(1), of "rate l * (of_int (max 0 (now - stamp b)) / 1000000000)"] by simp
    finally have "burst l \<le> tokens b + c5 * rate l * (of_int (max 0 (now - stamp b)) / 1000000000)"
      using refills_before_sweep_frac [OF assms(2) r] tok by (simp add: mult.assoc del: of_int_max)
    then show ?thesis using Some True by (simp add: level_def sweepLocked_lookup del: of_int_max)
  qed
qed

lemma level_advance:
  assumes "limiter_ok l" and "T \<le> now"
  shows "level now k l \<le> level T k l + c5 * rate l * (of_int (now - T) / 1000000000)"
proof -
  have r: "0 \<le> c5 * rate l" using assms(1) by (simp add: limiter_ok_def)
  then have gain: "0 \<le> c5 * rate l * (of_int (now - T) / 1000000000)" using assms(2) by simp
  show ?thesis
  proof (cases "fmlookup (buckets l) k")
    case None
    with gain show ?thesis by (simp add: level_def)
  next
    case (Some b)
    have "max 0 (now - stamp b) \<le> max 0 (T - stamp b) + (now - T)" using assms(2) by simp
    then have "(of_int (max 0 (now - stamp b)) :: rat) \<le> of_int (max 0 (T - stamp b) + (now - T))"
      by (simp only: of_int_le_iff)
    then have "(of_int (max 0 (now - stamp b)) :: rat) / 1000000000 \<le>
        of_int (max 0 (T - stamp b)) / 1000000000 + of_int (now - T) / 1000000000"
      by (simp only: of_int_add add_divide_distrib [symmetric]) (simp add: divide_right_mono del: of_int_max)
    then have "c5 * rate l * (of_int (max 0 (now - stamp b)) / 1000000000) \<le>
        c5 * rate l * (of_int (max 0 (T - stamp b)) / 1000000000 + of_int (now - T) / 1000000000)"
      using r by (rule mult_left_mono)
    with Some gain show ?thesis by (simp add: level_def distrib_left min_def del: of_int_max of_int_diff)
  qed
qed

lemma current_level:
  assumes "limiter_ok l" and "refills_before_sweep l"
  shows "tokens (current now key l) \<le> level now key l + ulp1 * burst l"
proof (cases "fmlookup (buckets (sweepLocked now l)) key")
  case None
  then have "level now key l = burst l"
    using level_sweep [OF assms, of now key] by (simp add: level_def)
  moreover have "0 \<le> ulp1 * burst l" using assms(1) by (simp add: limiter_ok_def)
  ultimately show ?thesis using None by (simp add: current_def)
next
  case (Some b)
  then have "fmlookup (buckets l) key = Some b"
    by (auto simp: sweepLocked_lookup split: option.splits if_splits)
  then have "bucket_ok (burst l) b" by (rule limiter_ok_lookup [OF assms(1)])
  moreover have "level now key l =
      min (burst l) (tokens b + c5 * rate l * (of_int (max 0 (now - stamp b)) / 1000000000))"
    using level_sweep [OF assms, of now key] Some by (simp add: level_def)
  ultimately show ?thesis
    using refill_level [of "burst l" b "rate l" now] assms(1) Some by (simp add: current_def limiter_ok_def)
qed

lemma current_stamp: "now \<le> stamp (current now key l)"
  by (auto simp: current_def refill_def Let_def split: option.splits)

lemma Allow_level:
  assumes "limiter_ok l" and "refills_before_sweep l" and "Allow now key l = (ans, l')"
  shows "(if key = k \<and> fst ans then 1 else 0) + level now k l' \<le> level now k l + 2 * ulp1 * burst l"
proof -
  let ?b = "current now key l"
  have l': "l' = (sweepLocked now l)\<lparr>buckets := fmupd key (spend ?b) (buckets (sweepLocked now l))\<rparr>"
    and ans: "fst ans = (1 \<le> tokens ?b)"
    using assms(3) by (auto simp: Allow_eq Let_def)
  have ub: "0 \<le> ulp1 * burst l" using assms(1) by (simp add: limiter_ok_def)
  show ?thesis
  proof (cases "key = k")
    case False
    then have "level now k l' = level now k (sweepLocked now l)"
      by (simp add: level_def l' split: option.split)
    with False ub level_sweep [OF assms(1,2)] show ?thesis by simp
  next
    case True
    have "stamp (spend ?b) = stamp ?b" by (simp add: spend_def)
    with current_stamp [of now key l] True have "level now k l' \<le> tokens (spend ?b)"
      by (simp add: level_def l' min_def)
    moreover have "(if 1 \<le> tokens ?b then 1 else 0) + tokens (spend ?b) \<le> tokens ?b + ulp1 * burst l"
    proof (cases "1 \<le> tokens ?b")
      case True
      have "rnd64 (tokens ?b - 1) \<le> (1 + ulp1) * (tokens ?b - 1)" using True by (intro rnd64_upper) simp
      moreover have "ulp1 * (tokens ?b - 1) \<le> ulp1 * burst l"
        using current_ok [OF assms(1), of now key] by (intro mult_left_mono) (auto simp: bucket_ok_def)
      ultimately show ?thesis using True by (simp add: spend_def algebra_simps)
    next
      case False
      with ub show ?thesis by (simp add: spend_def)
    qed
    ultimately show ?thesis
      using current_level [OF assms(1,2), of now key] True ans by simp
  qed
qed

lemma Allow_fields:
  "Allow now key l = (ans, l') \<Longrightarrow> rate l' = rate l \<and> burst l' = burst l \<and> ttl l' = ttl l"
  by (auto simp: Allow_eq Let_def)

lemma level_nonneg: "limiter_ok l \<Longrightarrow> 0 \<le> level T k l"
  by (auto simp: level_def limiter_ok_def dest!: fmpredD split: option.splits)
    (simp add: bucket_ok_def)

lemma level_le_burst: "level T k l \<le> burst l"
  by (auto simp: level_def split: option.splits)

lemma grantedTo_level:
  assumes "limiter_ok l" and "refills_before_sweep l"
    and "sorted (map fst calls)" and "\<forall>c\<in>set calls. T \<le> fst c \<and> fst c \<le> T'" and "T \<le> T'"
  shows "of_nat (grantedTo k calls l) \<le>
    level T k l + c5 * rate l * (of_int (T' - T) / 1000000000) + 2 * ulp1 * burst l * of_nat (length calls)"
  using assms
proof (induction calls arbitrary: l T)
  case Nil
  moreover have "0 \<le> c5 * rate l * (of_int (T' - T) / 1000000000)"
    using Nil.prems by (simp add: limiter_ok_def)
  ultimately show ?case using level_nonneg [of l T k] by simp
next
  case (Cons c calls)
  obtain now key where c: "c = (now, key)" by force
  obtain ans l1 where A: "Allow now key l = (ans, l1)" by (cases "Allow now key l")
  have f: "rate l1 = rate l" "burst l1 = burst l" "ttl l1 = ttl l" using Allow_fields [OF A] by auto
  have ok1: "limiter_ok l1" using Allow_invariant [OF Cons.prems(1), of now key] A by simp
  have rb1: "refills_before_sweep l1" using Cons.prems(2) f by (simp add: refills_before_sweep_def)
  have T: "T \<le> now" "now \<le> T'" using Cons.prems(4) c by auto
  have IH: "of_nat (grantedTo k calls l1) \<le>
      level now k l1 + c5 * rate l * (of_int (T' - now) / 1000000000) + 2 * ulp1 * burst l * of_nat (length calls)"
    using Cons.IH [OF ok1 rb1, of now] Cons.prems(3,4) T c f by auto
  have step: "(if key = k \<and> fst ans then 1 else 0) + level now k l1 \<le>
      level T k l + c5 * rate l * (of_int (now - T) / 1000000000) + 2 * ulp1 * burst l"
    using Allow_level [OF Cons.prems(1,2) A, of k] level_advance [OF Cons.prems(1) T(1), of k] by linarith
  have "c5 * rate l * (of_int (T' - T) / 1000000000) =
      c5 * rate l * (of_int (now - T) / 1000000000) + c5 * rate l * (of_int (T' - now) / 1000000000)"
    by (simp add: field_simps)
  moreover have "2 * ulp1 * burst l * of_nat (length (c # calls)) =
      2 * ulp1 * burst l + 2 * ulp1 * burst l * of_nat (length calls)"
    by (simp add: distrib_left)
  moreover have "(of_nat (grantedTo k (c # calls) l) :: rat) =
      (if key = k \<and> fst ans then 1 else 0) + of_nat (grantedTo k calls l1)"
    by (simp add: c A)
  ultimately show ?case using IH step by linarith
qed

subsection \<open>Abstract specification: token buckets that are never forgotten\<close>

text \<open>
  The contract of the limiter: every key has its own bucket, full at first use, kept for ever.
  The implementation drops idle buckets; a simulation shows that nobody can tell.
\<close>

type_synonym memory = "string \<Rightarrow> bucket option"

definition absCurrent :: "rat \<Rightarrow> rat \<Rightarrow> instant \<Rightarrow> bucket option \<Rightarrow> bucket" where
  "absCurrent r cap now s = (case s of None \<Rightarrow> \<lparr>tokens = cap, stamp = now\<rparr> | Some b \<Rightarrow> refill r cap now b)"

definition absAllow :: "rat \<Rightarrow> rat \<Rightarrow> instant \<Rightarrow> string \<Rightarrow> memory \<Rightarrow> (bool \<times> duration) \<times> memory" where
  "absAllow r cap now key mem =
     (let b = absCurrent r cap now (mem key)
      in ((1 \<le> tokens b, if 1 \<le> tokens b then 0 else retryAfter r (tokens b)),
          mem(key := Some (spend b))))"

fun absRun :: "rat \<Rightarrow> rat \<Rightarrow> (instant \<times> string) list \<Rightarrow> memory \<Rightarrow> bool list" where
  "absRun r cap [] mem = []"
| "absRun r cap ((now, key) # calls) mem =
     (let (ans, mem1) = absAllow r cap now key mem in fst ans # absRun r cap calls mem1)"

definition simulates :: "instant \<Rightarrow> Limiter \<Rightarrow> memory \<Rightarrow> bool" where
  "simulates T l mem \<longleftrightarrow>
     (\<forall>k. fmlookup (buckets l) k = mem k \<or>
          fmlookup (buckets l) k = None \<and>
          (\<exists>b. mem k = Some b \<and> bucket_ok (burst l) b \<and> ttl l < timeSub T (stamp b)))"

lemma refill_full:
  assumes "bucket_ok (burst l) b" and "limiter_ok l" and "refills_before_sweep l"
    and "ttl l < timeSub now (stamp b)"
  shows "refill (rate l) (burst l) now b = \<lparr>tokens = burst l, stamp = now\<rparr>"
proof -
  let ?d = "timeSub now (stamp b)" and ?n = "of_int (ttl l div second) :: rat"
  have "0 \<le> ttl l" using assms(3) by (simp add: refills_before_sweep_def)
  with assms(4) have d: "0 < ?d" by linarith
  have r: "0 < rate l" and cap: "rnd64 (burst l) = burst l" "1 \<le> burst l"
    using assms(2) by (auto simp: limiter_ok_def)
  have "ttl l div second \<le> ?d div second"
    using assms(4) by (intro zdiv_mono1) (auto simp: second_def)
  then have "rnd64 ?n \<le> rnd64 (of_int (?d div second))"
    by (intro rnd64_mono) (simp only: of_int_le_iff)
  moreover have "0 \<le> rnd64 (rnd64 (of_int (?d mod second)) / 1000000000)"
    by (simp add: second_def)
  ultimately have e: "rnd64 (rnd64 ?n) \<le> durationSeconds ?d"
    unfolding durationSeconds_def if_P [OF less_imp_le [OF d]] secondsPos_def
    by (intro rnd64_mono) linarith
  have n: "rnd64 ?n = ?n"
  proof -
    have "0 \<le> ttl l div second" "nat (ttl l div second) \<le> 2 ^ 53"
      using assms(3) by (auto simp: refills_before_sweep_def second_def pos_imp_zdiv_nonneg_iff)
    then show ?thesis using rnd64_of_nat [of "nat (ttl l div second)"] by simp
  qed
  have "burst l \<le> rate l * ?n" using assms(3) by (simp add: refills_before_sweep_def)
  also have "\<dots> \<le> durationSeconds ?d * rate l"
    using e n r by (simp add: mult.commute mult_left_mono)
  finally have "rnd64 (burst l) \<le> rnd64 (durationSeconds ?d * rate l)" by (rule rnd64_mono)
  then have "burst l \<le> tokens b + rnd64 (durationSeconds ?d * rate l)"
    using assms(1) cap by (simp add: bucket_ok_def)
  then have "rnd64 (burst l) \<le> rnd64 (tokens b + rnd64 (durationSeconds ?d * rate l))"
    by (rule rnd64_mono)
  moreover have "0 < durationSeconds ?d" using d by simp
  ultimately show ?thesis
    using cap d by (simp add: refill_def Let_def)
qed

lemma simulates_current:
  assumes "simulates T l mem" and "limiter_ok l" and "refills_before_sweep l" and "T \<le> now"
  shows "current now key l = absCurrent (rate l) (burst l) now (mem key)"
proof -
  have full: "absCurrent (rate l) (burst l) now (mem key) = \<lparr>tokens = burst l, stamp = now\<rparr>"
    if "mem key = Some b" "bucket_ok (burst l) b" "ttl l < timeSub now (stamp b)" for b
    using refill_full [OF that(2) assms(2,3) that(3)] that(1) by (simp add: absCurrent_def)
  have mono: "timeSub T u \<le> timeSub now u" for u
    using assms(4) by (simp add: timeSub_def)
  consider (same) "fmlookup (buckets l) key = mem key"
    | (gone) b where "fmlookup (buckets l) key = None" "mem key = Some b" "bucket_ok (burst l) b"
        "ttl l < timeSub T (stamp b)"
    using assms(1) by (auto simp: simulates_def)
  then show ?thesis
  proof cases
    case gone
    then have "ttl l < timeSub now (stamp b)" using mono [of "stamp b"] by linarith
    with gone full show ?thesis by (simp add: current_def sweepLocked_lookup)
  next
    case same
    show ?thesis
    proof (cases "mem key")
      case None
      with same show ?thesis by (simp add: current_def sweepLocked_lookup absCurrent_def)
    next
      case (Some b)
      with same have "bucket_ok (burst l) b" using limiter_ok_lookup [OF assms(2)] by simp
      with Some same full [of b] show ?thesis
        by (auto simp: current_def sweepLocked_lookup absCurrent_def)
    qed
  qed
qed

lemma simulates_step:
  assumes "simulates T l mem" and "limiter_ok l" and "refills_before_sweep l" and "T \<le> now"
    and "Allow now key l = (ans, l')"
  shows "\<exists>mem'. absAllow (rate l) (burst l) now key mem = (ans, mem') \<and> simulates now l' mem'"
proof -
  let ?b = "absCurrent (rate l) (burst l) now (mem key)"
  have cur: "current now key l = ?b" by (rule simulates_current [OF assms(1-4)])
  have mono: "timeSub T u \<le> timeSub now u" for u
    using assms(4) by (simp add: timeSub_def)
  have l': "l' = (sweepLocked now l)\<lparr>buckets := fmupd key (spend ?b) (buckets (sweepLocked now l))\<rparr>"
    and ans: "ans = (1 \<le> tokens ?b, if 1 \<le> tokens ?b then 0 else retryAfter (rate l) (tokens ?b))"
    using assms(5) by (auto simp: Allow_eq Let_def cur)
  have "simulates now l' (mem(key := Some (spend ?b)))"
    unfolding simulates_def
  proof
    fix k
    let ?goal = "fmlookup (buckets l') k = (mem(key := Some (spend ?b))) k \<or>
      fmlookup (buckets l') k = None \<and> (\<exists>b. (mem(key := Some (spend ?b))) k = Some b \<and>
        bucket_ok (burst l') b \<and> ttl l' < timeSub now (stamp b))"
    consider (key) "k = key" | (same) "k \<noteq> key" "fmlookup (buckets l) k = mem k"
      | (gone) b where "k \<noteq> key" "fmlookup (buckets l) k = None" "mem k = Some b"
          "bucket_ok (burst l) b" "ttl l < timeSub T (stamp b)"
      using assms(1) unfolding simulates_def by blast
    then show ?goal
    proof cases
      case key
      then show ?thesis by (simp add: l')
    next
      case same
      then show ?thesis
        using limiter_ok_lookup [OF assms(2), of k]
        by (cases "mem k") (simp_all add: l' sweepLocked_lookup)
    next
      case gone
      have "ttl l < timeSub now (stamp b)" using gone(5) mono [of "stamp b"] by linarith
      with gone show ?thesis by (simp add: l' sweepLocked_lookup)
    qed
  qed
  then show ?thesis by (simp add: absAllow_def Let_def ans)
qed

lemma allowRun_refines:
  assumes "simulates T l mem" and "limiter_ok l" and "refills_before_sweep l"
    and "sorted (map fst calls)" and "\<forall>c\<in>set calls. T \<le> fst c"
  shows "fst (allowRun calls l) = absRun (rate l) (burst l) calls mem"
  using assms
proof (induction calls arbitrary: T l mem)
  case Nil
  then show ?case by simp
next
  case (Cons c calls)
  obtain now key where c: "c = (now, key)" by force
  obtain ans l1 where A: "Allow now key l = (ans, l1)" by (cases "Allow now key l")
  have f: "rate l1 = rate l" "burst l1 = burst l" "ttl l1 = ttl l" using Allow_fields [OF A] by auto
  have ok1: "limiter_ok l1" using Allow_invariant [OF Cons.prems(2), of now key] A by simp
  have rb1: "refills_before_sweep l1" using Cons.prems(3) f by (simp add: refills_before_sweep_def)
  have "T \<le> now" using Cons.prems(5) c by simp
  from simulates_step [OF Cons.prems(1-3) this A] obtain mem1
    where "absAllow (rate l) (burst l) now key mem = (ans, mem1)" and "simulates now l1 mem1" by blast
  then show ?case
    using Cons.IH [of now l1 mem1] ok1 rb1 Cons.prems(4) f
    by (auto simp: c A split: prod.splits)
qed

subsection \<open>Waiting as told\<close>






subsection \<open>The interface the servers rely on\<close>

text \<open>
  What \<^verbatim>\<open>ExchangeCode\<close> and the admin middleware need of a limiter: an invariant every call keeps,
  no wait on success, and a wait of at least one whole second on refusal.
\<close>

locale keyed_limiter =
  fixes allow :: "instant \<Rightarrow> string \<Rightarrow> 'l \<Rightarrow> (bool \<times> duration) \<times> 'l"
    and inv :: "'l \<Rightarrow> bool"
  assumes inv_allow: "inv l \<Longrightarrow> inv (snd (allow now k l))"
    and answer: "fst (allow now k l) = (ok, w) \<Longrightarrow>
      ok \<and> w = 0 \<or> \<not> ok \<and> 0 < w \<and> w mod second = 0"
begin

lemma inv_calls: "inv l \<Longrightarrow> inv (foldl (\<lambda>l (now, k). snd (allow now k l)) l calls)"
  by (induction calls arbitrary: l) (auto intro: inv_allow)

lemma denied_whole_seconds:
  assumes "fst (allow now k l) = (False, w)"
  shows "1 \<le> w div second \<and> w = w div second * second"
proof -
  from answer [OF assms] have "0 < w" "w mod second = 0" by auto
  then have eq: "w = w div second * second"
    by (metis add.right_neutral div_mult_mod_eq)
  with \<open>0 < w\<close> have "0 < w div second * second" by simp
  then have "0 < w div second" by (simp add: zero_less_mult_iff second_def)
  with eq show ?thesis by simp
qed

end

interpretation limiter: keyed_limiter Allow limiter_ok
  by unfold_locales (simp_all add: Allow_invariant Allow_answer)

subsection \<open>Properties\<close>

lemma allowRun_snd: "snd (allowRun calls l) = foldl (\<lambda>l (now, k). snd (Allow now k l)) l calls"
  by (induction calls l rule: allowRun.induct) (auto split: prod.splits)

text \<open>
  C38: bucket levels stay in range. Whatever calls are made, in whatever order and with whatever
  clock readings, every bucket of a limiter built by \<^const>\<open>newLimiter\<close> holds between zero and
  \<^verbatim>\<open>burst\<close> tokens, also under floating-point rounding.
\<close>

theorem limiter_tokens_in_range:
  assumes "rnd64 cap = cap"
  shows "let l = snd (allowRun calls (newLimiter r cap)) in
    \<forall>k b. fmlookup (buckets l) k = Some b \<longrightarrow> 0 \<le> tokens b \<and> tokens b \<le> burst l"
proof -
  have "limiter_ok (snd (allowRun calls (newLimiter r cap)))"
    unfolding allowRun_snd using newLimiter_ok [OF assms] by (rule limiter.inv_calls)
  then show ?thesis by (auto simp: Let_def bucket_ok_def dest: limiter_ok_lookup)
qed

theorem limiter_tokens_in_range_witness:
  "let l = snd (allowRun [(0, ''a''), (1, ''a'')] (newLimiter 1 2)) in
    \<forall>k b. fmlookup (buckets l) k = Some b \<longrightarrow> 0 \<le> tokens b \<and> tokens b \<le> burst l"
  by (rule limiter_tokens_in_range) (simp add: rnd64_numeral)

text \<open>
  C12: the sustained rate. In any window of time the number of calls granted to one key is at most
  the burst plus the refill of the window, up to the rounding error of the float arithmetic
  (a relative \<open>2^-53\<close> per operation); neither other keys nor the sweep of idle buckets add to it.
\<close>

theorem limiter_rate_bound:
  assumes "limiter_ok l" and "refills_before_sweep l"
    and "sorted (map fst calls)" and "\<forall>c\<in>set calls. T \<le> fst c \<and> fst c \<le> T'" and "T \<le> T'"
  shows "of_nat (grantedTo k calls l) \<le>
    burst l + c5 * rate l * (of_int (T' - T) / 1000000000) + 2 * ulp1 * burst l * of_nat (length calls)"
  using grantedTo_level [OF assms, of k] level_le_burst [of T k l] by linarith

theorem limiter_rate_bound_witness:
  "of_nat (grantedTo ''a'' [(0, ''a''), (0, ''a''), (0, ''a'')] (newLimiter 1 2)) \<le>
    2 + c5 * 1 * (of_int (0 - 0) / 1000000000) + 2 * ulp1 * 2 * of_nat 3"
proof -
  have h: "limiter_ok (newLimiter 1 2)" by (rule newLimiter_ok) (simp add: rnd64_numeral)
  have h': "refills_before_sweep (newLimiter 1 2)"
    by (simp add: refills_before_sweep_def newLimiter_def duration_defs)
  have "burst (newLimiter 1 2) = 2" "rate (newLimiter 1 2) = 1" by (simp_all add: newLimiter_def)
  then show ?thesis
    using limiter_rate_bound [OF h h', of "[(0, ''a''), (0, ''a''), (0, ''a'')]" 0 0 "''a''"] by simp
qed

text \<open>
  C37: the sweep is invisible. For calls in time order, the limiter answers exactly like the
  specification that keeps every bucket for ever, provided a bucket refills within the sweep's
  idle limit.
\<close>

theorem limiter_sweep_transparent:
  assumes "limiter_ok (newLimiter r cap)" and "refills_before_sweep (newLimiter r cap)"
    and "sorted (map fst calls)"
  shows "fst (allowRun calls (newLimiter r cap)) =
    absRun (rate (newLimiter r cap)) (burst (newLimiter r cap)) calls (\<lambda>_. None)"
proof (cases calls)
  case Nil
  then show ?thesis by simp
next
  case (Cons c cs)
  have "simulates (fst c) (newLimiter r cap) (\<lambda>_. None)"
    by (simp add: simulates_def newLimiter_def)
  moreover have "\<forall>d\<in>set calls. fst c \<le> fst d" using assms(3) Cons by auto
  ultimately show ?thesis using allowRun_refines assms by blast
qed

theorem limiter_sweep_transparent_witness:
  "fst (allowRun [(0, ''a''), (700 * second, ''b''), (1400 * second, ''a'')] (newLimiter 1 2)) =
    absRun (rate (newLimiter 1 2)) (burst (newLimiter 1 2))
      [(0, ''a''), (700 * second, ''b''), (1400 * second, ''a'')] (\<lambda>_. None)"
proof (rule limiter_sweep_transparent)
  show "limiter_ok (newLimiter 1 2)" by (rule newLimiter_ok) (simp add: rnd64_numeral)
  show "refills_before_sweep (newLimiter 1 2)"
    by (simp add: refills_before_sweep_def newLimiter_def duration_defs)
qed (simp add: second_def)



definition drained :: Limiter where
  "drained = snd (Allow 0 ''a'' (newLimiter 1 1))"




text \<open>
  Keys are independent. A call on one key leaves the bucket of every other key as it was, or
  drops it when it has been idle longer than the limit.
\<close>

theorem limiter_key_isolation:
  assumes "Allow now key l = (ans, l')" and "k \<noteq> key"
  shows "fmlookup (buckets l') k = fmlookup (buckets l) k \<or>
    fmlookup (buckets l') k = None \<and> (\<exists>b. fmlookup (buckets l) k = Some b \<and> ttl l < timeSub now (stamp b))"
  using assms by (auto simp: Allow_eq Let_def sweepLocked_lookup split: option.splits if_splits)

theorem limiter_key_isolation_witness:
  "let l' = snd (Allow 0 ''b'' drained) in
   fmlookup (buckets l') ''a'' = fmlookup (buckets drained) ''a'' \<or>
   fmlookup (buckets l') ''a'' = None \<and>
     (\<exists>b. fmlookup (buckets drained) ''a'' = Some b \<and> ttl drained < timeSub 0 (stamp b))"
  using limiter_key_isolation [of 0 "''b''" drained "fst (Allow 0 ''b'' drained)" "snd (Allow 0 ''b'' drained)" "''a''"]
  by (simp add: Let_def)

end
