(* ===== verification/Secure_Http.thy ===== *)
theory Secure_Http
  imports Runtime_Config
begin

text \<open>
  \<^verbatim>\<open>internal/oidc/securehttp.go\<close> (the dial-time address policy of the SSRF-hardened client) and
  \<^verbatim>\<open>internal/oidc/provider.go\<close> (construction of the provider from the configuration). The HTTP
  transport itself, TLS and go-oidc's discovery are outside: discovery is the parameter
  \<open>discover\<close>, given the loopback permission of the client it runs on and the issuer URL.
\<close>

unbundle bit_operations_syntax

subsection \<open>securehttp.go\<close>

definition metadataIP :: ip where "metadataIP = IPv4 169 254 169 254"

definition isBlockedIP :: "ip \<Rightarrow> bool \<Rightarrow> bool" where
  "isBlockedIP ip allowLoopback =
     (if IsUnspecified ip then True
      else if IsLoopback ip then \<not> allowLoopback
      else if IsLinkLocalUnicast ip \<or> IsLinkLocalMulticast ip then True
      else if IsPrivate ip then True
      else if IPEqual ip metadataIP then True
      else False)"

datatype dial_error = UnresolvedAddress string | DisallowedRange ip

text \<open>The \<^verbatim>\<open>Control\<close> hook: called with the resolved address right before each connect.\<close>

definition control :: "string \<Rightarrow> bool \<Rightarrow> dial_error check" where
  "control address allow =
     (let host = (case SplitHostPort address of Err _ \<Rightarrow> address | Ok (h, _) \<Rightarrow> h) in
      case ParseIP host of
        None \<Rightarrow> Some (UnresolvedAddress address)
      | Some ip \<Rightarrow> if isBlockedIP ip allow then Some (DisallowedRange ip) else None)"

subsection \<open>provider.go\<close>

definition supportedSigningAlgs :: "string list" where
  "supportedSigningAlgs = [''RS256'', ''ES256'', ''PS256'']"

record NewArgs =
  na_IssuerURL :: string
  na_ClientID :: string
  na_ClientSecret :: string
  na_Scopes :: string
  na_RedirectURL :: string
  na_AllowLoopback :: bool

record oauth2_config =
  oc_ClientID :: string
  oc_ClientSecret :: string
  oc_Endpoint :: "string \<times> string"
  oc_Scopes :: "string list"
  oc_RedirectURL :: string

text \<open>What discovery found: the issuer and the authorization and token endpoints.\<close>

record discovered =
  dc_Issuer :: string
  dc_Endpoint :: "string \<times> string"

record verifier =
  vf_Issuer :: string
  vf_ClientID :: string
  vf_SupportedSigningAlgs :: "string list"

record Provider =
  pv_provider :: discovered
  pv_verifier :: verifier
  pv_oauth2Config :: oauth2_config
  pv_clientAllowsLoopback :: bool

definition NewProvider ::
  "(bool \<Rightarrow> string \<Rightarrow> (string, discovered) result) \<Rightarrow> NewArgs \<Rightarrow> (string, Provider) result" where
  "NewProvider discover args =
     (case discover (na_AllowLoopback args) (na_IssuerURL args) of
        Err e \<Rightarrow> Err (''oidc discovery: '' @ e)
      | Ok prov \<Rightarrow>
          let scopes = strFields (na_Scopes args);
              scopes' = (if length scopes = 0 then [''openid'', ''profile'', ''email''] else scopes)
          in Ok \<lparr>pv_provider = prov,
                 pv_verifier = \<lparr>vf_Issuer = dc_Issuer prov, vf_ClientID = na_ClientID args,
                   vf_SupportedSigningAlgs = supportedSigningAlgs\<rparr>,
                 pv_oauth2Config = \<lparr>oc_ClientID = na_ClientID args, oc_ClientSecret = na_ClientSecret args,
                   oc_Endpoint = dc_Endpoint prov, oc_Scopes = scopes', oc_RedirectURL = na_RedirectURL args\<rparr>,
                 pv_clientAllowsLoopback = na_AllowLoopback args\<rparr>)"

subsection \<open>The blocked networks\<close>

text \<open>
  The policy as data: networks as base address and byte mask over the 16-byte form.
\<close>

definition in_net :: "ip \<times> ip \<Rightarrow> ip \<Rightarrow> bool" where
  "in_net = (\<lambda>(base, msk) ip. map2 (AND) ip msk = base)"

definition net4 :: "8 word list \<Rightarrow> 8 word list \<Rightarrow> ip \<times> ip" where
  "net4 base msk = (v4InV6Prefix @ base, replicate 12 0xff @ msk)"

definition net6 :: "8 word list \<Rightarrow> 8 word list \<Rightarrow> ip \<times> ip" where
  "net6 base msk = (base @ replicate (16 - length base) 0, msk @ replicate (16 - length msk) 0)"

definition loopback_nets :: "(ip \<times> ip) list" where
  "loopback_nets = [net4 [127, 0, 0, 0] [0xff, 0, 0, 0], net6 (replicate 15 0 @ [1]) (replicate 16 0xff)]"

definition blocked_nets :: "(ip \<times> ip) list" where
  "blocked_nets =
     [net4 [0, 0, 0, 0] [0xff, 0xff, 0xff, 0xff], net6 [] (replicate 16 0xff),
      net4 [10, 0, 0, 0] [0xff, 0, 0, 0], net4 [172, 16, 0, 0] [0xff, 0xf0, 0, 0],
      net4 [192, 168, 0, 0] [0xff, 0xff, 0, 0], net4 [169, 254, 0, 0] [0xff, 0xff, 0, 0],
      net4 [224, 0, 0, 0] [0xff, 0xff, 0xff, 0],
      net6 [0xfc] [0xfe], net6 [0xfe, 0x80] [0xff, 0xc0], net6 [0xff, 0x02] [0xff, 0x0f]]"

lemma and_ff [simp]: "w AND 0xff = w" for w :: "8 word"
proof -
  have "(0xff :: 8 word) = - 1" by simp
  then show ?thesis by (simp only: and.right_neutral)
qed

lemma and_ff_list [simp]: "n = length xs \<Longrightarrow> map2 (AND) xs (replicate n 0xff) = xs" for xs :: ip
  by (induction xs arbitrary: n) auto

lemma and_0_list [simp]: "n = length xs \<Longrightarrow> map2 (AND) xs (replicate n 0) = replicate n 0" for xs :: ip
  by (induction xs arbitrary: n) auto

text \<open>Membership in a network looks at the masked head of the address only.\<close>

lemma in_net_net4:
  assumes "length ip = 16" "length msk = 4" "length base = 4"
  shows "in_net (net4 base msk) ip \<longleftrightarrow>
    take 12 ip = v4InV6Prefix \<and> map2 (AND) (drop 12 ip) msk = base"
proof -
  have "map2 (AND) ip (replicate 12 0xff @ msk)
      = map2 (AND) (take 12 ip @ drop 12 ip) (replicate 12 0xff @ msk)" by simp
  also have "\<dots> = take 12 ip @ map2 (AND) (drop 12 ip) msk"
    using assms by (subst zip_append) auto
  finally have eq: "map2 (AND) ip (replicate 12 0xff @ msk) = take 12 ip @ map2 (AND) (drop 12 ip) msk" .
  have "length (take 12 ip) = length v4InV6Prefix" using assms by (simp add: v4InV6Prefix_def)
  with eq show ?thesis by (simp add: in_net_def net4_def append_eq_append_conv)
qed

lemma in_net_net6:
  assumes "length ip = 16" "length msk = length base" "length base \<le> 16"
  shows "in_net (net6 base msk) ip \<longleftrightarrow> map2 (AND) (take (length base) ip) msk = base"
proof -
  let ?n = "length base"
  have "map2 (AND) ip (msk @ replicate (16 - ?n) 0)
      = map2 (AND) (take ?n ip @ drop ?n ip) (msk @ replicate (16 - ?n) 0)" by simp
  also have "\<dots> = map2 (AND) (take ?n ip) msk @ replicate (16 - ?n) 0"
    using assms by (subst zip_append) auto
  finally show ?thesis
    using assms by (auto simp: in_net_def net6_def)
qed

lemma in_net_host6:
  assumes "length ip = 16" "length base = 16"
  shows "in_net (net6 base (replicate 16 0xff)) ip \<longleftrightarrow> ip = base"
  using assms by (simp add: in_net_net6)

lemmas in_nets = in_net_net4 in_net_net6 in_net_host6

lemma isBlockedIP_v4:
  assumes "ip = v4InV6Prefix @ [a, b, c, d]"
  shows "isBlockedIP ip allow \<longleftrightarrow>
    (\<exists>net\<in>set blocked_nets. in_net net ip) \<or> \<not> allow \<and> (\<exists>net\<in>set loopback_nets. in_net net ip)"
proof -
  have len: "length ip = 16" using assms by (simp add: v4InV6Prefix_def)
  have 4: "To4 ip = Some [a, b, c, d]" using len assms by (simp add: To4_def v4InV6Prefix_def)
  have n10: "ip ! 10 = 0xff" using assms by (simp add: v4InV6Prefix_def)
  have "(replicate 16 0 :: ip) ! 10 = 0" "(replicate 15 0 @ [1] :: ip) ! 10 = 0"
    by (simp_all add: nth_append)
  with n10 have 60: "ip \<noteq> replicate 16 0" "ip \<noteq> replicate 15 0 @ [1]" by force+
  have 61: "take (Suc 0) ip = [0]" "take (Suc (Suc 0)) ip = [0, 0]"
    using assms by (auto simp: v4InV6Prefix_def)
  note 6 = 60 61
  have eq: "IPEqual ip (IPv4 w x y z) \<longleftrightarrow> a = w \<and> b = x \<and> c = y \<and> d = z" for w x y z
    using assms by (auto simp: IPEqual_def IPv4_def v4InV6Prefix_def)
  have eq6: "\<not> IPEqual ip IPv6unspecified"
    using len 6 by (simp add: IPEqual_def IPv6unspecified_def)
  have pre: "take 12 ip = v4InV6Prefix" "drop 12 ip = [a, b, c, d]"
    using assms by (auto simp: v4InV6Prefix_def)
  have nz: "net6 [] (replicate 16 0xff) = net6 (replicate 16 0) (replicate 16 0xff)"
    by (simp add: net6_def)
  show ?thesis
    unfolding isBlockedIP_def IsUnspecified_def IsLoopback_def IsPrivate_def metadataIP_def
      IsLinkLocalUnicast_def IsLinkLocalMulticast_def 4 eq
      blocked_nets_def loopback_nets_def nz
    by (simp add: in_nets len pre 6 eq6)
qed

lemma isBlockedIP_v6:
  assumes len: "length ip = 16" and v6: "take 12 ip \<noteq> v4InV6Prefix"
  shows "isBlockedIP ip allow \<longleftrightarrow>
    (\<exists>net\<in>set blocked_nets. in_net net ip) \<or> \<not> allow \<and> (\<exists>net\<in>set loopback_nets. in_net net ip)"
proof -
  have 4: "To4 ip = None" using assms by (simp add: To4_def)
  obtain x y r where ip: "ip = x # y # r" using len by (auto simp: length_Suc_conv numeral_eq_Suc)
  have eq: "\<not> IPEqual ip (IPv4 a b c d)" for a b c d
    using assms by (auto simp: IPEqual_def IPv4_def v4InV6Prefix_def)
  have eq6: "IPEqual ip IPv6unspecified \<longleftrightarrow> ip = replicate 16 0"
     "IPEqual ip IPv6loopback \<longleftrightarrow> ip = replicate 15 0 @ [1]"
    using len by (simp_all add: IPEqual_def IPv6unspecified_def IPv6loopback_def)
  have nz: "net6 [] (replicate 16 0xff) = net6 (replicate 16 0) (replicate 16 0xff)"
    by (simp add: net6_def)
  have hd: "take (Suc 0) ip = [x]" "take (Suc (Suc 0)) ip = [x, y]" "ip ! 0 = x" "ip ! 1 = y" "ip ! Suc 0 = y"
    by (simp_all add: ip)
  have sep: "ip = replicate 15 0 @ [1] \<Longrightarrow> x = 0" by (simp add: ip numeral_eq_Suc)
  have dis: "ip = replicate 15 0 @ [1] \<Longrightarrow> ip \<noteq> replicate 16 0" by (simp add: numeral_eq_Suc)
  show ?thesis
    unfolding isBlockedIP_def IsUnspecified_def IsLoopback_def IsPrivate_def metadataIP_def
      IsLinkLocalUnicast_def IsLinkLocalMulticast_def 4 blocked_nets_def loopback_nets_def nz
    using sep dis by (simp add: in_nets len v6 hd eq eq6)
qed

lemma length4_cases:
  assumes "length xs = 4"
  obtains a b c d where "xs = [a, b, c, d]"
  using assms by (auto simp: length_Suc_conv numeral_eq_Suc)

lemma isBlockedIP_iff:
  assumes len: "length ip = 16"
  shows "isBlockedIP ip allow \<longleftrightarrow>
    (\<exists>net\<in>set blocked_nets. in_net net ip) \<or> \<not> allow \<and> (\<exists>net\<in>set loopback_nets. in_net net ip)"
proof (cases "take 12 ip = v4InV6Prefix")
  case True
  have "length (drop 12 ip) = 4" using len by simp
  then obtain a b c d where "drop 12 ip = [a, b, c, d]" by (rule length4_cases)
  with True have "ip = v4InV6Prefix @ [a, b, c, d]" by (metis append_take_drop_id)
  then show ?thesis by (rule isBlockedIP_v4)
next
  case False
  with len show ?thesis by (rule isBlockedIP_v6)
qed

text \<open>
  What \<^verbatim>\<open>Control\<close> lets through: exactly the addresses that parse and lie in no blocked network.
\<close>

lemma control_None_iff:
  "control address allow = None \<longleftrightarrow>
     (\<exists>ip. ParseIP (case SplitHostPort address of Err _ \<Rightarrow> address | Ok (h, _) \<Rightarrow> h) = Some ip \<and>
        \<not> isBlockedIP ip allow)"
  by (auto simp: control_def Let_def split: option.splits)

lemma isBlockedIP_loopback_only:
  assumes "length ip = 16" "\<not> isBlockedIP ip True" "isBlockedIP ip False"
  shows "\<exists>net\<in>set loopback_nets. in_net net ip"
  using assms by (auto simp: isBlockedIP_iff)

text \<open>
  C13: the dial-time policy is exactly a network table. An address the dialer is about to connect to is
  let through if and only if it parses as an IP that is outside every blocked network (unspecified,
  RFC 1918, ULA, link-local unicast and multicast) and, unless the operator configured a localhost issuer,
  outside the loopback networks.
\<close>

theorem control_network_policy:
  "control address allow = None \<longleftrightarrow>
     (\<exists>ip. ParseIP (case SplitHostPort address of Err _ \<Rightarrow> address | Ok (h, _) \<Rightarrow> h) = Some ip \<and>
        (\<forall>net \<in> set (blocked_nets @ (if allow then [] else loopback_nets)). \<not> in_net net ip))"
proof -
  have "\<not> isBlockedIP ip allow \<longleftrightarrow>
      (\<forall>net \<in> set (blocked_nets @ (if allow then [] else loopback_nets)). \<not> in_net net ip)"
    if "ParseIP h = Some ip" for h ip
    using isBlockedIP_iff [OF ParseIP_length [OF that], of allow] by auto
  then show ?thesis unfolding control_None_iff by metis
qed

theorem control_network_policy_witness:
  "control ''93.184.216.34:443'' False = None \<and>
   list_all (\<lambda>net. \<not> in_net net (IPv4 93 184 216 34)) (blocked_nets @ loopback_nets)"
proof -
  have c: "control ''93.184.216.34:443'' False = None" by code_simp
  have p: "ParseIP (case SplitHostPort ''93.184.216.34:443'' of Err _ \<Rightarrow> ''93.184.216.34:443'' | Ok (h, _) \<Rightarrow> h)
     = Some (IPv4 93 184 216 34)" by code_simp
  from control_network_policy [of "''93.184.216.34:443''" False] c p show ?thesis by (simp add: list_all_iff)
qed

text \<open>
  Relaxing the loopback ban relaxes nothing else. Whatever the operator configured, the cloud
  metadata address is refused under every spelling the dialer can hand over (plain or v4-mapped), and an address that
  is let through only because loopback is allowed lies in a loopback network.
\<close>

theorem control_loopback_only:
  "(ParseIP (case SplitHostPort address of Err _ \<Rightarrow> address | Ok (h, _) \<Rightarrow> h) = Some metadataIP
      \<longrightarrow> control address allow \<noteq> None) \<and>
   (control address True = None \<and> control address False \<noteq> None \<longrightarrow>
      (\<exists>ip. ParseIP (case SplitHostPort address of Err _ \<Rightarrow> address | Ok (h, _) \<Rightarrow> h) = Some ip \<and>
        (\<exists>net \<in> set loopback_nets. in_net net ip))) \<and>
   (control address False = None \<longrightarrow> control address True = None)"
proof (intro conjI impI)
  assume "ParseIP (case SplitHostPort address of Err _ \<Rightarrow> address | Ok (h, _) \<Rightarrow> h) = Some metadataIP"
  moreover have "isBlockedIP metadataIP allow" by (cases allow) code_simp+
  ultimately show "control address allow \<noteq> None" by (simp add: control_None_iff)
next
  assume "control address True = None \<and> control address False \<noteq> None"
  then obtain ip where ip: "ParseIP (case SplitHostPort address of Err _ \<Rightarrow> address | Ok (h, _) \<Rightarrow> h) = Some ip"
    "\<not> isBlockedIP ip True" "isBlockedIP ip False"
    by (auto simp: control_None_iff)
  with isBlockedIP_loopback_only [OF ParseIP_length [OF ip(1)]]
  show "\<exists>ip. ParseIP (case SplitHostPort address of Err _ \<Rightarrow> address | Ok (h, _) \<Rightarrow> h) = Some ip \<and>
      (\<exists>net \<in> set loopback_nets. in_net net ip)" by blast
next
  assume "control address False = None"
  then obtain ip where ip: "ParseIP (case SplitHostPort address of Err _ \<Rightarrow> address | Ok (h, _) \<Rightarrow> h) = Some ip"
    "\<not> isBlockedIP ip False"
    by (auto simp: control_None_iff)
  then have "\<not> isBlockedIP ip True" using isBlockedIP_iff [OF ParseIP_length [OF ip(1)]] by auto
  with ip show "control address True = None" by (auto simp: control_None_iff)
qed

lemma ParseIP_mapped_metadata: "ParseIP ''::ffff:169.254.169.254'' = Some metadataIP"
proof -
  have q: "parseIPv4Fields ''169.254.169.254'' 0 0 [] = Some [169, 254, 169, 254]" by code_simp
  have "parseGroups ''ffff:169.254.169.254'' [] (Some 0) = Some ([], [255, 255, 169, 254, 169, 254], Some 0)"
    using q by (simp del: parseIPv4Fields.simps add: parseGroups_unfolded hexDigit_def)
  then show ?thesis
    by (simp add: ParseIP_def parseIPv6_def hasPrefix_def expandEllipsis_def metadataIP_def IPv4_def
        v4InV6Prefix_def numeral_eq_Suc)
qed

theorem control_loopback_only_witness:
  "control ''[::ffff:169.254.169.254]:80'' True \<noteq> None \<and>
   (\<exists>net \<in> set loopback_nets. in_net net (IPv4 127 0 0 1)) \<and>
   control ''93.184.216.34:443'' True = None"
proof -
  have m: "ParseIP (case SplitHostPort ''[::ffff:169.254.169.254]:80'' of
      Err _ \<Rightarrow> ''[::ffff:169.254.169.254]:80'' | Ok (h, _) \<Rightarrow> h) = Some metadataIP"
  proof -
    have "SplitHostPort ''[::ffff:169.254.169.254]:80'' = Ok (''::ffff:169.254.169.254'', ''80'')" by code_simp
    then show ?thesis by (simp only: sum.case prod.case ParseIP_mapped_metadata)
  qed
  have l: "control ''127.0.0.1:5556'' True = None" "control ''127.0.0.1:5556'' False \<noteq> None"
    by code_simp+
  have p: "ParseIP (case SplitHostPort ''127.0.0.1:5556'' of Err _ \<Rightarrow> ''127.0.0.1:5556'' | Ok (h, _) \<Rightarrow> h)
     = Some (IPv4 127 0 0 1)" by code_simp
  have o: "control ''93.184.216.34:443'' False = None" by code_simp
  note law = control_loopback_only
  have 1: "control ''[::ffff:169.254.169.254]:80'' True \<noteq> None"
    by (rule law [THEN conjunct1, rule_format, OF m])
  have 2: "\<exists>net \<in> set loopback_nets. in_net net (IPv4 127 0 0 1)"
    using law [THEN conjunct2, THEN conjunct1, rule_format, OF conjI [OF l]] unfolding p option.inject
    by blast
  have 3: "control ''93.184.216.34:443'' True = None"
    by (rule law [THEN conjunct2, THEN conjunct2, rule_format, OF o])
  from 1 2 3 show ?thesis by blast
qed

subsection \<open>Provider construction\<close>

lemma NewProvider_Ok_iff:
  "NewProvider discover args = Ok p \<longleftrightarrow>
     (\<exists>prov. discover (na_AllowLoopback args) (na_IssuerURL args) = Ok prov \<and>
        p = \<lparr>pv_provider = prov,
             pv_verifier = \<lparr>vf_Issuer = dc_Issuer prov, vf_ClientID = na_ClientID args,
               vf_SupportedSigningAlgs = supportedSigningAlgs\<rparr>,
             pv_oauth2Config = \<lparr>oc_ClientID = na_ClientID args, oc_ClientSecret = na_ClientSecret args,
               oc_Endpoint = dc_Endpoint prov,
               oc_Scopes = (if strFields (na_Scopes args) = [] then [''openid'', ''profile'', ''email'']
                 else strFields (na_Scopes args)), oc_RedirectURL = na_RedirectURL args\<rparr>,
             pv_clientAllowsLoopback = na_AllowLoopback args\<rparr>)"
  by (cases "discover (na_AllowLoopback args) (na_IssuerURL args)")
     (auto simp: NewProvider_def Let_def)

end
