(* ===== verification/Audit_Log.thy ===== *)
theory Audit_Log
  imports Prelude
begin

text \<open>
  \<^verbatim>\<open>internal/audit/audit.go\<close>: the decision codes and the two kinds of audit record. The sink
  (\<^verbatim>\<open>hclog\<close>) is the list of records written so far, newest last; a nil \<^verbatim>\<open>*Logger\<close> is
  \<^const>\<open>None\<close> and writes nothing.
\<close>

datatype Reason =
    ReasonSuccess
  | ReasonStateMismatch
  | ReasonNonceMismatch
  | ReasonEmailUnverified
  | ReasonClaimFilterReject
  | ReasonExchangeFailed
  | ReasonVerifyFailed
  | ReasonRedirectMismatch
  | ReasonStaleState
  | ReasonReplay
  | ReasonInvalidProviderArgs
  | ReasonRateLimited
  | ReasonNotConfigured
  | ReasonSubjectMismatch
  | ReasonMissingSubject

fun reasonString :: "Reason \<Rightarrow> string" where
  "reasonString ReasonSuccess = ''success''"
| "reasonString ReasonStateMismatch = ''state-mismatch''"
| "reasonString ReasonNonceMismatch = ''nonce-mismatch''"
| "reasonString ReasonEmailUnverified = ''email-unverified''"
| "reasonString ReasonClaimFilterReject = ''claim-filter-rejected''"
| "reasonString ReasonExchangeFailed = ''exchange-failed''"
| "reasonString ReasonVerifyFailed = ''verify-failed''"
| "reasonString ReasonRedirectMismatch = ''redirect-uri-mismatch''"
| "reasonString ReasonStaleState = ''state-expired''"
| "reasonString ReasonReplay = ''replay-detected''"
| "reasonString ReasonInvalidProviderArgs = ''invalid-provider-state''"
| "reasonString ReasonRateLimited = ''rate-limited''"
| "reasonString ReasonNotConfigured = ''not-configured''"
| "reasonString ReasonSubjectMismatch = ''subject-mismatch''"
| "reasonString ReasonMissingSubject = ''missing-subject''"

datatype level = Info | Warn

datatype arg = AString string | ABool bool

record entry =
  en_level :: level
  en_msg :: string
  en_args :: "(string \<times> arg) list"

type_synonym log = "entry list"

text \<open>The tag every record carries (\<^verbatim>\<open>With(\"component\", \"audit\")\<close>).\<close>

record Logger = lg_component :: string

definition NewLogger :: Logger where
  "NewLogger = \<lparr>lg_component = ''audit''\<rparr>"

text \<open>\<^verbatim>\<open>if s != \"\" { args = append(args, key, s) }\<close>\<close>

definition optArg :: "string \<Rightarrow> string \<Rightarrow> (string \<times> arg) list" where
  "optArg key s = (if s \<noteq> [] then [(key, AString s)] else [])"

definition AuthDecision ::
  "Logger option \<Rightarrow> bool \<Rightarrow> Reason \<Rightarrow> string \<Rightarrow> string \<Rightarrow> string \<Rightarrow> log \<Rightarrow> log" where
  "AuthDecision l allowed reason sub actor peer log =
     (case l of
        None \<Rightarrow> log
      | Some lg \<Rightarrow>
          let args = [(''event'', AString ''auth_decision''), (''allowed'', ABool allowed),
                      (''reason'', AString (reasonString reason))]
                @ optArg ''sub'' sub @ optArg ''actor'' actor @ optArg ''peer'' peer
          in log @ [\<lparr>en_level = (if allowed then Info else Warn), en_msg = ''oidc auth decision'',
               en_args = (''component'', AString (lg_component lg)) # args\<rparr>])"

definition ConfigMutation ::
  "Logger option \<Rightarrow> string \<Rightarrow> string \<Rightarrow> string \<Rightarrow> bool \<Rightarrow> log \<Rightarrow> log" where
  "ConfigMutation l actor oldIssuer newIssuer secretChanged log =
     (case l of
        None \<Rightarrow> log
      | Some lg \<Rightarrow> log @ [\<lparr>en_level = Info, en_msg = ''oidc admin config mutation'',
          en_args = [(''component'', AString (lg_component lg)),
            (''event'', AString ''config_mutation''), (''actor'', AString actor),
            (''issuer_url_before'', AString oldIssuer), (''issuer_url_after'', AString newIssuer),
            (''secret_changed'', ABool secretChanged)]\<rparr>])"

subsection \<open>Facts\<close>

lemma reasonString_inject: "reasonString r = reasonString r' \<longleftrightarrow> r = r'"
  by (cases r; cases r') simp_all

text \<open>The value recorded for a key, empty when the key is absent.\<close>

definition argString :: "string \<Rightarrow> entry \<Rightarrow> string" where
  "argString key e = (case map_of (en_args e) key of Some (AString s) \<Rightarrow> s | _ \<Rightarrow> [])"

lemma map_of_optArg: "map_of (optArg key s) key' = (if key' = key \<and> s \<noteq> [] then Some (AString s) else None)"
  by (simp add: optArg_def)

lemma AuthDecision_Some:
  obtains e where "AuthDecision (Some lg) allowed reason sub actor peer log = log @ [e]"
    "(en_level e = Info) = allowed" "argString ''reason'' e = reasonString reason"
    "argString ''sub'' e = sub" "argString ''actor'' e = actor" "argString ''peer'' e = peer"
    "argString ''event'' e = ''auth_decision''"
  by (simp add: AuthDecision_def argString_def map_add_def map_of_optArg split: option.splits)

lemma AuthDecision_nil [simp]: "AuthDecision None allowed reason sub actor peer log = log"
  by (simp add: AuthDecision_def)

lemma AuthDecision_length [simp]:
  "length (AuthDecision (Some lg) allowed reason sub actor peer log) = Suc (length log)"
  by (simp add: AuthDecision_def Let_def)

text \<open>
  An audit record is a faithful account of the decision. A call on a non-nil logger appends exactly one
  record and keeps the earlier ones, and the record determines the outcome, the reason code, the subject, the
  actor and the peer: two different decisions never leave the same record.
\<close>

theorem AuthDecision_injective:
  "(\<exists>e. AuthDecision (Some lg) allowed reason sub actor peer log = log @ [e]) \<and>
   (AuthDecision (Some lg) allowed reason sub actor peer log =
      AuthDecision (Some lg) allowed' reason' sub' actor' peer' log
    \<longrightarrow> allowed' = allowed \<and> reason' = reason \<and> sub' = sub \<and> actor' = actor \<and> peer' = peer)"
proof (rule AuthDecision_Some [of lg allowed reason sub actor peer log],
    rule AuthDecision_Some [of lg allowed' reason' sub' actor' peer' log], intro conjI impI)
  fix e e'
  assume e: "AuthDecision (Some lg) allowed reason sub actor peer log = log @ [e]"
    "(en_level e = Info) = allowed" "argString ''reason'' e = reasonString reason"
    "argString ''sub'' e = sub" "argString ''actor'' e = actor" "argString ''peer'' e = peer"
    and e': "AuthDecision (Some lg) allowed' reason' sub' actor' peer' log = log @ [e']"
    "(en_level e' = Info) = allowed'" "argString ''reason'' e' = reasonString reason'"
    "argString ''sub'' e' = sub'" "argString ''actor'' e' = actor'" "argString ''peer'' e' = peer'"
  from e(1) show "\<exists>e. AuthDecision (Some lg) allowed reason sub actor peer log = log @ [e]" by blast
  assume "AuthDecision (Some lg) allowed reason sub actor peer log
    = AuthDecision (Some lg) allowed' reason' sub' actor' peer' log"
  then have "e' = e" using e(1) e'(1) by simp
  with e e' show "allowed' = allowed" "reason' = reason" "sub' = sub" "actor' = actor" "peer' = peer"
    by (simp_all only: reasonString_inject [symmetric])
qed

theorem AuthDecision_injective_witness:
  "AuthDecision (Some NewLogger) False ReasonReplay [] [] ''10.0.0.1'' [] \<noteq>
   AuthDecision (Some NewLogger) False ReasonReplay ''10.0.0.1'' [] [] []"
  using AuthDecision_injective [of NewLogger False ReasonReplay "[]" "[]" "''10.0.0.1''" "[]" False ReasonReplay
      "''10.0.0.1''" "[]" "[]"] by blast

end
