(* ===== verification/Base64.thy ===== *)
theory Base64
  imports Prelude
begin

text \<open>
  \<^verbatim>\<open>base64.RawURLEncoding.EncodeToString\<close>, with which \<^verbatim>\<open>internal/auth/server.go\<close> renders the PKCE
  verifier, the nonce and the S256 challenge: the URL-safe alphabet, no padding.
\<close>

definition urlAlphabet :: string where
  "urlAlphabet = ''ABCDEFGHIJKLMNOPQRSTUVWXYZabcdefghijklmnopqrstuvwxyz0123456789-_''"

definition sextet :: "nat \<Rightarrow> char" where
  "sextet i = urlAlphabet ! i"

fun rawURLEncode :: "8 word list \<Rightarrow> string" where
  "rawURLEncode [] = []"
| "rawURLEncode [a] = [sextet (unat a div 4), sextet (unat a mod 4 * 16)]"
| "rawURLEncode [a, b] =
     [sextet (unat a div 4), sextet (unat a mod 4 * 16 + unat b div 16), sextet (unat b mod 16 * 4)]"
| "rawURLEncode (a # b # c # bs) =
     sextet (unat a div 4) # sextet (unat a mod 4 * 16 + unat b div 16)
       # sextet (unat b mod 16 * 4 + unat c div 64) # sextet (unat c mod 64) # rawURLEncode bs"

lemma urlAlphabet_distinct: "distinct urlAlphabet" and urlAlphabet_length: "length urlAlphabet = 64"
  by (simp_all add: urlAlphabet_def)

lemma sextet_inject: "i < 64 \<Longrightarrow> j < 64 \<Longrightarrow> sextet i = sextet j \<longleftrightarrow> i = j"
  by (simp add: sextet_def nth_eq_iff_index_eq urlAlphabet_distinct urlAlphabet_length)

lemma sextet_in_alphabet: "i < 64 \<Longrightarrow> sextet i \<in> set urlAlphabet"
  by (simp add: sextet_def urlAlphabet_length)

lemma byte_lt: "unat a < 256" for a :: "8 word"
  using unsigned_less [of a] by simp

lemma sextet_bounds:
  "unat a div 4 < 64" "unat a mod 4 * 16 < 64" "unat a mod 16 * 4 < 64" "unat a mod 64 < 64"
  "unat a mod 4 * 16 + unat b div 16 < 64" "unat a mod 16 * 4 + unat b div 64 < 64" for a b :: "8 word"
  using byte_lt [of a] byte_lt [of b] by linarith+

lemma length_rawURLEncode: "length (rawURLEncode bs) = (length bs * 8 + 5) div 6"
  by (induction bs rule: rawURLEncode.induct) simp_all

lemma rawURLEncode_alphabet: "set (rawURLEncode bs) \<subseteq> set urlAlphabet"
  by (induction bs rule: rawURLEncode.induct) (simp_all add: sextet_in_alphabet sextet_bounds)

text \<open>A byte is determined by the pieces the sextets hold.\<close>

lemma byte_pieces:
  fixes a b :: "8 word"
  shows "unat a div 4 = unat b div 4 \<Longrightarrow> unat a mod 4 = unat b mod 4 \<Longrightarrow> a = b"
    and "unat a div 16 = unat b div 16 \<Longrightarrow> unat a mod 16 = unat b mod 16 \<Longrightarrow> a = b"
    and "unat a div 64 = unat b div 64 \<Longrightarrow> unat a mod 64 = unat b mod 64 \<Longrightarrow> a = b"
  by (metis div_mod_decomp unsigned_word_eqI)+

lemma digits_eq:
  fixes q r q' r' m :: nat
  assumes "r < m" "r' < m"
  shows "q * m + r = q' * m + r' \<longleftrightarrow> q = q' \<and> r = r'"
proof
  assume eq: "q * m + r = q' * m + r'"
  from arg_cong [OF eq, of "\<lambda>x. x div m"] arg_cong [OF eq, of "\<lambda>x. x mod m"] assms
  show "q = q' \<and> r = r'" by simp
qed simp

lemma pieces_16: "x mod 4 * 16 + y div 16 = x' mod 4 * 16 + y' div 16 \<longleftrightarrow>
    x mod 4 = x' mod 4 \<and> y div 16 = y' div 16" if "y < 256" "y' < 256" for x x' y y' :: nat
  using that by (intro digits_eq) simp_all

lemma pieces_64: "x mod 16 * 4 + y div 64 = x' mod 16 * 4 + y' div 64 \<longleftrightarrow>
    x mod 16 = x' mod 16 \<and> y div 64 = y' div 64" if "y < 256" "y' < 256" for x x' y y' :: nat
  using that by (intro digits_eq) simp_all

lemmas pieces = sextet_inject sextet_bounds pieces_16 pieces_64 byte_lt

lemma rawURLEncode_inject: "rawURLEncode bs = rawURLEncode cs \<longleftrightarrow> bs = cs"
proof
  assume "rawURLEncode bs = rawURLEncode cs"
  then show "bs = cs"
  proof (induction bs arbitrary: cs rule: rawURLEncode.induct)
    case 1
    then show ?case by (cases cs rule: rawURLEncode.cases) simp_all
  next
    case (2 a)
    then show ?case by (cases cs rule: rawURLEncode.cases) (simp_all add: pieces byte_pieces(1))
  next
    case (3 a b)
    then show ?case
      by (cases cs rule: rawURLEncode.cases) (auto simp: pieces intro: byte_pieces)
  next
    case (4 a b c bs)
    then show ?case
      by (cases cs rule: rawURLEncode.cases) (auto simp: pieces intro: byte_pieces)
  qed
qed simp

end
