(* ===== verification/Jsonb.thy ===== *)
theory Jsonb
  imports Runtime_Config
begin

text \<open>
  What PostgreSQL's \<^verbatim>\<open>jsonb\<close> column type does to a document: members come back in another order
  and without repeated keys, and a number comes back as a numerically equal one (negative zero becomes zero). Decoding a
  stored configuration therefore gives the configuration back up to \<^verbatim>\<open>reflect.DeepEqual\<close>, which the
  locale \<open>struct_codec\<close> proves once for the three structs involved.
\<close>

primrec unique_keys :: "jdoc \<Rightarrow> bool" where
  "unique_keys DNull = True"
| "unique_keys (DBool b) = True"
| "unique_keys (DNumber f) = True"
| "unique_keys (DString s) = True"
| "unique_keys (DArray ds) = list_all id (map unique_keys ds)"
| "unique_keys (DObject ms) =
     (distinct (map fst ms) \<and> list_all (\<lambda>(k, b). b) (map (map_prod id unique_keys) ms))"

definition stored_as :: "jdoc \<Rightarrow> jdoc \<Rightarrow> bool" where
  "stored_as d d' \<longleftrightarrow> unique_keys d' \<and> deepEqual (to_any d) (to_any d')"

lemma stored_as_scalars:
  "stored_as DNull d' \<longleftrightarrow> d' = DNull"
  "stored_as (DString s) d' \<longleftrightarrow> d' = DString s"
  "stored_as (DBool b) d' \<longleftrightarrow> d' = DBool b"
  by (cases d'; force simp: stored_as_def)+

lemma stored_as_array:
  assumes "stored_as (DArray ds) d'"
  obtains ds' where "d' = DArray ds'" "list_all2 stored_as ds ds'"
proof -
  from assms obtain ds' where d': "d' = DArray ds'"
    by (cases d') (auto simp: stored_as_def)
  with assms have "list_all2 stored_as ds ds'"
    by (auto simp: stored_as_def list_all2_conv_all_nth list_all_length)
  with d' show thesis by (rule that)
qed

lemma lookup_to_any:
  assumes "distinct (map fst ms)"
  shows "fmlookup (fmap_of_list (rev (map (map_prod id to_any) ms))) k = map_option to_any (map_of ms k)"
proof -
  have "distinct (map fst (map (map_prod id to_any) ms))" using assms by (simp add: comp_def)
  then have "map_of (rev (map (map_prod id to_any) ms)) k = map_of (map (map_prod id to_any) ms) k"
    by (simp only: map_of_rev_distinct)
  then show ?thesis by (simp add: fmlookup_of_list map_prod_def id_def map_of_map)
qed

lemma stored_as_object:
  assumes st: "stored_as (DObject ms) d'" and dist: "distinct (map fst ms)"
  obtains ms' where "d' = DObject ms'" "fst ` set ms' = fst ` set ms"
    "\<forall>k e'. (k, e') \<in> set ms' \<longrightarrow> (\<exists>e. (k, e) \<in> set ms \<and> stored_as e e')"
proof -
  from st obtain ms' where d': "d' = DObject ms'"
    by (cases d') (auto simp: stored_as_def)
  with st have dist': "distinct (map fst ms')" and uk: "\<And>k e'. (k, e') \<in> set ms' \<Longrightarrow> unique_keys e'"
    by (auto simp: stored_as_def list_all_iff)
  from st d' have "fmrel deepEqual (fmap_of_list (rev (map (map_prod id to_any) ms)))
      (fmap_of_list (rev (map (map_prod id to_any) ms')))"
    by (simp add: stored_as_def deepEqual_JObject [symmetric] del: deepEqual.simps)
  then have rel: "rel_option deepEqual (map_option to_any (map_of ms k)) (map_option to_any (map_of ms' k))" for k
    using fmrelD [of deepEqual _ _ k] by (force simp: lookup_to_any [OF dist] lookup_to_any [OF dist'])
  have "dom (map_of ms') = dom (map_of ms)"
    using rel by (force simp: dom_def option_rel_Some1 option_rel_Some2 elim: option.rel_cases)
  then have keys: "fst ` set ms' = fst ` set ms" by (simp add: dom_map_of_conv_image_fst)
  have mem: "\<exists>e. (k, e) \<in> set ms \<and> stored_as e e'" if "(k, e') \<in> set ms'" for k e'
  proof -
    from that dist' have "map_of ms' k = Some e'" by simp
    with rel [of k] obtain e where "map_of ms k = Some e" "deepEqual (to_any e) (to_any e')"
      by (cases "map_of ms k") auto
    with uk [OF that] show ?thesis by (auto simp: stored_as_def dest: map_of_SomeD)
  qed
  from that d' keys mem show thesis by blast
qed

text \<open>
  A struct codec: every member of the encoding, as stored, sets its own field to an equivalent value and leaves
  the other fields alone. Then decoding all of them in whatever order gives an equivalent struct.
\<close>

locale struct_codec =
  fixes names :: "string list"
    and set_field :: "string \<Rightarrow> jdoc \<Rightarrow> 'r \<Rightarrow> (json_error, 'r) result"
    and members :: "'r \<Rightarrow> (string \<times> jdoc) list"
    and same_field :: "string \<Rightarrow> 'r \<Rightarrow> 'r \<Rightarrow> bool"
  assumes keys: "map fst (members r) = names"
    and distinct_names: "distinct names"
    and exact: "k \<in> set names \<Longrightarrow> field_of names k = Some k"
    and member: "(k, d) \<in> set (members r) \<Longrightarrow> stored_as d d' \<Longrightarrow>
      \<exists>x'. set_field k d' x = Ok x' \<and> same_field k r x' \<and> (\<forall>k'. same_field k' r x \<longrightarrow> same_field k' r x')"
begin

lemma decode_members:
  assumes "\<forall>k e'. (k, e') \<in> set ms' \<longrightarrow> (\<exists>e. (k, e) \<in> set (members r) \<and> stored_as e e')"
    and "\<forall>k\<in>K. same_field k r x"
  shows "\<exists>x'. decode_struct names set_field (DObject ms') x = Ok x' \<and>
    (\<forall>k \<in> K \<union> fst ` set ms'. same_field k r x')"
  using assms
proof (induction ms' arbitrary: K x)
  case Nil
  then show ?case by simp
next
  case (Cons m ms')
  obtain k e' where m: "m = (k, e')" by force
  then obtain e where e: "(k, e) \<in> set (members r)" "stored_as e e'" using Cons.prems(1) by auto
  then have "k \<in> set names" using keys by (metis fst_conv image_eqI list.set_map)
  then have key: "field_of names k = Some k" by (rule exact)
  obtain x1 where x1: "set_field k e' x = Ok x1" "\<forall>k' \<in> insert k K. same_field k' r x1"
    using member [OF e, of x] Cons.prems(2) by auto
  then show ?case
    using Cons.IH [of "insert k K" x1] Cons.prems(1) m key by auto
qed

lemma decode_stored:
  assumes "stored_as (DObject (members r)) d'"
  shows "\<exists>x'. decode_struct names set_field d' x = Ok x' \<and> (\<forall>k \<in> set names. same_field k r x')"
proof -
  have "distinct (map fst (members r))" by (simp add: keys distinct_names)
  from assms this obtain ms' where d': "d' = DObject ms'" and ks: "fst ` set ms' = fst ` set (members r)"
    and mem: "\<forall>k e'. (k, e') \<in> set ms' \<longrightarrow> (\<exists>e. (k, e) \<in> set (members r) \<and> stored_as e e')"
    by (rule stored_as_object)
  have "set names = fst ` set ms'" using ks keys by (metis list.set_map)
  with decode_members [OF mem, of "{}" x] d' show ?thesis by simp
qed

end

subsection \<open>\<^verbatim>\<open>reflect.DeepEqual\<close> on configurations\<close>

definition filterDeepEqual :: "ClaimFilter \<Rightarrow> ClaimFilter \<Rightarrow> bool" where
  "filterDeepEqual f g \<longleftrightarrow> cf_ClaimPath f = cf_ClaimPath g \<and> cf_Operator f = cf_Operator g \<and>
     deepEqual (cf_Value f) (cf_Value g)"

definition ruleDeepEqual :: "RoleMappingRule \<Rightarrow> RoleMappingRule \<Rightarrow> bool" where
  "ruleDeepEqual f g \<longleftrightarrow> rm_ClaimPath f = rm_ClaimPath g \<and> rm_Operator f = rm_Operator g \<and>
     deepEqual (rm_Value f) (rm_Value g) \<and> rm_Role f = rm_Role g"

text \<open>A nil slice is not equal to an empty one.\<close>

definition sliceDeepEqual :: "('a \<Rightarrow> 'a \<Rightarrow> bool) \<Rightarrow> 'a slice \<Rightarrow> 'a slice \<Rightarrow> bool" where
  "sliceDeepEqual eq s t =
     (case s of None \<Rightarrow> t = None | Some xs \<Rightarrow> (case t of None \<Rightarrow> False | Some ys \<Rightarrow> list_all2 eq xs ys))"

definition configDeepEqual :: "Config \<Rightarrow> Config \<Rightarrow> bool" where
  "configDeepEqual c d \<longleftrightarrow>
     DatabaseURL c = DatabaseURL d \<and> IssuerURL c = IssuerURL d \<and> ClientID c = ClientID d \<and>
     ClientSecret c = ClientSecret d \<and> Scopes c = Scopes d \<and> DisplayName c = DisplayName d \<and>
     IconURLPath c = IconURLPath d \<and> sliceDeepEqual filterDeepEqual (ClaimFilters c) (ClaimFilters d) \<and>
     sliceDeepEqual ruleDeepEqual (ClaimRoleMapping c) (ClaimRoleMapping d) \<and>
     EmailVerifiedRequired c = EmailVerifiedRequired d \<and> LinkByEmail c = LinkByEmail d"

definition filterMembers :: "ClaimFilter \<Rightarrow> (string \<times> jdoc) list" where
  "filterMembers f = [(''claim_path'', DString (cf_ClaimPath f)), (''operator'', DString (cf_Operator f)),
     (''value'', of_any (cf_Value f))]"

definition sameFilterField :: "string \<Rightarrow> ClaimFilter \<Rightarrow> ClaimFilter \<Rightarrow> bool" where
  "sameFilterField k f x =
     (if k = ''claim_path'' then cf_ClaimPath f = cf_ClaimPath x
      else if k = ''operator'' then cf_Operator f = cf_Operator x
      else deepEqual (cf_Value f) (cf_Value x))"

definition ruleMembers :: "RoleMappingRule \<Rightarrow> (string \<times> jdoc) list" where
  "ruleMembers r = [(''claim_path'', DString (rm_ClaimPath r)), (''operator'', DString (rm_Operator r)),
     (''value'', of_any (rm_Value r)), (''role'', DString (rm_Role r))]"

definition sameRuleField :: "string \<Rightarrow> RoleMappingRule \<Rightarrow> RoleMappingRule \<Rightarrow> bool" where
  "sameRuleField k r x =
     (if k = ''claim_path'' then rm_ClaimPath r = rm_ClaimPath x
      else if k = ''operator'' then rm_Operator r = rm_Operator x
      else if k = ''role'' then rm_Role r = rm_Role x
      else deepEqual (rm_Value r) (rm_Value x))"

lemma stored_as_value: "stored_as (of_any v) d' \<Longrightarrow> deepEqual v (to_any d')"
  by (simp add: stored_as_def to_any_of_any)

interpretation filter_struct: struct_codec filterFields setFilterField filterMembers sameFilterField
proof
  show "field_of filterFields k = Some k" if "k \<in> set filterFields" for k
    using filterFields_exact that by (simp add: list_all_iff)
  show "\<exists>x'. setFilterField k d' x = Ok x' \<and> sameFilterField k r x' \<and>
      (\<forall>k'. sameFilterField k' r x \<longrightarrow> sameFilterField k' r x')"
    if "(k, d) \<in> set (filterMembers r)" "stored_as d d'" for k d r d' x
    using that unfolding filterMembers_def list.set insert_iff empty_iff prod.inject simp_thms
    by (elim disjE conjE)
      (simp_all add: setFilterField_def stored_as_scalars sameFilterField_def stored_as_value)
qed (simp_all add: filterMembers_def filterFields_def)

interpretation rule_struct: struct_codec ruleFields setRuleField ruleMembers sameRuleField
proof
  show "field_of ruleFields k = Some k" if "k \<in> set ruleFields" for k
    using ruleFields_exact that by (simp add: list_all_iff)
  show "\<exists>x'. setRuleField k d' x = Ok x' \<and> sameRuleField k r x' \<and>
      (\<forall>k'. sameRuleField k' r x \<longrightarrow> sameRuleField k' r x')"
    if "(k, d) \<in> set (ruleMembers r)" "stored_as d d'" for k d r d' x
    using that unfolding ruleMembers_def list.set insert_iff empty_iff prod.inject simp_thms
    by (elim disjE conjE)
      (simp_all add: setRuleField_def stored_as_scalars sameRuleField_def stored_as_value)
qed (simp_all add: ruleMembers_def ruleFields_def)

lemma decodeFilter_stored:
  assumes "stored_as (encodeFilter f) d'"
  shows "\<exists>g. decodeFilter d' x = Ok g \<and> filterDeepEqual f g"
  using filter_struct.decode_stored [of f d' x] assms
  by (auto simp: decodeFilter_def encodeFilter_def filterMembers_def filterFields_def
      sameFilterField_def filterDeepEqual_def)

lemma decodeRule_stored:
  assumes "stored_as (encodeRule r) d'"
  shows "\<exists>g. decodeRule d' x = Ok g \<and> ruleDeepEqual r g"
  using rule_struct.decode_stored [of r d' x] assms
  by (auto simp: decodeRule_def encodeRule_def ruleMembers_def ruleFields_def
      sameRuleField_def ruleDeepEqual_def)

text \<open>Slices of structs.\<close>

lemma decode_elems_stored:
  assumes "\<And>x d' cur. stored_as (enc x) d' \<Longrightarrow> \<exists>y. dec d' cur = Ok y \<and> eq x y"
    and "list_all2 stored_as (map enc xs) ds'"
  shows "\<exists>ys. decode_elems dec zero ds' cur = Ok ys \<and> list_all2 eq xs ys"
  using assms(2)
proof (induction xs arbitrary: ds' cur)
  case Nil
  then show ?case by simp
next
  case (Cons x xs)
  then obtain d' ds'' where ds': "ds' = d' # ds''" and x: "stored_as (enc x) d'"
    and rest: "list_all2 stored_as (map enc xs) ds''"
    by (auto simp: list_all2_Cons1)
  obtain y where "dec d' (case cur of [] \<Rightarrow> zero | x # _ \<Rightarrow> x) = Ok y" "eq x y"
    using assms(1) [OF x] by blast
  moreover obtain ys where "decode_elems dec zero ds'' (tl cur) = Ok ys" "list_all2 eq xs ys"
    using Cons.IH [OF rest] by blast
  ultimately show ?case by (simp add: ds')
qed

lemma decode_slice_stored:
  assumes "\<And>x d' cur. stored_as (enc x) d' \<Longrightarrow> \<exists>y. dec d' cur = Ok y \<and> eq x y"
    and "stored_as (encodeSlice enc s) d'"
  shows "\<exists>t. decode_slice dec zero d' cur = Ok t \<and> sliceDeepEqual eq s t"
proof (cases s)
  case None
  with assms(2) show ?thesis by (simp add: encodeSlice_def stored_as_scalars sliceDeepEqual_def)
next
  case (Some xs)
  with assms(2) have "stored_as (DArray (map enc xs)) d'" by (simp add: encodeSlice_def)
  then obtain ds' where d': "d' = DArray ds'" and ds': "list_all2 stored_as (map enc xs) ds'"
    by (rule stored_as_array)
  have "\<exists>ys. decode_elems dec zero ds' (elems cur) = Ok ys \<and> list_all2 eq xs ys"
    by (rule decode_elems_stored [OF _ ds']) (rule assms(1))
  then obtain ys where "decode_elems dec zero ds' (elems cur) = Ok ys" "list_all2 eq xs ys" by blast
  with Some d' show ?thesis by (simp add: sliceDeepEqual_def)
qed

lemma decodeFilters_stored:
  "stored_as (encodeSlice encodeFilter s) d' \<Longrightarrow>
     \<exists>t. decodeFilters d' cur = Ok t \<and> sliceDeepEqual filterDeepEqual s t"
  unfolding decodeFilters_def by (rule decode_slice_stored) (rule decodeFilter_stored)

lemma decodeRules_stored:
  "stored_as (encodeSlice encodeRule s) d' \<Longrightarrow>
     \<exists>t. decodeRules d' cur = Ok t \<and> sliceDeepEqual ruleDeepEqual s t"
  unfolding decodeRules_def by (rule decode_slice_stored) (rule decodeRule_stored)

definition sameConfigField :: "string \<Rightarrow> Config \<Rightarrow> Config \<Rightarrow> bool" where
  "sameConfigField k c x =
     (if k = ''claim_filters'' then sliceDeepEqual filterDeepEqual (ClaimFilters c) (ClaimFilters x)
      else if k = ''claim_role_mapping'' then sliceDeepEqual ruleDeepEqual (ClaimRoleMapping c) (ClaimRoleMapping x)
      else field_eq k c x)"

interpretation config_struct: struct_codec configFields setConfigField configMembers sameConfigField
proof
  show "field_of configFields k = Some k" if "k \<in> set configFields" for k
    using configFields_exact that by (simp add: list_all_iff)
  show "\<exists>x'. setConfigField k d' x = Ok x' \<and> sameConfigField k r x' \<and>
      (\<forall>k'. sameConfigField k' r x \<longrightarrow> sameConfigField k' r x')"
    if "(k, d) \<in> set (configMembers r)" "stored_as d d'" for k d r d' x
    using that unfolding configMembers_def list.set insert_iff empty_iff prod.inject simp_thms
    by (elim disjE conjE)
      (auto simp: setConfigField_def stored_as_scalars sameConfigField_def field_eq_def
        dest!: decodeFilters_stored [where cur = "ClaimFilters x"]
          decodeRules_stored [where cur = "ClaimRoleMapping x"])
qed (simp_all add: configMembers_keys, simp add: configFields_def)

lemma decodeConfig_stored:
  assumes "marshalConfig c = Ok d" and "stored_as d d'"
  shows "\<exists>c'. decodeConfig d' base = Ok c' \<and> configDeepEqual c c'"
proof -
  from assms have "stored_as (DObject (configMembers c)) d'"
    by (auto simp: marshalConfig_def split: if_splits)
  from config_struct.decode_stored [OF this, of base] obtain c'
    where "decodeConfig d' base = Ok c'" "\<forall>k \<in> set configFields. sameConfigField k c c'"
    by (auto simp: decodeConfig_def)
  then show ?thesis
    by (auto simp: configFields_def sameConfigField_def field_eq_def configDeepEqual_def)
qed

text \<open>Validity does not distinguish deeply equal configurations.\<close>

lemma operand_ok_deepEqual: "deepEqual v w \<Longrightarrow> operand_ok lib op v \<Longrightarrow> operand_ok lib op w"
  by (cases v) (auto simp: operand_ok_def)

lemma filter_ok_deepEqual: "filterDeepEqual f g \<Longrightarrow> filter_ok lib f \<Longrightarrow> filter_ok lib g"
  by (auto simp: filterDeepEqual_def filter_ok_def intro: operand_ok_deepEqual)

lemma rule_ok_deepEqual: "ruleDeepEqual f g \<Longrightarrow> rule_ok lib f \<Longrightarrow> rule_ok lib g"
  by (auto simp: ruleDeepEqual_def rule_ok_def intro: operand_ok_deepEqual)

lemma slice_all_transfer:
  assumes "sliceDeepEqual eq s t" and "\<And>x y. eq x y \<Longrightarrow> P x \<Longrightarrow> P y" and "\<forall>x\<in>set (elems s). P x"
  shows "\<forall>y\<in>set (elems t). P y"
  using assms by (fastforce simp: sliceDeepEqual_def list_all2_conv_all_nth in_set_conv_nth split: option.splits)

lemma config_ok_deepEqual:
  assumes "configDeepEqual c c'" and "config_ok lib c"
  shows "config_ok lib c'"
proof -
  have f: "\<forall>f\<in>set (elems (ClaimFilters c')). filter_ok lib f"
    by (rule slice_all_transfer [where eq = filterDeepEqual and s = "ClaimFilters c"])
      (use assms in \<open>auto simp: configDeepEqual_def config_ok_def intro: filter_ok_deepEqual\<close>)
  have r: "\<forall>f\<in>set (elems (ClaimRoleMapping c')). rule_ok lib f"
    by (rule slice_all_transfer [where eq = ruleDeepEqual and s = "ClaimRoleMapping c"])
      (use assms in \<open>auto simp: configDeepEqual_def config_ok_def intro: rule_ok_deepEqual\<close>)
  from assms f r show ?thesis by (simp add: config_ok_def configDeepEqual_def)
qed

end
