(* ===== verification/Store.thy ===== *)
theory Store
  imports Jsonb
begin

text \<open>
  \<^verbatim>\<open>internal/store/store.go\<close>: the PostgreSQL-backed configuration row and the one-time nonce table.

  The database is the record \<open>db\<close>: whether the schema exists, the single \<^verbatim>\<open>app_config\<close> row, the
  rows of \<^verbatim>\<open>auth_nonce\<close> and a script of statement failures (connection loss, cancelled
  context), one entry per statement, \<open>None\<close> or an exhausted script meaning that the statement runs. Every
  operation is proved for every script.

  Parameters, in the record \<open>pg\<close>: how \<^verbatim>\<open>jsonb\<close> stores a document (or rejects it, e.g. for a NUL
  character), how \<^verbatim>\<open>timestamptz\<close> rounds an instant, and SHA-256. \<open>jsonb_law\<close> and
  \<open>timestamp_law\<close> name what the code relies on.
\<close>

record pg =
  pg_jsonb :: "jdoc \<Rightarrow> (string, jdoc) result"
  pg_timestamp :: "instant \<Rightarrow> instant"
  sha256 :: "string \<Rightarrow> 8 word list"

definition jsonb_law :: "pg \<Rightarrow> bool" where
  "jsonb_law P \<longleftrightarrow> (\<forall>d d'. pg_jsonb P d = Ok d' \<longrightarrow> stored_as d d')"

definition microsecond :: duration where "microsecond = 1000"

definition timestamp_law :: "pg \<Rightarrow> bool" where
  "timestamp_law P \<longleftrightarrow> (\<forall>t. t - microsecond < pg_timestamp P t \<and> pg_timestamp P t \<le> t)"

record db =
  schema :: bool
  app_config :: "jdoc option"
  auth_nonce :: "(8 word list, instant) fmap"
  faults :: "string option list"

datatype store_error =
    MigrateFailed string
  | EnsureFailed string
  | GetFailed string
  | DecodeFailed json_error
  | Invalid config_error
  | EncodeFailed json_error
  | UpdateFailed string
  | EmptyNonce
  | ConsumeFailed string
  | ErrReplay

text \<open>One statement: its failure, if any, and the database with the script advanced.\<close>

definition attempt :: "db \<Rightarrow> string check \<times> db" where
  "attempt d = (case faults d of [] \<Rightarrow> (None, d) | f # fs \<Rightarrow> (f, d\<lparr>faults := fs\<rparr>))"

definition query :: "db \<Rightarrow> string check \<times> db" where
  "query d = (case attempt d of
      (Some e, d1) \<Rightarrow> (Some e, d1)
    | (None, d1) \<Rightarrow> (if schema d1 then None else Some ''relation does not exist'', d1))"

subsection \<open>Operations\<close>

definition emptyRow :: jdoc where "emptyRow = DObject []"

definition Migrate :: "db \<Rightarrow> store_error check \<times> db" where
  "Migrate d =
     (case attempt d of
        (Some e, d1) \<Rightarrow> (Some (MigrateFailed e), d1)
      | (None, d1) \<Rightarrow> (None, d1\<lparr>schema := True,
          app_config := (case app_config d1 of None \<Rightarrow> Some emptyRow | Some raw \<Rightarrow> Some raw)\<rparr>))"

definition DefaultConfig :: Config where
  "DefaultConfig = zeroConfig\<lparr>Scopes := ''openid profile email'', DisplayName := ''Sign in with OIDC'',
     IconURLPath := ''generic-key.svg'', EmailVerifiedRequired := True\<rparr>"

lemma query_app_config [simp]: "app_config (snd (query d)) = app_config d"
  and query_auth_nonce [simp]: "auth_nonce (snd (query d)) = auth_nonce d"
  and query_schema [simp]: "schema (snd (query d)) = schema d"
  by (simp_all add: query_def attempt_def split: list.split option.split)

lemma query_frame:
  "query d = (a, b) \<Longrightarrow> app_config b = app_config d \<and> auth_nonce b = auth_nonce d \<and> schema b = schema d"
  by (metis query_app_config query_auth_nonce query_schema snd_conv)

text \<open>
  \<^verbatim>\<open>GetConfig\<close> calls itself after inserting the missing row; the recursion ends because the row is
  there the second time.
\<close>

function GetConfig :: "db \<Rightarrow> (store_error, Config) result \<times> db" where
  "GetConfig d =
     (let d1 = snd (query d) in
      case fst (query d) of
        Some e \<Rightarrow> (Err (GetFailed e), d1)
      | None \<Rightarrow>
          (case app_config d1 of
             None \<Rightarrow>
               (let d2 = snd (query d1) in
                case fst (query d1) of
                  Some e \<Rightarrow> (Err (EnsureFailed e), d2)
                | None \<Rightarrow> GetConfig (d2\<lparr>app_config := Some emptyRow\<rparr>))
           | Some raw \<Rightarrow>
               (case decodeConfig raw DefaultConfig of
                  Err e \<Rightarrow> (Err (DecodeFailed e), d1)
                | Ok cfg \<Rightarrow> (Ok cfg, d1))))"
  by pat_completeness auto
termination
  by (relation "measure (\<lambda>d. if app_config d = None then 1 else 0)") auto

declare GetConfig.simps [simp del]

lemmas GetConfig_unfolded [code] = GetConfig.simps [unfolded Let_def]

definition UpdateConfig :: "golib \<Rightarrow> pg \<Rightarrow> Config \<Rightarrow> db \<Rightarrow> store_error check \<times> db" where
  "UpdateConfig lib P cfg d =
     (case ValidateConfig lib cfg of
        Some e \<Rightarrow> (Some (Invalid e), d)
      | None \<Rightarrow>
          (case marshalConfig cfg of
             Err e \<Rightarrow> (Some (EncodeFailed e), d)
           | Ok raw \<Rightarrow>
               (case query d of
                  (Some e, d1) \<Rightarrow> (Some (UpdateFailed e), d1)
                | (None, d1) \<Rightarrow>
                    (case pg_jsonb P raw of
                       Err e \<Rightarrow> (Some (UpdateFailed e), d1)
                     | Ok stored \<Rightarrow> (None, d1\<lparr>app_config := Some stored\<rparr>)))))"

text \<open>\<^verbatim>\<open>now\<close> is the database clock of the pruning statement.\<close>

definition prune :: "instant \<Rightarrow> (8 word list, instant) fmap \<Rightarrow> (8 word list, instant) fmap" where
  "prune now m = fmfilter (\<lambda>h. case fmlookup m h of None \<Rightarrow> False | Some expires_at \<Rightarrow> \<not> expires_at < now) m"

definition ConsumeNonce :: "pg \<Rightarrow> instant \<Rightarrow> string \<Rightarrow> instant \<Rightarrow> db \<Rightarrow> store_error check \<times> db" where
  "ConsumeNonce P now nonce expiresAt d =
     (if nonce = [] then (Some EmptyNonce, d)
      else let sum = sha256 P nonce;
               d1 = snd (query d);
               d2 = (if fst (query d) = None then d1\<lparr>auth_nonce := prune now (auth_nonce d1)\<rparr> else d1);
               d3 = snd (query d2)
           in case fst (query d2) of
                Some e \<Rightarrow> (Some (ConsumeFailed e), d3)
              | None \<Rightarrow>
                  (case fmlookup (auth_nonce d3) sum of
                     Some _ \<Rightarrow> (Some ErrReplay, d3)
                   | None \<Rightarrow> (None, d3\<lparr>auth_nonce := fmupd sum (pg_timestamp P expiresAt) (auth_nonce d3)\<rparr>)))"

definition ImportLegacyConfig :: "golib \<Rightarrow> pg \<Rightarrow> Config \<Rightarrow> db \<Rightarrow> (store_error, Config) result \<times> db" where
  "ImportLegacyConfig lib P legacy d =
     (case GetConfig d of
        (Err e, d1) \<Rightarrow> (Err e, d1)
      | (Ok current, d1) \<Rightarrow>
          if \<not> configDeepEqual current DefaultConfig then (Ok current, d1)
          else let legacy' = legacy\<lparr>DatabaseURL := []\<rparr> in
            if configDeepEqual legacy' current then (Ok current, d1)
            else (case UpdateConfig lib P legacy' d1 of
                    (Some e, d2) \<Rightarrow> (Err e, d2)
                  | (None, d2) \<Rightarrow> GetConfig d2))"

subsection \<open>Reading the row\<close>

text \<open>What each statement does when no failure is scripted.\<close>

lemma attempt_calm: "faults d = [] \<Longrightarrow> attempt d = (None, d)"
  by (simp add: attempt_def)

lemma query_calm: "faults d = [] \<Longrightarrow> schema d \<Longrightarrow> query d = (None, d)"
  by (simp add: query_def attempt_calm)

lemma GetConfig_row:
  "app_config d = Some raw \<Longrightarrow> fst (query d) = None \<Longrightarrow>
     GetConfig d = (case decodeConfig raw DefaultConfig of
        Err e \<Rightarrow> (Err (DecodeFailed e), snd (query d)) | Ok cfg \<Rightarrow> (Ok cfg, snd (query d)))"
  by (simp add: GetConfig_unfolded)

lemma decode_emptyRow: "decodeConfig emptyRow base = Ok base"
  by (simp add: emptyRow_def decodeConfig_def)

text \<open>The configuration a row stands for, an absent row standing for the defaults.\<close>

definition row_config :: "db \<Rightarrow> (json_error, Config) result" where
  "row_config d = (case app_config d of None \<Rightarrow> Ok DefaultConfig | Some raw \<Rightarrow> decodeConfig raw DefaultConfig)"

lemma GetConfig_Ok_row:
  assumes "GetConfig d = (Ok cfg, d')"
  shows "row_config d = Ok cfg \<and> row_config d' = Ok cfg \<and> auth_nonce d' = auth_nonce d \<and> schema d' = schema d"
proof -
  have row: "row_config e = Ok cfg \<and> row_config e' = Ok cfg \<and> auth_nonce e' = auth_nonce e \<and> schema e' = schema e"
    if "GetConfig e = (Ok cfg, e')" "app_config e = Some raw" for e e' raw
    using that by (auto simp: GetConfig.simps [of e] Let_def row_config_def split: option.splits sum.splits)
  show ?thesis
  proof (cases "app_config d")
    case None
    let ?d2 = "(snd (query (snd (query d))))\<lparr>app_config := Some emptyRow\<rparr>"
    from assms None have "GetConfig ?d2 = (Ok cfg, d')"
      by (auto simp: GetConfig.simps [of d] Let_def split: option.splits)
    from row [OF this] None show ?thesis by (simp add: row_config_def decode_emptyRow)
  qed (use assms row in blast)
qed

lemma GetConfig_Err:
  assumes "GetConfig d = (r, d')" and "r = Err e" and "row_config d = Ok c"
  shows "\<exists>msg. e = GetFailed msg \<or> e = EnsureFailed msg"
proof -
  have row: "\<exists>msg. e = GetFailed msg" if "GetConfig x = (Err e, d')" "row_config x = Ok c" "app_config x = Some raw" for x raw
    using that by (cases "fst (query x)") (auto simp: GetConfig_unfolded [of x] row_config_def)
  show ?thesis
  proof (cases "app_config d")
    case None
    let ?d2 = "(snd (query (snd (query d))))\<lparr>app_config := Some emptyRow\<rparr>"
    have "row_config ?d2 = Ok c" using assms(3) None by (simp add: row_config_def decode_emptyRow)
    with assms(1,2) None row [of ?d2] show ?thesis
      by (cases "fst (query d)"; cases "fst (query (snd (query d)))") (auto simp: GetConfig_unfolded [of d])
  next
    case (Some raw)
    with assms row [of d] show ?thesis by blast
  qed
qed

lemma GetConfig_calm:
  assumes "faults d = []" "schema d"
  shows "fst (GetConfig d) = (case row_config d of Err e \<Rightarrow> Err (DecodeFailed e) | Ok c \<Rightarrow> Ok c)"
proof (cases "app_config d")
  case None
  let ?d2 = "d\<lparr>app_config := Some emptyRow\<rparr>"
  have "GetConfig d = GetConfig ?d2"
    using assms None by (simp add: GetConfig.simps [of d] query_calm)
  moreover have "query ?d2 = (None, ?d2)" using assms by (simp add: query_calm)
  ultimately show ?thesis
    using None by (simp add: GetConfig_row row_config_def decode_emptyRow)
next
  case (Some raw)
  then show ?thesis using assms
    by (simp add: GetConfig_row query_calm row_config_def split: sum.split)
qed

text \<open>What the \<open>i\<close>-th of the statements to come fails with, if it fails, when the schema stays as it is.\<close>

definition stmtFailure :: "db \<Rightarrow> nat \<Rightarrow> string option" where
  "stmtFailure d i =
     (case (if i < length (faults d) then faults d ! i else None) of
        Some e \<Rightarrow> Some e | None \<Rightarrow> if schema d then None else Some ''relation does not exist'')"

lemma query_stmt: "query d = (stmtFailure d 0, d\<lparr>faults := drop 1 (faults d)\<rparr>)"
  by (cases d) (auto simp: query_def attempt_def stmtFailure_def nth_Cons' split: list.split option.split)

lemma stmtFailure_later [simp]:
  "stmtFailure (d\<lparr>faults := drop n (faults d)\<rparr>) i = stmtFailure d (n + i)"
  "stmtFailure (d\<lparr>faults := fs, app_config := r\<rparr>) i = stmtFailure (d\<lparr>faults := fs\<rparr>) i"
  by (auto simp: stmtFailure_def add.commute)

text \<open>The statements a read issues at most, as the errors they are reported with.\<close>

definition readPlan :: "db \<Rightarrow> (string \<Rightarrow> store_error) list" where
  "readPlan d = (if app_config d = None then [GetFailed, EnsureFailed, GetFailed] else [GetFailed])"

text \<open>
  C20: reading the settings ends. \<^const>\<open>GetConfig\<close> calls itself when the row is missing, and yet returns after one statement
  when the row is there and after at most three when it is not. It issues the select, then the insert and the select again, stops at
  the first statement that fails with the error of that statement, and otherwise returns what the row stands for, an absent
  row standing for the defaults; the row is missing afterwards only if it was missing and the insert was not reached or failed.
\<close>

theorem GetConfig_terminates:
  "case find (\<lambda>i. stmtFailure d i \<noteq> None) [0..<length (readPlan d)] of
     Some i \<Rightarrow>
       fst (GetConfig d) = Err ((readPlan d ! i) (the (stmtFailure d i))) \<and>
       snd (GetConfig d) = d\<lparr>faults := drop (Suc i) (faults d), app_config := (if i < 2 then app_config d else Some emptyRow)\<rparr>
   | None \<Rightarrow>
       fst (GetConfig d) = (case row_config d of Err e \<Rightarrow> Err (DecodeFailed e) | Ok c \<Rightarrow> Ok c) \<and>
       snd (GetConfig d) = d\<lparr>faults := drop (length (readPlan d)) (faults d),
         app_config := (case app_config d of None \<Rightarrow> Some emptyRow | Some raw \<Rightarrow> Some raw)\<rparr>"
proof (cases "app_config d")
  case None
  let ?d2 = "d\<lparr>faults := drop 2 (faults d), app_config := Some emptyRow\<rparr>"
  have plan: "readPlan d = [GetFailed, EnsureFailed, GetFailed]" "[0..<length (readPlan d)] = [0, 1, 2]"
    using None by (simp_all add: readPlan_def upt_rec)
  have row: "GetConfig ?d2 = (case stmtFailure d 2 of
      Some e \<Rightarrow> (Err (GetFailed e), d\<lparr>faults := drop 3 (faults d), app_config := Some emptyRow\<rparr>)
    | None \<Rightarrow> (Ok DefaultConfig, d\<lparr>faults := drop 3 (faults d), app_config := Some emptyRow\<rparr>))"
    by (simp add: GetConfig_unfolded [of ?d2] query_stmt decode_emptyRow numeral_3_eq_3 split: option.split)
  have "GetConfig d = (case stmtFailure d 0 of
      Some e \<Rightarrow> (Err (GetFailed e), d\<lparr>faults := drop 1 (faults d)\<rparr>)
    | None \<Rightarrow> (case stmtFailure d 1 of
        Some e \<Rightarrow> (Err (EnsureFailed e), d\<lparr>faults := drop 2 (faults d)\<rparr>) | None \<Rightarrow> GetConfig ?d2))"
    using None by (simp add: GetConfig_unfolded [of d] query_stmt numeral_2_eq_2 split: option.split)
  then show ?thesis
    unfolding plan row using None
    by (auto simp: row_config_def numeral_2_eq_2 numeral_3_eq_3 split: option.split)
next
  case (Some raw)
  then show ?thesis
    by (auto simp: readPlan_def GetConfig_unfolded [of d] query_stmt row_config_def split: option.split sum.split)
qed

subsection \<open>Writing the row\<close>

lemma UpdateConfig_None:
  assumes "UpdateConfig lib P cfg d = (None, d')"
  shows "config_ok lib cfg \<and> (\<exists>raw stored. marshalConfig cfg = Ok raw \<and> pg_jsonb P raw = Ok stored \<and>
    app_config d' = Some stored) \<and> auth_nonce d' = auth_nonce d \<and> schema d' = schema d"
  using assms by (auto simp: UpdateConfig_def ValidateConfig_None_iff [symmetric] dest: query_frame
      split: option.splits sum.splits prod.splits)

lemma UpdateConfig_Some:
  assumes "UpdateConfig lib P cfg d = (Some e, d')"
  shows "app_config d' = app_config d \<and> auth_nonce d' = auth_nonce d \<and> schema d' = schema d"
  using assms by (auto simp: UpdateConfig_def dest: query_frame split: option.splits sum.splits prod.splits)

lemma UpdateConfig_row:
  assumes "jsonb_law P" and "UpdateConfig lib P cfg d = (None, d')"
  shows "\<exists>c. row_config d' = Ok c \<and> configDeepEqual cfg c \<and> config_ok lib c"
proof -
  from UpdateConfig_None [OF assms(2)] obtain raw stored where ok: "config_ok lib cfg"
    and raw: "marshalConfig cfg = Ok raw" "pg_jsonb P raw = Ok stored" and row: "app_config d' = Some stored" by blast
  from raw(2) assms(1) have "stored_as raw stored" by (simp add: jsonb_law_def)
  from decodeConfig_stored [OF raw(1) this] obtain c
    where "decodeConfig stored DefaultConfig = Ok c" "configDeepEqual cfg c" by blast
  with row ok show ?thesis by (auto simp: row_config_def intro: config_ok_deepEqual)
qed

lemma DefaultConfig_eq: "DefaultConfig = loadDefaults"
  by (simp add: DefaultConfig_def loadDefaults_def)

lemma DefaultConfig_valid: "config_ok lib DefaultConfig"
proof -
  have "''openid'' \<in> set (strFields ''openid profile email'')" by code_simp
  moreover have "IconAllowed lib ''generic-key.svg''"
    by (simp add: IconAllowed_def AllowedIcons_def)
  ultimately show ?thesis
    by (simp add: config_ok_def DefaultConfig_def zeroConfig_def)
qed

subsection \<open>Importing the host's settings\<close>

lemma configDeepEqual_default_refl: "configDeepEqual DefaultConfig DefaultConfig"
  by (simp add: configDeepEqual_def DefaultConfig_def zeroConfig_def sliceDeepEqual_def)

lemma ImportLegacyConfig_keeps:
  assumes "GetConfig d = (Ok current, d1)" and "\<not> configDeepEqual current DefaultConfig"
  shows "ImportLegacyConfig lib P legacy d = (Ok current, d1)"
  using assms by (simp add: ImportLegacyConfig_def)

lemma ImportLegacyConfig_cases:
  assumes "ImportLegacyConfig lib P legacy d = (r, d')"
  obtains (read) "GetConfig d = (r, d')"
  | (refused) current d1 e where "GetConfig d = (Ok current, d1)"
      "UpdateConfig lib P (legacy\<lparr>DatabaseURL := []\<rparr>) d1 = (Some e, d')" "r = Err e"
  | (imported) current d1 d2 where "GetConfig d = (Ok current, d1)" "configDeepEqual current DefaultConfig"
      "UpdateConfig lib P (legacy\<lparr>DatabaseURL := []\<rparr>) d1 = (None, d2)" "GetConfig d2 = (r, d')"
  using assms that
  by (auto simp: ImportLegacyConfig_def Let_def split: prod.splits sum.splits if_splits option.splits)

lemma GetConfig_frame:
  "auth_nonce (snd (GetConfig d)) = auth_nonce d \<and> schema (snd (GetConfig d)) = schema d \<and>
   row_config (snd (GetConfig d)) = row_config d"
proof -
  have row: "auth_nonce (snd (GetConfig e)) = auth_nonce e \<and> schema (snd (GetConfig e)) = schema e \<and>
      row_config (snd (GetConfig e)) = row_config e" if "app_config e = Some raw" for e raw
    using that by (simp add: GetConfig_unfolded [of e] row_config_def split: option.split sum.split)
  let ?d2 = "(snd (query (snd (query d))))\<lparr>app_config := Some emptyRow\<rparr>"
  show ?thesis
  proof (cases "app_config d")
    case None
    then show ?thesis
      using row [of ?d2 emptyRow]
      by (cases "fst (query d)"; cases "fst (query (snd (query d)))")
        (auto simp: GetConfig_unfolded [of d] row_config_def decode_emptyRow)
  qed (rule row)
qed

subsection \<open>Sequences of operations\<close>

text \<open>
  The operations the process issues, and the environment replacing the script of failures. \<open>exec\<close> is the
  effect of one of them.
\<close>

datatype store_op =
    OpMigrate
  | OpGet
  | OpUpdate Config
  | OpConsume instant string instant
  | OpImport Config
  | OpFaults "string option list"

fun exec :: "golib \<Rightarrow> pg \<Rightarrow> store_op \<Rightarrow> db \<Rightarrow> db" where
  "exec lib P OpMigrate d = snd (Migrate d)"
| "exec lib P OpGet d = snd (GetConfig d)"
| "exec lib P (OpUpdate cfg) d = snd (UpdateConfig lib P cfg d)"
| "exec lib P (OpConsume now nonce expiresAt) d = snd (ConsumeNonce P now nonce expiresAt d)"
| "exec lib P (OpImport legacy) d = snd (ImportLegacyConfig lib P legacy d)"
| "exec lib P (OpFaults fs) d = d\<lparr>faults := fs\<rparr>"

definition freshDb :: db where
  "freshDb = \<lparr>schema = False, app_config = None, auth_nonce = fmempty, faults = []\<rparr>"

lemma Migrate_frame: "auth_nonce (snd (Migrate d)) = auth_nonce d \<and> row_config (snd (Migrate d)) = row_config d"
  by (simp add: Migrate_def attempt_def row_config_def decode_emptyRow split: list.split option.split)

lemma UpdateConfig_frame: "auth_nonce (snd (UpdateConfig lib P cfg d)) = auth_nonce d"
proof (cases "UpdateConfig lib P cfg d")
  case (Pair r d')
  then show ?thesis
    using UpdateConfig_None [of lib P cfg d d'] UpdateConfig_Some [of lib P cfg d _ d'] by (cases r) simp_all
qed

lemma ImportLegacyConfig_frame: "auth_nonce (snd (ImportLegacyConfig lib P legacy d)) = auth_nonce d"
proof (cases "ImportLegacyConfig lib P legacy d")
  case (Pair r d')
  from Pair show ?thesis
  proof (cases rule: ImportLegacyConfig_cases)
    case read
    with GetConfig_frame [of d] Pair show ?thesis by simp
  next
    case (refused current d1 e)
    with GetConfig_frame [of d] UpdateConfig_frame [of lib P "legacy\<lparr>DatabaseURL := []\<rparr>" d1] Pair
    show ?thesis by simp
  next
    case (imported current d1 d2)
    with GetConfig_frame [of d] GetConfig_frame [of d2] UpdateConfig_frame [of lib P "legacy\<lparr>DatabaseURL := []\<rparr>" d1] Pair
    show ?thesis by simp
  qed
qed

text \<open>The row stands for a valid configuration.\<close>

definition row_valid :: "golib \<Rightarrow> db \<Rightarrow> bool" where
  "row_valid lib d \<longleftrightarrow> (\<exists>c. row_config d = Ok c \<and> config_ok lib c)"

lemma row_valid_fresh: "row_valid lib freshDb"
  by (simp add: row_valid_def row_config_def freshDb_def DefaultConfig_valid)

lemma row_valid_UpdateConfig:
  assumes "jsonb_law P" "row_valid lib d"
  shows "row_valid lib (snd (UpdateConfig lib P cfg d))"
proof (cases "UpdateConfig lib P cfg d")
  case (Pair r d')
  then show ?thesis
    using UpdateConfig_row [OF assms(1), of lib cfg d d'] UpdateConfig_Some [of lib P cfg d _ d'] assms(2)
    by (cases r) (auto simp: row_valid_def row_config_def)
qed

lemma ConsumeNonce_row: "app_config (snd (ConsumeNonce P now nonce e d)) = app_config d"
  by (simp add: ConsumeNonce_def Let_def split: option.split)

lemma row_valid_exec:
  assumes "jsonb_law P" "row_valid lib d"
  shows "row_valid lib (exec lib P op d)"
proof (cases op)
  case (OpImport legacy)
  obtain r d' where i: "ImportLegacyConfig lib P legacy d = (r, d')" by force
  from i have "row_valid lib d'"
  proof (cases rule: ImportLegacyConfig_cases)
    case read
    with GetConfig_frame [of d] assms(2) show ?thesis by (simp add: row_valid_def)
  next
    case (refused current d1 e)
    with GetConfig_frame [of d] assms row_valid_UpdateConfig [of P lib d1 "legacy\<lparr>DatabaseURL := []\<rparr>"]
    show ?thesis by (simp add: row_valid_def)
  next
    case (imported current d1 d2)
    with GetConfig_frame [of d] GetConfig_frame [of d2] assms
      row_valid_UpdateConfig [of P lib d1 "legacy\<lparr>DatabaseURL := []\<rparr>"]
    show ?thesis by (simp add: row_valid_def)
  qed
  with i OpImport show ?thesis by simp
qed (use assms GetConfig_frame [of d] Migrate_frame [of d] row_valid_UpdateConfig ConsumeNonce_row in
    \<open>simp_all add: row_valid_def row_config_def\<close>)

lemma row_valid_run:
  assumes "jsonb_law P" "row_valid lib d"
  shows "row_valid lib (fold (exec lib P) ops d)"
  using assms(2) by (induction ops arbitrary: d) (simp_all add: row_valid_exec [OF assms(1)])

subsection \<open>One-time nonces\<close>

text \<open>
  The contract ExchangeCode relies on. \<open>remembers d n t\<close>: in state \<open>d\<close> the nonce \<open>n\<close> is on record
  and stays so at least until \<open>t\<close>. An accepted nonce is remembered until its expiry as stored
  (\<open>keep expires\<close>), a remembered nonce is refused, and operations that happen within the time keep it. Any
  interleaving of operations then accepts a nonce at most once.
\<close>

locale nonce_guard =
  fixes consume :: "instant \<Rightarrow> string \<Rightarrow> instant \<Rightarrow> 'd \<Rightarrow> 'e check \<times> 'd"
    and step :: "'op \<Rightarrow> 'd \<Rightarrow> 'd"
    and within :: "instant \<Rightarrow> 'op \<Rightarrow> bool"
    and remembers :: "'d \<Rightarrow> string \<Rightarrow> instant \<Rightarrow> bool"
    and keep :: "instant \<Rightarrow> instant"
  assumes accepted: "consume now n expires d = (None, d') \<Longrightarrow> remembers d' n (keep expires)"
    and refused: "remembers d n t \<Longrightarrow> now \<le> t \<Longrightarrow> fst (consume now n expires d) \<noteq> None"
    and kept: "remembers d n t \<Longrightarrow> within t op \<Longrightarrow> remembers (step op d) n t"
begin

lemma remembers_run:
  "remembers d n t \<Longrightarrow> \<forall>op\<in>set ops. within t op \<Longrightarrow> remembers (fold step ops d) n t"
  by (induction ops arbitrary: d) (simp_all add: kept)

lemma single_use:
  assumes "consume now n expires d = (None, d')"
    and "\<forall>op\<in>set ops. within (keep expires) op" and "now' \<le> keep expires"
  shows "fst (consume now' n expires' (fold step ops d')) \<noteq> None"
  by (rule refused [OF remembers_run [OF accepted [OF assms(1)] assms(2)] assms(3)])

end

definition remembered :: "pg \<Rightarrow> db \<Rightarrow> string \<Rightarrow> instant \<Rightarrow> bool" where
  "remembered P d n t \<longleftrightarrow> (\<exists>e. fmlookup (auth_nonce d) (sha256 P n) = Some e \<and> t \<le> e)"

definition op_within :: "instant \<Rightarrow> store_op \<Rightarrow> bool" where
  "op_within t op = (case op of OpConsume now _ _ \<Rightarrow> now \<le> t | _ \<Rightarrow> True)"

lemma prune_lookup: "fmlookup (prune now m) h = (case fmlookup m h of None \<Rightarrow> None | Some e \<Rightarrow> if e < now then None else Some e)"
  by (simp add: prune_def split: option.split)

text \<open>The table as the insert statement sees it.\<close>

definition table_at :: "instant \<Rightarrow> db \<Rightarrow> (8 word list, instant) fmap" where
  "table_at now d = (if fst (query d) = None then prune now (auth_nonce d) else auth_nonce d)"

lemma ConsumeNonce_cases:
  assumes "ConsumeNonce P now n expires d = (r, d')"
  obtains (empty) "n = []" "r = Some EmptyNonce" "d' = d"
  | (failed) e where "n \<noteq> []" "r = Some (ConsumeFailed e)" "auth_nonce d' = table_at now d"
  | (replayed) "n \<noteq> []" "r = Some ErrReplay" "auth_nonce d' = table_at now d"
      "fmlookup (table_at now d) (sha256 P n) \<noteq> None"
  | (fresh) "n \<noteq> []" "r = None" "fmlookup (table_at now d) (sha256 P n) = None"
      "auth_nonce d' = fmupd (sha256 P n) (pg_timestamp P expires) (table_at now d)"
proof -
  let ?d2 = "if fst (query d) = None then (snd (query d))\<lparr>auth_nonce := prune now (auth_nonce (snd (query d)))\<rparr>
    else snd (query d)"
  have t: "auth_nonce (snd (query ?d2)) = table_at now d" by (simp add: table_at_def)
  show thesis
    using assms that t unfolding ConsumeNonce_def Let_def
    by (cases "n = []"; cases "fst (query ?d2)"; cases "fmlookup (auth_nonce (snd (query ?d2))) (sha256 P n)") auto
qed

lemma remembered_at:
  assumes "remembered P d n t" "now \<le> t"
  obtains e where "fmlookup (table_at now d) (sha256 P n) = Some e" "t \<le> e"
proof -
  from assms obtain e where e: "fmlookup (auth_nonce d) (sha256 P n) = Some e" "t \<le> e"
    by (auto simp: remembered_def)
  with assms(2) have "fmlookup (table_at now d) (sha256 P n) = Some e"
    by (simp add: table_at_def prune_lookup)
  with e(2) show thesis using that by blast
qed

lemma remembered_refused:
  assumes "remembered P d n t" "now \<le> t"
  shows "fst (ConsumeNonce P now n expires d) \<noteq> None"
proof (cases "ConsumeNonce P now n expires d")
  case (Pair r d')
  from assms obtain e where "fmlookup (table_at now d) (sha256 P n) = Some e" by (rule remembered_at)
  then have "r \<noteq> None" using Pair by (cases rule: ConsumeNonce_cases [OF Pair]) auto
  with Pair show ?thesis by simp
qed

lemma remembered_consume:
  assumes "remembered P d n t" "now \<le> t"
  shows "remembered P (snd (ConsumeNonce P now m expires d)) n t"
proof (cases "ConsumeNonce P now m expires d")
  case (Pair r d')
  from assms obtain e where e: "fmlookup (table_at now d) (sha256 P n) = Some e" "t \<le> e"
    by (rule remembered_at)
  from Pair show ?thesis
  proof (cases rule: ConsumeNonce_cases)
    case fresh
    with e have "sha256 P m \<noteq> sha256 P n" by auto
    with fresh e Pair show ?thesis by (simp add: remembered_def)
  qed (use assms e Pair in \<open>auto simp: remembered_def\<close>)
qed

lemma remembered_exec:
  assumes "remembered P d n t" "op_within t op"
  shows "remembered P (exec lib P op d) n t"
proof (cases op)
  case (OpConsume now m expires)
  with assms show ?thesis by (simp add: remembered_consume op_within_def)
qed (use assms GetConfig_frame [of d] Migrate_frame [of d] in
    \<open>simp_all add: remembered_def UpdateConfig_frame ImportLegacyConfig_frame\<close>)

interpretation nonces: nonce_guard "ConsumeNonce P" "exec lib P" op_within "remembered P" "pg_timestamp P" for lib P
proof
  show "remembered P d' n (pg_timestamp P expires)"
    if "ConsumeNonce P now n expires d = (None, d')" for now n expires d d'
    using that by (cases rule: ConsumeNonce_cases) (auto simp: remembered_def)
qed (simp_all add: remembered_refused remembered_exec)

lemma ConsumeNonce_calm:
  assumes "faults d = []" "schema d" "n \<noteq> []"
  shows "ConsumeNonce P now n expires d =
      (let d2 = d\<lparr>auth_nonce := prune now (auth_nonce d)\<rparr> in
       case fmlookup (prune now (auth_nonce d)) (sha256 P n) of
         Some _ \<Rightarrow> (Some ErrReplay, d2)
       | None \<Rightarrow> (None, d2\<lparr>auth_nonce := fmupd (sha256 P n) (pg_timestamp P expires) (auth_nonce d2)\<rparr>))"
proof -
  let ?d2 = "d\<lparr>auth_nonce := prune now (auth_nonce d)\<rparr>"
  have "query ?d2 = (None, ?d2)" using assms by (simp add: query_calm)
  then show ?thesis
    using assms by (simp add: ConsumeNonce_def query_calm Let_def split: option.split)
qed

lemma ConsumeNonce_accepts:
  assumes "faults d = []" "schema d" "n \<noteq> []"
    and "case fmlookup (auth_nonce d) (sha256 P n) of None \<Rightarrow> True | Some e \<Rightarrow> e < now"
  shows "fst (ConsumeNonce P now n expires d) = None"
  unfolding ConsumeNonce_calm [OF assms(1-3)]
  using assms(4) by (auto simp: prune_lookup Let_def split: option.splits)

subsection \<open>Properties\<close>

text \<open>A concrete database for the witnesses.\<close>

definition demo_pg :: pg where
  "demo_pg = \<lparr>pg_jsonb = (\<lambda>d. if unique_keys d \<and> nan_free (to_any d) then Ok d else Err ''invalid json''),
     pg_timestamp = (\<lambda>t. t div microsecond * microsecond),
     sha256 = (\<lambda>s. take 32 (map (\<lambda>c. of_nat (of_char c)) s @ replicate 32 0))\<rparr>"

lemma demo_pg_laws: "jsonb_law demo_pg" "timestamp_law demo_pg"
proof -
  show "jsonb_law demo_pg"
    by (auto simp: jsonb_law_def demo_pg_def stored_as_def deepEqual_refl split: if_splits)
  have "t - microsecond < t div microsecond * microsecond \<and> t div microsecond * microsecond \<le> t" for t
    using pos_mod_bound [of microsecond t] pos_mod_sign [of microsecond t] div_mult_mod_eq [of t microsecond]
    by (simp add: microsecond_def) linarith
  then show "timestamp_law demo_pg" by (simp add: timestamp_law_def demo_pg_def)
qed

definition demo_db :: db where
  "demo_db = \<lparr>schema = True, app_config = Some emptyRow, auth_nonce = fmempty, faults = []\<rparr>"

text \<open>
  C7: a nonce is accepted at most once. Once \<^const>\<open>ConsumeNonce\<close> accepted a nonce, a second call with the
  same nonce is refused after any interleaving of store operations (other logins, configuration changes, migrations,
  statement failures), as long as the database clock has not passed the expiry of the first call by the time of the last
  prune; the microsecond is the granularity of the stored timestamp. Neither a hash collision nor a failing statement
  can make it accepted.
\<close>

theorem ConsumeNonce_single_use:
  assumes "timestamp_law P"
    and "ConsumeNonce P now n expires d = (None, d')"
    and "\<forall>op\<in>set ops. op_within (expires - microsecond) op" and "now' \<le> expires - microsecond"
  shows "fst (ConsumeNonce P now' n expires' (fold (exec lib P) ops d')) \<noteq> None"
proof -
  from assms(1) have le: "expires - microsecond \<le> pg_timestamp P expires"
    by (auto simp: timestamp_law_def intro: less_imp_le)
  with assms(3) have "\<forall>op\<in>set ops. op_within (pg_timestamp P expires) op"
    by (auto simp: op_within_def split: store_op.splits)
  with assms(2,4) le show ?thesis by (intro nonces.single_use) (assumption | linarith)+
qed

theorem ConsumeNonce_single_use_witness:
  "fst (ConsumeNonce demo_pg 5000000 ''n1'' 20000000
     (fold (exec demo_lib demo_pg) [OpConsume 4000000 ''n2'' 30000000, OpFaults [Some ''gone'']]
       (snd (ConsumeNonce demo_pg 0 ''n1'' 10000000 demo_db)))) \<noteq> None"
proof (rule ConsumeNonce_single_use)
  show "timestamp_law demo_pg" by (rule demo_pg_laws)
  have "fst (ConsumeNonce demo_pg 0 ''n1'' 10000000 demo_db) = None"
    by (simp add: ConsumeNonce_def demo_db_def query_def attempt_def prune_def)
  then show "ConsumeNonce demo_pg 0 ''n1'' 10000000 demo_db =
      (None, snd (ConsumeNonce demo_pg 0 ''n1'' 10000000 demo_db))"
    by (metis prod.collapse)
qed (simp_all add: op_within_def microsecond_def)

text \<open>
  First use succeeds. On a working database a non-empty nonce is accepted exactly when no unexpired row
  holds its hash; a call that gets through leaves only unexpired rows behind, apart from the one it inserted, so the table
  stays bounded by the logins of one retention period.
\<close>

theorem ConsumeNonce_fresh:
  assumes "faults d = []" "schema d" "n \<noteq> []"
  shows "(fst (ConsumeNonce P now n expires d) = None \<longleftrightarrow>
      (case fmlookup (auth_nonce d) (sha256 P n) of None \<Rightarrow> True | Some e \<Rightarrow> e < now)) \<and>
    (\<forall>h e. fmlookup (auth_nonce (snd (ConsumeNonce P now n expires d))) h = Some e \<longrightarrow>
      now \<le> e \<or> h = sha256 P n \<and> e = pg_timestamp P expires)"
  unfolding ConsumeNonce_calm [OF assms] Let_def
  by (auto simp: prune_lookup split: option.splits if_splits)

theorem ConsumeNonce_fresh_witness:
  "fst (ConsumeNonce demo_pg 7 ''n1'' 20 (demo_db\<lparr>auth_nonce := fmupd (sha256 demo_pg ''n1'') 5 fmempty\<rparr>)) = None \<and>
   fst (ConsumeNonce demo_pg 5 ''n1'' 20 (demo_db\<lparr>auth_nonce := fmupd (sha256 demo_pg ''n1'') 5 fmempty\<rparr>)) \<noteq> None"
  using ConsumeNonce_fresh [of "demo_db\<lparr>auth_nonce := fmupd (sha256 demo_pg ''n1'') 5 fmempty\<rparr>" "''n1''" demo_pg]
  by (simp add: demo_db_def)

text \<open>
  C32: what the admin saved is what the plugin loads. After a successful \<^const>\<open>UpdateConfig\<close> the next
  \<^const>\<open>GetConfig\<close> returns a valid configuration that is deeply equal to the one saved, defaults never leaking
  into it, on every database whose \<^verbatim>\<open>jsonb\<close> preserves documents up to member order and the sign of zero.
\<close>

theorem UpdateConfig_GetConfig:
  assumes "jsonb_law P" and "UpdateConfig lib P cfg d = (None, d')" and "faults d' = []" "schema d'"
  shows "\<exists>c. fst (GetConfig d') = Ok c \<and> configDeepEqual cfg c \<and> config_ok lib c"
  using UpdateConfig_row [OF assms(1,2)] GetConfig_calm [OF assms(3,4)] by auto

theorem UpdateConfig_GetConfig_witness:
  "\<exists>c. fst (GetConfig (snd (UpdateConfig demo_lib demo_pg demo_config demo_db))) = Ok c \<and>
     configDeepEqual demo_config c \<and> config_ok demo_lib c"
proof (rule UpdateConfig_GetConfig)
  show "jsonb_law demo_pg" by (rule demo_pg_laws)
  have m: "marshalConfig demo_config = Ok (DObject (configMembers demo_config))" by code_simp
  have u: "pg_jsonb demo_pg (DObject (configMembers demo_config)) = Ok (DObject (configMembers demo_config))"
    by code_simp
  show up: "UpdateConfig demo_lib demo_pg demo_config demo_db =
      (None, snd (UpdateConfig demo_lib demo_pg demo_config demo_db))"
    by (simp add: UpdateConfig_def demo_config_valid m u demo_db_def query_def attempt_def)
  show "faults (snd (UpdateConfig demo_lib demo_pg demo_config demo_db)) = []"
    "schema (snd (UpdateConfig demo_lib demo_pg demo_config demo_db))"
    by (simp_all add: UpdateConfig_def demo_config_valid m u demo_db_def query_def attempt_def)
qed

text \<open>
  C16: the plugin never reads an invalid configuration back. Starting from an empty database, whatever sequence of
  migrations, reads, updates, imports, nonce insertions and statement failures ran before, a read that succeeds yields a
  configuration that passes validation, and a read never fails because of what the row holds.
\<close>

theorem store_row_always_valid:
  assumes "jsonb_law P"
  shows "case fst (GetConfig (fold (exec lib P) ops freshDb)) of
      Ok c \<Rightarrow> config_ok lib c
    | Err e \<Rightarrow> (\<exists>msg. e = GetFailed msg \<or> e = EnsureFailed msg)"
proof -
  let ?d = "fold (exec lib P) ops freshDb"
  obtain c where row: "row_config ?d = Ok c" "config_ok lib c"
    using row_valid_run [OF assms row_valid_fresh] by (auto simp: row_valid_def)
  obtain r d' where g: "GetConfig ?d = (r, d')" by force
  show ?thesis
  proof (cases r)
    case (Inr c')
    with g GetConfig_Ok_row [of ?d c' d'] row show ?thesis by simp
  next
    case (Inl e)
    moreover have "\<exists>msg. e = GetFailed msg \<or> e = EnsureFailed msg"
      using g Inl row(1) by (rule GetConfig_Err)
    ultimately show ?thesis using g by simp
  qed
qed

theorem store_row_always_valid_witness:
  "case fst (GetConfig (fold (exec demo_lib demo_pg)
      [OpMigrate, OpImport demo_config, OpFaults [Some ''gone''], OpUpdate zeroConfig] freshDb)) of
      Ok c \<Rightarrow> config_ok demo_lib c
    | Err e \<Rightarrow> (\<exists>msg. e = GetFailed msg \<or> e = EnsureFailed msg)"
  by (rule store_row_always_valid) (rule demo_pg_laws)

text \<open>
  A refused update changes nothing. \<^const>\<open>UpdateConfig\<close> reports an invalid configuration before it touches the
  database, and whichever step fails (validation, encoding, the statement, the column type) the row and the nonce table
  stay as they were.
\<close>

theorem UpdateConfig_atomic:
  "(\<not> config_ok lib cfg \<longrightarrow> (\<exists>e. UpdateConfig lib P cfg d = (Some (Invalid e), d))) \<and>
   (fst (UpdateConfig lib P cfg d) \<noteq> None \<longrightarrow>
      app_config (snd (UpdateConfig lib P cfg d)) = app_config d) \<and>
   auth_nonce (snd (UpdateConfig lib P cfg d)) = auth_nonce d"
proof (intro conjI impI)
  assume "\<not> config_ok lib cfg"
  then obtain e where "ValidateConfig lib cfg = Some e"
    by (auto simp flip: ValidateConfig_None_iff)
  then show "\<exists>e. UpdateConfig lib P cfg d = (Some (Invalid e), d)" by (simp add: UpdateConfig_def)
next
  assume "fst (UpdateConfig lib P cfg d) \<noteq> None"
  then obtain e where "UpdateConfig lib P cfg d = (Some e, snd (UpdateConfig lib P cfg d))"
    by (metis not_None_eq prod.collapse)
  from UpdateConfig_Some [OF this] show "app_config (snd (UpdateConfig lib P cfg d)) = app_config d" by blast
qed (rule UpdateConfig_frame)

theorem UpdateConfig_atomic_witness:
  "\<exists>e. UpdateConfig demo_lib demo_pg zeroConfig demo_db = (Some (Invalid e), demo_db)"
proof -
  have "ValidateConfig demo_lib zeroConfig \<noteq> None" by code_simp
  then have "\<not> config_ok demo_lib zeroConfig" by (simp add: ValidateConfig_None_iff)
  then show ?thesis by (rule UpdateConfig_atomic [THEN conjunct1, rule_format])
qed

text \<open>
  C33: host settings are imported once and never win over the admin's. If the stored configuration differs from the
  defaults, \<^const>\<open>ImportLegacyConfig\<close> returns it and writes nothing; only a default row is replaced, by the host's
  settings with the database URL removed; an import that fails leaves the row as it was.
\<close>

theorem ImportLegacyConfig_never_overwrites:
  assumes "jsonb_law P" and "ImportLegacyConfig lib P legacy d = (r, d')"
  shows "(\<forall>current d1. GetConfig d = (Ok current, d1) \<and> \<not> configDeepEqual current DefaultConfig \<longrightarrow>
      r = Ok current \<and> d' = d1 \<and> row_config d' = Ok current) \<and>
    (\<forall>c. r = Ok c \<longrightarrow> row_config d = Ok c \<or> configDeepEqual (legacy\<lparr>DatabaseURL := []\<rparr>) c) \<and>
    (row_config d' = row_config d \<or>
      (\<exists>c. row_config d = Ok c \<and> configDeepEqual c DefaultConfig))"
proof -
  have keep: "r = Ok current \<and> d' = d1 \<and> row_config d' = Ok current"
    if "GetConfig d = (Ok current, d1)" "\<not> configDeepEqual current DefaultConfig" for current d1
    using that assms(2) GetConfig_Ok_row [OF that(1)] by (simp add: ImportLegacyConfig_keeps)
  have rest: "(\<forall>c. r = Ok c \<longrightarrow> row_config d = Ok c \<or> configDeepEqual (legacy\<lparr>DatabaseURL := []\<rparr>) c) \<and>
      (row_config d' = row_config d \<or> (\<exists>c. row_config d = Ok c \<and> configDeepEqual c DefaultConfig))"
    using assms(2)
  proof (cases rule: ImportLegacyConfig_cases)
    case read
    with GetConfig_frame [of d] GetConfig_Ok_row [of d _ d'] show ?thesis by auto
  next
    case (refused current d1 e)
    from UpdateConfig_Some [OF refused(2)] have "row_config d' = row_config d1" by (simp add: row_config_def)
    with GetConfig_Ok_row [OF refused(1)] refused(3) show ?thesis by simp
  next
    case (imported current d1 d2)
    from UpdateConfig_row [OF assms(1) imported(3)] obtain c
      where c: "row_config d2 = Ok c" "configDeepEqual (legacy\<lparr>DatabaseURL := []\<rparr>) c" by blast
    have "r = Ok c' \<longrightarrow> c' = c" for c' using c GetConfig_Ok_row [of d2 c' d'] imported(4) by simp
    with c(2) GetConfig_Ok_row [OF imported(1)] imported(2) show ?thesis by blast
  qed
  from keep rest show ?thesis by blast
qed

theorem ImportLegacyConfig_never_overwrites_witness:
  "let d = demo_db\<lparr>app_config := Some (DObject (configMembers demo_config))\<rparr> in
     fst (ImportLegacyConfig demo_lib demo_pg (demo_config\<lparr>IssuerURL := ''https://evil.example''\<rparr>) d) = Ok demo_config"
proof -
  let ?d = "demo_db\<lparr>app_config := Some (DObject (configMembers demo_config))\<rparr>"
  let ?i = "ImportLegacyConfig demo_lib demo_pg (demo_config\<lparr>IssuerURL := ''https://evil.example''\<rparr>) ?d"
  have i: "?i = (fst ?i, snd ?i)" by simp
  have m: "marshalConfig demo_config = Ok (DObject (configMembers demo_config))" by code_simp
  have q: "query ?d = (None, ?d)" by (rule query_calm) (simp_all add: demo_db_def)
  have g: "GetConfig ?d = (Ok demo_config, ?d)"
    using decodeConfig_marshal [OF m refl, of DefaultConfig] q by (simp add: GetConfig_row)
  have ne: "\<not> configDeepEqual demo_config DefaultConfig"
    by (simp add: configDeepEqual_def demo_config_def DefaultConfig_def loadDefaults_def zeroConfig_def)
  from ImportLegacyConfig_never_overwrites [OF demo_pg_laws(1) i] g ne show ?thesis
    unfolding Let_def by blast
qed

end
