(* ===== verification/Auth.thy ===== *)
theory Auth
  imports Claims Rate_Limit Secure_Http Audit_Log Base64 Store
begin

text \<open>
  \<^verbatim>\<open>internal/auth/server.go\<close>: the two halves of the login, \<^verbatim>\<open>InitAuthorize\<close> and
  \<^verbatim>\<open>ExchangeCode\<close>.

  State (\<open>auth_state\<close>): the limiter (\<open>None\<close> when nil), the audit log and the database behind the nonce
  consumer. Parameters: \<open>idp\<close> is the identity provider as the \<^verbatim>\<open>oauth2\<close> and \<^verbatim>\<open>go-oidc\<close> libraries
  present it, every call taking the loopback permission of the HTTP client it runs on; \<open>authlib\<close> holds
  SHA-256, the RFC 3339 clock format, the authorize-URL builder and \<^verbatim>\<open>structpb\<close>. The clocks read during one
  call are the record \<open>clocks\<close>.

  A denied call is a value \<open>Deny audit status\<close>: what the handler passes to \<^verbatim>\<open>AuthDecision\<close>, if
  anything, right before it returns the status. \<open>exchangeOutcome\<close> runs the gates in the handler's order, \<open>ExchangeCode\<close>
  adds the audit record.
\<close>

unbundle bit_operations_syntax

subsection \<open>gRPC statuses\<close>

datatype grpc_code =
    FailedPrecondition
  | InvalidArgument
  | Unauthenticated
  | PermissionDenied
  | ResourceExhausted
  | Internal
  | Unimplemented

record status =
  st_code :: grpc_code
  st_msg :: string
  st_retry :: "duration option"

definition status_error :: "grpc_code \<Rightarrow> string \<Rightarrow> status" where
  "status_error c msg = \<lparr>st_code = c, st_msg = msg, st_retry = None\<rparr>"

subsection \<open>Parameters\<close>

record token =
  tk_access :: string
  tk_id_token :: "json option"

record id_token =
  it_Nonce :: string
  it_Claims :: "(string, claims) result"

record idp =
  idp_exchange :: "bool \<Rightarrow> oauth2_config \<Rightarrow> string \<Rightarrow> (string \<times> string) list \<Rightarrow> (string, token) result"
  idp_verify :: "bool \<Rightarrow> verifier \<Rightarrow> string \<Rightarrow> (string, id_token) result"
  idp_userinfo :: "bool \<Rightarrow> discovered \<Rightarrow> token \<Rightarrow> (string, (string, claims) result) result"

record authlib =
  al_sha256 :: "string \<Rightarrow> 8 word list"
  time_format :: "instant \<Rightarrow> string"
  time_parse :: "string \<Rightarrow> instant option"
  auth_code_url :: "oauth2_config \<Rightarrow> string \<Rightarrow> (string \<times> string) list \<Rightarrow> string"
  new_struct :: "claims \<Rightarrow> string check"
  details_ok :: "duration \<Rightarrow> bool"

record clocks =
  ck_limit :: instant
  ck_since :: instant
  ck_nonce :: instant
  ck_db :: instant

subsection \<open>Server\<close>

type_synonym ConsumeNonceFn = "instant \<Rightarrow> string \<Rightarrow> instant \<Rightarrow> db \<Rightarrow> store_error check \<times> db"

record Server =
  cfgFn :: Config
  provFn :: "Provider option"
  auditLog :: "Logger option"
  consumeNonc :: "ConsumeNonceFn option"

record auth_state =
  as_limiter :: "Limiter option"
  as_log :: log
  as_db :: db

definition NewServer :: "Config \<Rightarrow> Provider option \<Rightarrow> Logger option \<Rightarrow> ConsumeNonceFn option \<Rightarrow> Server" where
  "NewServer cfg prov l consume =
     \<lparr>cfgFn = cfg, provFn = prov,
      auditLog = (case l of None \<Rightarrow> Some NewLogger | Some lg \<Rightarrow> Some lg),
      consumeNonc = consume\<rparr>"

definition stateTTL :: duration where "stateTTL = 10 * minute"

definition Authenticate :: "(status, unit) result" where
  "Authenticate = Err (status_error Unimplemented ''OIDC plugin is OAuth-only; use InitAuthorize / ExchangeCode'')"

definition RefreshSession :: "(status, unit) result" where
  "RefreshSession = Err (status_error Unimplemented ''refresh not supported in v1'')"

text \<open>\<^verbatim>\<open>randB64(n)\<close> over the entropy source; \<open>pkceS256\<close>.\<close>

type_synonym entropy = "nat \<Rightarrow> (string, 8 word list) result"

definition randB64 :: "entropy \<Rightarrow> nat \<Rightarrow> (string, string) result" where
  "randB64 src n = (case src n of Err e \<Rightarrow> Err e | Ok b \<Rightarrow> Ok (rawURLEncode b))"

definition pkceS256 :: "authlib \<Rightarrow> string \<Rightarrow> string" where
  "pkceS256 al verifier = rawURLEncode (al_sha256 al verifier)"

subsection \<open>\<^verbatim>\<open>InitAuthorize\<close>\<close>

record InitAuthorizeRequest =
  ir_state :: string
  ir_redirect_uri :: string

record InitAuthorizeResponse =
  AuthorizeUrl :: string
  ProviderState :: claims

definition providerState :: "string \<Rightarrow> string \<Rightarrow> string \<Rightarrow> string \<Rightarrow> string \<Rightarrow> claims" where
  "providerState verifier nonce reqState redirectURI issuedAt = fmap_of_list
     [(''pkce_verifier'', JString verifier), (''nonce'', JString nonce), (''state'', JString reqState),
      (''redirect_uri'', JString redirectURI), (''issued_at'', JString issuedAt)]"

text \<open>The two reads of the entropy source are \<open>src1\<close> and \<open>src2\<close>.\<close>

definition InitAuthorize ::
  "authlib \<Rightarrow> Server \<Rightarrow> entropy \<Rightarrow> entropy \<Rightarrow> instant \<Rightarrow> InitAuthorizeRequest \<Rightarrow>
   (status, InitAuthorizeResponse) result" where
  "InitAuthorize al srv src1 src2 now req =
     (case provFn srv of
        None \<Rightarrow> Err (status_error FailedPrecondition ''plugin not configured'')
      | Some prov \<Rightarrow>
          (case randB64 src1 48 of
             Err e \<Rightarrow> Err (status_error Internal (''entropy: '' @ e))
           | Ok verifier \<Rightarrow>
               (case randB64 src2 32 of
                  Err e \<Rightarrow> Err (status_error Internal (''entropy: '' @ e))
                | Ok nonce \<Rightarrow>
                    let challenge = pkceS256 al verifier;
                        redirectURI = ir_redirect_uri req;
                        cfg = (pv_oauth2Config prov)\<lparr>oc_RedirectURL := redirectURI\<rparr>;
                        reqState = ir_state req;
                        authURL = auth_code_url al cfg reqState
                          [(''nonce'', nonce), (''code_challenge'', challenge), (''code_challenge_method'', ''S256'')];
                        pState = providerState verifier nonce reqState redirectURI (time_format al now)
                    in (case new_struct al pState of
                          Some e \<Rightarrow> Err (status_error Internal (''structpb: '' @ e))
                        | None \<Rightarrow> Ok \<lparr>AuthorizeUrl = authURL, ProviderState = pState\<rparr>))))"

subsection \<open>\<^verbatim>\<open>ExchangeCode\<close>\<close>

record ExchangeCodeRequest =
  xr_code :: string
  xr_state :: string
  xr_redirect_uri :: string
  xr_provider_state :: "claims option"

record AuthenticateResponse =
  ExternalSubject :: string
  ar_DisplayName :: string
  ar_Email :: string
  ar_Claims :: claims

definition peerIP :: "string option \<Rightarrow> string" where
  "peerIP peer =
     (case peer of
        None \<Rightarrow> []
      | Some addr \<Rightarrow> (case SplitHostPort addr of Err _ \<Rightarrow> addr | Ok (host, _) \<Rightarrow> host))"

definition rateKey :: "string \<Rightarrow> string" where
  "rateKey ip = (if ip = [] then ''unknown'' else ip)"

definition rateLimitErr :: "authlib \<Rightarrow> duration \<Rightarrow> status" where
  "rateLimitErr al retry =
     (let st = status_error ResourceExhausted ''rate limit exceeded''
      in if details_ok al retry then st\<lparr>st_retry := Some retry\<rparr> else st)"

datatype denial = Deny (deny_audit: "(Reason \<times> string) option") (deny_status: status)

definition refuse :: "Reason \<Rightarrow> string \<Rightarrow> grpc_code \<Rightarrow> string \<Rightarrow> denial" where
  "refuse r sub c msg = Deny (Some (r, sub)) (status_error c msg)"

text \<open>\<^verbatim>\<open>subtle.ConstantTimeCompare\<close>: the accumulated difference of the bytes.\<close>

definition ConstantTimeCompare :: "string \<Rightarrow> string \<Rightarrow> nat" where
  "ConstantTimeCompare x y =
     (if length x \<noteq> length y then 0
      else if foldl (\<lambda>v (a, b). v OR (of_nat (of_char a) XOR of_nat (of_char b))) (0 :: 8 word) (zip x y) = 0
      then 1 else 0)"

text \<open>The fields read from \<^verbatim>\<open>provider_state\<close>; a nil struct is an empty map.\<close>

record pstate =
  ps_verifier :: string
  ps_nonce :: string
  ps_state :: string
  ps_redirect :: string
  ps_issuedAt :: string

definition readState :: "claims option \<Rightarrow> pstate" where
  "readState ps =
     (let m = (case ps of None \<Rightarrow> fmempty | Some m \<Rightarrow> m)
      in \<lparr>ps_verifier = string_at m ''pkce_verifier'', ps_nonce = string_at m ''nonce'',
          ps_state = string_at m ''state'', ps_redirect = string_at m ''redirect_uri'',
          ps_issuedAt = string_at m ''issued_at''\<rparr>)"

definition stale :: "authlib \<Rightarrow> instant \<Rightarrow> string \<Rightarrow> bool" where
  "stale al now issuedAt =
     (if issuedAt \<noteq> [] then
        (case time_parse al issuedAt of
           None \<Rightarrow> False
         | Some ts \<Rightarrow> timeSub now ts > stateTTL)
      else False)"

definition checkState :: "authlib \<Rightarrow> instant \<Rightarrow> ExchangeCodeRequest \<Rightarrow> pstate \<Rightarrow> denial check" where
  "checkState al now req ps = first_error
     [fail_if (ps_verifier ps = [] \<or> ps_nonce ps = [])
        (refuse ReasonInvalidProviderArgs [] InvalidArgument ''missing pkce_verifier or nonce in provider_state''),
      fail_if (stale al now (ps_issuedAt ps))
        (refuse ReasonStaleState [] Unauthenticated ''authorization request expired''),
      fail_if (ps_state ps \<noteq> [] \<and> ConstantTimeCompare (xr_state req) (ps_state ps) \<noteq> 1)
        (refuse ReasonStateMismatch [] Unauthenticated ''state mismatch''),
      fail_if (ps_redirect ps \<noteq> [] \<and> ConstantTimeCompare (xr_redirect_uri req) (ps_redirect ps) \<noteq> 1)
        (refuse ReasonRedirectMismatch [] Unauthenticated ''redirect_uri mismatch'')]"

definition consumeStep :: "Server \<Rightarrow> clocks \<Rightarrow> string \<Rightarrow> db \<Rightarrow> denial check \<times> db" where
  "consumeStep srv ck nonce d =
     (case consumeNonc srv of
        None \<Rightarrow> (None, d)
      | Some consume \<Rightarrow>
          (case consume (ck_db ck) nonce (ck_nonce ck + stateTTL) d of
             (None, d') \<Rightarrow> (None, d')
           | (Some err, d') \<Rightarrow>
               (Some (if err = ErrReplay
                      then refuse ReasonReplay [] Unauthenticated ''authorization code already used''
                      else Deny None (status_error Internal ''replay check failed'')), d')))"

definition redeem ::
  "idp \<Rightarrow> Provider \<Rightarrow> pstate \<Rightarrow> ExchangeCodeRequest \<Rightarrow> (denial, token \<times> claims) result" where
  "redeem I prov ps req =
     (let allow = pv_clientAllowsLoopback prov;
          oc = (pv_oauth2Config prov)\<lparr>oc_RedirectURL := xr_redirect_uri req\<rparr>
      in case idp_exchange I allow oc (xr_code req) [(''code_verifier'', ps_verifier ps)] of
           Err _ \<Rightarrow> Err (refuse ReasonExchangeFailed [] Internal ''token exchange failed'')
         | Ok tok \<Rightarrow>
             let rawIDToken = (case tk_id_token tok of Some (JString s) \<Rightarrow> s | _ \<Rightarrow> [])
             in if rawIDToken = [] then Err (refuse ReasonVerifyFailed [] Internal ''no id_token in response'')
                else case idp_verify I allow (pv_verifier prov) rawIDToken of
                  Err _ \<Rightarrow> Err (refuse ReasonVerifyFailed [] Internal ''id_token verification failed'')
                | Ok idToken \<Rightarrow>
                    if it_Nonce idToken \<noteq> ps_nonce ps
                    then Err (refuse ReasonNonceMismatch [] Unauthenticated ''nonce mismatch'')
                    else case it_Claims idToken of
                      Err e \<Rightarrow> Err (refuse ReasonVerifyFailed [] Internal (''decode id_token claims: '' @ e))
                    | Ok idClaims \<Rightarrow> Ok (tok, idClaims))"

definition mergeUserInfo :: "idp \<Rightarrow> Provider \<Rightarrow> token \<Rightarrow> claims \<Rightarrow> (denial, claims) result" where
  "mergeUserInfo I prov tok idClaims =
     (let idSub = string_at idClaims ''sub'' in
      if idSub = [] then Err (refuse ReasonMissingSubject [] Unauthenticated ''id_token missing subject'')
      else case idp_userinfo I (pv_clientAllowsLoopback prov) (pv_provider prov) tok of
        Err _ \<Rightarrow> Ok idClaims
      | Ok ui \<Rightarrow>
          (case ui of
             Err _ \<Rightarrow> Ok idClaims
           | Ok uClaims \<Rightarrow>
               let uiSub = string_at uClaims ''sub'' in
               if uiSub \<noteq> [] \<and> uiSub \<noteq> idSub
               then Err (refuse ReasonSubjectMismatch idSub Unauthenticated ''userinfo subject mismatch'')
               else Ok (fmadd idClaims uClaims)))"

definition gate :: "golib \<Rightarrow> Config \<Rightarrow> claims \<Rightarrow> claims \<Rightarrow> (denial, claims) result" where
  "gate lib cfg idClaims merged =
     (let idEmailVerified = fst (EmailVerified idClaims);
          idEmail = string_at idClaims ''email'';
          idSub = string_at idClaims ''sub''
      in if EmailVerifiedRequired cfg \<and> \<not> idEmailVerified
         then Err (refuse ReasonEmailUnverified idSub PermissionDenied ''email not verified'')
         else if EvaluateFilters lib merged (elems (ClaimFilters cfg)) \<noteq> None
         then Err (refuse ReasonClaimFilterReject idSub PermissionDenied ''claim filter rejected'')
         else let m1 = fmupd ''silo_role'' (JString (ResolveRole lib merged (elems (ClaimRoleMapping cfg)))) merged;
                  m2 = (if LinkByEmail cfg \<and> idEmailVerified \<and> idEmail \<noteq> []
                        then fmupd ''silo_link_by_email'' (JBool True) m1 else m1)
              in Ok m2)"

definition respond :: "authlib \<Rightarrow> claims \<Rightarrow> (denial, AuthenticateResponse) result" where
  "respond al merged =
     (let id = DeriveIdentity merged in
      case new_struct al merged of
        Some e \<Rightarrow> Err (Deny None (status_error Internal (''claims structpb: '' @ e)))
      | None \<Rightarrow> Ok \<lparr>ExternalSubject = Subject id, ar_DisplayName = id_DisplayName id, ar_Email = Email id,
          ar_Claims = merged\<rparr>)"

text \<open>From the token exchange to the response.\<close>

definition login ::
  "golib \<Rightarrow> authlib \<Rightarrow> idp \<Rightarrow> Config \<Rightarrow> Provider \<Rightarrow> pstate \<Rightarrow> ExchangeCodeRequest \<Rightarrow>
   (denial, AuthenticateResponse) result" where
  "login lib al I cfg prov ps req =
     (case redeem I prov ps req of
        Err d \<Rightarrow> Err d
      | Ok (tok, idClaims) \<Rightarrow>
          (case mergeUserInfo I prov tok idClaims of
             Err d \<Rightarrow> Err d
           | Ok merged \<Rightarrow>
               (case gate lib cfg idClaims merged of
                  Err d \<Rightarrow> Err d
                | Ok merged' \<Rightarrow> respond al merged')))"

definition admit :: "authlib \<Rightarrow> clocks \<Rightarrow> string \<Rightarrow> Limiter option \<Rightarrow> denial check \<times> Limiter option" where
  "admit al ck ip lm =
     (case lm of
        None \<Rightarrow> (None, None)
      | Some l \<Rightarrow>
          (case Allow (ck_limit ck) (''exchange:'' @ rateKey ip) l of
             ((ok, retry), l') \<Rightarrow>
               (if ok then None else Some (Deny (Some (ReasonRateLimited, [])) (rateLimitErr al retry)), Some l')))"

definition exchangeOutcome ::
  "golib \<Rightarrow> authlib \<Rightarrow> idp \<Rightarrow> Server \<Rightarrow> clocks \<Rightarrow> string \<Rightarrow> ExchangeCodeRequest \<Rightarrow> auth_state \<Rightarrow>
   (denial, AuthenticateResponse) result \<times> auth_state" where
  "exchangeOutcome lib al I srv ck ip req s =
     (case admit al ck ip (as_limiter s) of
        (Some d, lm) \<Rightarrow> (Err d, s\<lparr>as_limiter := lm\<rparr>)
      | (None, lm) \<Rightarrow>
          let s1 = s\<lparr>as_limiter := lm\<rparr> in
          (case provFn srv of
             None \<Rightarrow> (Err (refuse ReasonNotConfigured [] FailedPrecondition ''plugin not configured''), s1)
           | Some prov \<Rightarrow>
               let ps = readState (xr_provider_state req) in
               (case checkState al (ck_since ck) req ps of
                  Some d \<Rightarrow> (Err d, s1)
                | None \<Rightarrow>
                    (case consumeStep srv ck (ps_nonce ps) (as_db s1) of
                       (Some d, db') \<Rightarrow> (Err d, s1\<lparr>as_db := db'\<rparr>)
                     | (None, db') \<Rightarrow> (login lib al I (cfgFn srv) prov ps req, s1\<lparr>as_db := db'\<rparr>)))))"

definition audited :: "Server \<Rightarrow> string \<Rightarrow> (denial, AuthenticateResponse) result \<Rightarrow> log \<Rightarrow> log" where
  "audited srv ip r lg =
     (case r of
        Err (Deny None _) \<Rightarrow> lg
      | Err (Deny (Some (reason, sub)) _) \<Rightarrow> AuthDecision (auditLog srv) False reason sub [] ip lg
      | Ok resp \<Rightarrow> AuthDecision (auditLog srv) True ReasonSuccess (ExternalSubject resp) [] ip lg)"

definition ExchangeCode ::
  "golib \<Rightarrow> authlib \<Rightarrow> idp \<Rightarrow> Server \<Rightarrow> clocks \<Rightarrow> string option \<Rightarrow> ExchangeCodeRequest \<Rightarrow> auth_state \<Rightarrow>
   (status, AuthenticateResponse) result \<times> auth_state" where
  "ExchangeCode lib al I srv ck peer req s =
     (let ip = peerIP peer in
      case exchangeOutcome lib al I srv ck ip req s of
        (r, s') \<Rightarrow> (map_sum deny_status id r, s'\<lparr>as_log := audited srv ip r (as_log s')\<rparr>))"

subsection \<open>Facts about the steps\<close>

lemma word_or_eq_0: "a OR b = 0 \<longleftrightarrow> a = 0 \<and> b = 0" for a b :: "8 word"
  by (metis or.left_neutral or_eq_0_iff)

lemma word_xor_eq_0: "a XOR b = 0 \<longleftrightarrow> a = b" for a b :: "8 word"
  by (metis xor.assoc xor.right_neutral xor_self_eq)

lemma of_char_word_inject: "(of_nat (of_char a) :: 8 word) = of_nat (of_char b) \<longleftrightarrow> a = b"
proof
  assume "(of_nat (of_char a) :: 8 word) = of_nat (of_char b)"
  then have "(of_char a :: nat) mod 256 = of_char b mod 256"
    by (simp add: of_nat_eq_iff take_bit_eq_mod word_of_nat_eq_iff)
  then show "a = b" by (metis of_char_eq_iff of_char_mod_256)
qed simp

lemma ConstantTimeCompare_iff [simp]: "ConstantTimeCompare x y = Suc 0 \<longleftrightarrow> x = y"
proof -
  have "foldl (\<lambda>v (a, b). v OR (of_nat (of_char a) XOR of_nat (of_char b))) (w :: 8 word) (zip x y) = 0 \<longleftrightarrow>
      w = 0 \<and> x = y" if "length x = length y" for w
    using that
    by (induction x y arbitrary: w rule: list_induct2)
      (auto simp: word_or_eq_0 word_xor_eq_0 of_char_word_inject)
  then show ?thesis by (auto simp: ConstantTimeCompare_def)
qed

lemma checkState_None_iff:
  "checkState al now req ps = None \<longleftrightarrow>
     ps_verifier ps \<noteq> [] \<and> ps_nonce ps \<noteq> [] \<and> \<not> stale al now (ps_issuedAt ps) \<and>
     (ps_state ps \<noteq> [] \<longrightarrow> xr_state req = ps_state ps) \<and>
     (ps_redirect ps \<noteq> [] \<longrightarrow> xr_redirect_uri req = ps_redirect ps)"
  by (auto simp: checkState_def first_error_None_iff)

lemma redeem_Ok_iff:
  "redeem I prov ps req = Ok (tok, idClaims) \<longleftrightarrow>
     (\<exists>raw idt.
        idp_exchange I (pv_clientAllowsLoopback prov)
          ((pv_oauth2Config prov)\<lparr>oc_RedirectURL := xr_redirect_uri req\<rparr>) (xr_code req)
          [(''code_verifier'', ps_verifier ps)] = Ok tok \<and>
        tk_id_token tok = Some (JString raw) \<and> raw \<noteq> [] \<and>
        idp_verify I (pv_clientAllowsLoopback prov) (pv_verifier prov) raw = Ok idt \<and>
        it_Nonce idt = ps_nonce ps \<and> it_Claims idt = Ok idClaims)"
  by (auto simp: redeem_def Let_def split: sum.splits option.splits json.splits if_splits)

text \<open>The userinfo claims that take part in the merge, if any.\<close>

definition userClaims :: "idp \<Rightarrow> Provider \<Rightarrow> token \<Rightarrow> claims" where
  "userClaims I prov tok =
     (case idp_userinfo I (pv_clientAllowsLoopback prov) (pv_provider prov) tok of
        Ok (Ok u) \<Rightarrow> u | _ \<Rightarrow> fmempty)"

lemma mergeUserInfo_Ok_iff:
  "mergeUserInfo I prov tok idClaims = Ok merged \<longleftrightarrow>
     string_at idClaims ''sub'' \<noteq> [] \<and>
     string_at (userClaims I prov tok) ''sub'' \<in> {[], string_at idClaims ''sub''} \<and>
     merged = fmadd idClaims (userClaims I prov tok)"
  by (auto simp: mergeUserInfo_def userClaims_def Let_def string_at_def [of fmempty] split: sum.splits)

text \<open>What the gates make of the merged claims.\<close>

definition decorate :: "golib \<Rightarrow> Config \<Rightarrow> claims \<Rightarrow> claims \<Rightarrow> claims" where
  "decorate lib cfg idClaims merged =
     (let m = fmupd ''silo_role'' (JString (ResolveRole lib merged (elems (ClaimRoleMapping cfg)))) merged
      in if LinkByEmail cfg \<and> fst (EmailVerified idClaims) \<and> string_at idClaims ''email'' \<noteq> []
         then fmupd ''silo_link_by_email'' (JBool True) m else m)"

lemma gate_Ok_iff:
  "gate lib cfg idClaims merged = Ok out \<longleftrightarrow>
     (EmailVerifiedRequired cfg \<longrightarrow> fst (EmailVerified idClaims)) \<and>
     EvaluateFilters lib merged (elems (ClaimFilters cfg)) = None \<and>
     out = decorate lib cfg idClaims merged"
  by (auto simp: gate_def decorate_def Let_def)

definition response :: "claims \<Rightarrow> AuthenticateResponse" where
  "response m = \<lparr>ExternalSubject = Subject (DeriveIdentity m), ar_DisplayName = id_DisplayName (DeriveIdentity m),
     ar_Email = Email (DeriveIdentity m), ar_Claims = m\<rparr>"

lemma respond_Ok_iff: "respond al m = Ok resp \<longleftrightarrow> new_struct al m = None \<and> resp = response m"
  by (auto simp: respond_def response_def Let_def split: option.splits)

lemma login_Ok_iff:
  "login lib al I cfg prov ps req = Ok resp \<longleftrightarrow>
     (\<exists>tok idClaims merged out.
        redeem I prov ps req = Ok (tok, idClaims) \<and> mergeUserInfo I prov tok idClaims = Ok merged \<and>
        gate lib cfg idClaims merged = Ok out \<and> respond al out = Ok resp)"
  by (auto simp: login_def split: sum.splits)

lemma exchangeOutcome_Ok_iff:
  "exchangeOutcome lib al I srv ck ip req s = (Ok resp, s') \<longleftrightarrow>
     (\<exists>lm prov d'.
        admit al ck ip (as_limiter s) = (None, lm) \<and> provFn srv = Some prov \<and>
        checkState al (ck_since ck) req (readState (xr_provider_state req)) = None \<and>
        consumeStep srv ck (ps_nonce (readState (xr_provider_state req))) (as_db s) = (None, d') \<and>
        login lib al I (cfgFn srv) prov (readState (xr_provider_state req)) req = Ok resp \<and>
        s' = s\<lparr>as_limiter := lm, as_db := d'\<rparr>)"
  by (auto simp: exchangeOutcome_def Let_def split: option.splits prod.splits)

lemma ExchangeCode_Ok_iff:
  "fst (ExchangeCode lib al I srv ck peer req s) = Ok resp \<longleftrightarrow>
     (\<exists>s'. exchangeOutcome lib al I srv ck (peerIP peer) req s = (Ok resp, s'))"
proof (cases "exchangeOutcome lib al I srv ck (peerIP peer) req s")
  case (Pair r s')
  then show ?thesis by (cases r) (simp_all add: ExchangeCode_def Let_def)
qed

lemma ExchangeCode_db: "as_db (snd (ExchangeCode lib al I srv ck peer req s)) =
    as_db (snd (exchangeOutcome lib al I srv ck (peerIP peer) req s))"
  by (simp add: ExchangeCode_def Let_def split: prod.split)

lemma consumeStep_None_iff:
  "consumeStep srv ck n d = (None, d') \<longleftrightarrow>
     (case consumeNonc srv of
        None \<Rightarrow> d' = d
      | Some consume \<Rightarrow> consume (ck_db ck) n (ck_nonce ck + stateTTL) d = (None, d'))"
  by (auto simp: consumeStep_def split: option.splits prod.splits)

lemma exchangeOutcome_log: "as_log (snd (exchangeOutcome lib al I srv ck ip req s)) = as_log s"
  by (simp add: exchangeOutcome_def Let_def split: option.split prod.split)

text \<open>The denials that no audit record accompanies.\<close>

lemma unaudited_checkState: "checkState al now req ps \<noteq> Some (Deny None st)"
  by (simp add: checkState_def first_error_Cons_Some refuse_def)

lemma unaudited_login:
  assumes "login lib al I cfg prov ps req = Err (Deny None st)"
  shows "st_code st = Internal \<and> (\<exists>e. st_msg st = ''claims structpb: '' @ e)"
proof -
  have "redeem I prov ps req \<noteq> Err (Deny None st)"
    by (auto simp: redeem_def refuse_def Let_def split: sum.splits option.splits json.splits if_splits)
  moreover have "mergeUserInfo I prov tok c \<noteq> Err (Deny None st)" for tok c
    by (auto simp: mergeUserInfo_def refuse_def Let_def split: sum.splits)
  moreover have "gate lib cfg c m \<noteq> Err (Deny None st)" for c m
    by (auto simp: gate_def refuse_def Let_def)
  ultimately show ?thesis
    using assms by (auto simp: login_def respond_def status_error_def Let_def split: sum.splits option.splits)
qed

lemma exchangeOutcome_cases:
  obtains (limited) d lm where "admit al ck ip (as_limiter s) = (Some d, lm)"
      "exchangeOutcome lib al I srv ck ip req s = (Err d, s\<lparr>as_limiter := lm\<rparr>)"
  | (unconfigured) lm where "admit al ck ip (as_limiter s) = (None, lm)" "provFn srv = None"
      "exchangeOutcome lib al I srv ck ip req s =
        (Err (refuse ReasonNotConfigured [] FailedPrecondition ''plugin not configured''), s\<lparr>as_limiter := lm\<rparr>)"
  | (rejected) lm prov d where "admit al ck ip (as_limiter s) = (None, lm)" "provFn srv = Some prov"
      "checkState al (ck_since ck) req (readState (xr_provider_state req)) = Some d"
      "exchangeOutcome lib al I srv ck ip req s = (Err d, s\<lparr>as_limiter := lm\<rparr>)"
  | (consumed) lm prov d db' where "admit al ck ip (as_limiter s) = (None, lm)" "provFn srv = Some prov"
      "checkState al (ck_since ck) req (readState (xr_provider_state req)) = None"
      "consumeStep srv ck (ps_nonce (readState (xr_provider_state req))) (as_db s) = (Some d, db')"
      "exchangeOutcome lib al I srv ck ip req s = (Err d, s\<lparr>as_limiter := lm, as_db := db'\<rparr>)"
  | (run) lm prov db' where "admit al ck ip (as_limiter s) = (None, lm)" "provFn srv = Some prov"
      "checkState al (ck_since ck) req (readState (xr_provider_state req)) = None"
      "consumeStep srv ck (ps_nonce (readState (xr_provider_state req))) (as_db s) = (None, db')"
      "exchangeOutcome lib al I srv ck ip req s =
        (login lib al I (cfgFn srv) prov (readState (xr_provider_state req)) req, s\<lparr>as_limiter := lm, as_db := db'\<rparr>)"
proof -
  note un = exchangeOutcome_def [of lib al I srv ck ip req s, unfolded Let_def]
  obtain ad lm where a: "admit al ck ip (as_limiter s) = (ad, lm)" by force
  obtain cd db' where c: "consumeStep srv ck (ps_nonce (readState (xr_provider_state req))) (as_db s) = (cd, db')"
    by force
  show thesis
  proof (cases ad)
    case (Some d)
    with a un show thesis by (intro limited) simp_all
  next
    case None
    note a = a [unfolded None]
    show thesis
    proof (cases "provFn srv")
      case None
      with a un show thesis by (intro unconfigured) simp_all
    next
      case (Some prov)
      show thesis
      proof (cases "checkState al (ck_since ck) req (readState (xr_provider_state req))")
        case (Some d)
        with a \<open>provFn srv = Some prov\<close> un show thesis by (intro rejected) simp_all
      next
        case None
        with a \<open>provFn srv = Some prov\<close> un c show thesis
          by (cases cd) (auto intro: consumed run)
      qed
    qed
  qed
qed

lemma exchangeOutcome_unaudited:
  assumes "exchangeOutcome lib al I srv ck ip req s = (Err (Deny None st), s')"
  shows "st_code st = Internal \<and> (st_msg st = ''replay check failed'' \<or> (\<exists>e. st_msg st = ''claims structpb: '' @ e))"
proof (cases rule: exchangeOutcome_cases [of al ck ip s lib I srv req])
  case (limited d lm)
  with assms show ?thesis by (auto simp: admit_def split: option.splits prod.splits if_splits)
next
  case (unconfigured lm)
  with assms show ?thesis by (simp add: refuse_def)
next
  case (rejected lm prov d)
  with assms unaudited_checkState show ?thesis by auto
next
  case (consumed lm prov d db')
  with assms show ?thesis
    by (auto simp: consumeStep_def refuse_def status_error_def split: option.splits prod.splits if_splits)
next
  case (run lm prov db')
  with assms unaudited_login show ?thesis by force
qed

subsection \<open>A concrete deployment\<close>

definition demo_authlib :: authlib where
  "demo_authlib = \<lparr>al_sha256 = sha256 demo_pg,
     time_format = (\<lambda>t. CHR ''T'' # replicate (nat t) (CHR ''i'')),
     time_parse = (\<lambda>s. if s = [] then None else Some (int (length (tl s)))),
     auth_code_url = (\<lambda>c st ps. fst (oc_Endpoint c) @ ''?state='' @ st @ concat (map (\<lambda>(k, v). ''&'' @ k @ ''='' @ v) ps)),
     new_struct = (\<lambda>_. None), details_ok = (\<lambda>_. True)\<rparr>"

definition demo_provider :: Provider where
  "demo_provider =
     (case NewProvider (\<lambda>_ issuer. Ok \<lparr>dc_Issuer = issuer, dc_Endpoint = (issuer @ ''auth'', issuer @ ''token'')\<rparr>)
        \<lparr>na_IssuerURL = ''https://idp.example/o/app/'', na_ClientID = ''silo'', na_ClientSecret = ''s3cret'',
         na_Scopes = ''openid profile email'', na_RedirectURL = [], na_AllowLoopback = False\<rparr> of Ok p \<Rightarrow> p)"

definition demo_nonce :: string where "demo_nonce = replicate 43 (CHR ''A'')"
definition demo_verifier :: string where "demo_verifier = replicate 64 (CHR ''A'')"

text \<open>An identity provider that honours one code, presented with the verifier and the redirect of the flow.\<close>

definition demo_idp :: idp where
  "demo_idp = \<lparr>
     idp_exchange = (\<lambda>_ oc code ps.
       if code = ''c0de'' \<and> ps = [(''code_verifier'', demo_verifier)] \<and> oc_RedirectURL oc = ''https://silo/cb''
       then Ok \<lparr>tk_access = ''at'', tk_id_token = Some (JString ''jwt'')\<rparr> else Err ''invalid_grant''),
     idp_verify = (\<lambda>_ v raw. if raw = ''jwt'' then Ok \<lparr>it_Nonce = demo_nonce, it_Claims = Ok demo_claims\<rparr>
       else Err ''bad signature''),
     idp_userinfo = (\<lambda>_ _ _. Ok (Ok (fmap_of_list [(''sub'', JString ''u1''), (''name'', JString ''Una'')])))\<rparr>"

definition demo_srv :: Server where
  "demo_srv = NewServer demo_config (Some demo_provider) None (Some (ConsumeNonce demo_pg))"

definition demo_req :: ExchangeCodeRequest where
  "demo_req = \<lparr>xr_code = ''c0de'', xr_state = ''st8'', xr_redirect_uri = ''https://silo/cb'',
     xr_provider_state = Some (providerState demo_verifier demo_nonce ''st8'' ''https://silo/cb'' ''Tii'')\<rparr>"

definition demo_clocks :: "instant \<Rightarrow> clocks" where
  "demo_clocks t = \<lparr>ck_limit = t, ck_since = t, ck_nonce = t, ck_db = t\<rparr>"

definition demo_state :: auth_state where
  "demo_state = \<lparr>as_limiter = None, as_log = [], as_db = demo_db\<rparr>"

definition demo_out :: claims where
  "demo_out = decorate demo_lib demo_config demo_claims
     (fmadd demo_claims (fmap_of_list [(''sub'', JString ''u1''), (''name'', JString ''Una'')]))"

lemma demo_checkState:
  assumes "0 \<le> t" "t \<le> stateTTL"
  shows "checkState demo_authlib t demo_req (readState (xr_provider_state demo_req)) = None"
    and "ps_nonce (readState (xr_provider_state demo_req)) = demo_nonce"
proof -
  show n: "ps_nonce (readState (xr_provider_state demo_req)) = demo_nonce" by code_simp
  have ps: "ps_verifier (readState (xr_provider_state demo_req)) = demo_verifier"
    "ps_state (readState (xr_provider_state demo_req)) = ''st8''"
    "ps_redirect (readState (xr_provider_state demo_req)) = ''https://silo/cb''"
    "ps_issuedAt (readState (xr_provider_state demo_req)) = ''Tii''" by code_simp+
  show "checkState demo_authlib t demo_req (readState (xr_provider_state demo_req)) = None"
    using assms n ps by (simp add: checkState_None_iff stale_def demo_authlib_def demo_nonce_def demo_verifier_def demo_req_def
        numeral_eq_Suc duration_defs stateTTL_def)
qed

lemma demo_exchange:
  assumes "0 \<le> t" "t \<le> stateTTL"
  shows "fst (ExchangeCode demo_lib demo_authlib demo_idp demo_srv (demo_clocks t) (Some ''10.0.0.1:4000'') demo_req
     demo_state) = Ok (response demo_out)"
proof -
  note st = demo_checkState(1) [OF assms] and n = demo_checkState(2) [OF assms]
  have c: "fst (ConsumeNonce demo_pg t demo_nonce (t + stateTTL) demo_db) = None"
    by (simp add: ConsumeNonce_def demo_db_def query_def attempt_def prune_def demo_nonce_def Let_def numeral_eq_Suc)
  have l: "login demo_lib demo_authlib demo_idp demo_config demo_provider (readState (xr_provider_state demo_req))
      demo_req = Ok (response demo_out)" by code_simp
  from c obtain d' where d': "ConsumeNonce demo_pg t demo_nonce (t + stateTTL) demo_db = (None, d')"
    by (metis prod.collapse)
  show ?thesis
    using st n d' l
    by (simp add: ExchangeCode_Ok_iff exchangeOutcome_Ok_iff admit_def demo_state_def demo_clocks_def demo_srv_def
        NewServer_def consumeStep_None_iff)
qed

subsection \<open>Properties of the callback\<close>

text \<open>
  C1: a login succeeds exactly when every gate is passed. \<^const>\<open>ExchangeCode\<close> returns an identity if and only if the
  caller is within its rate, a provider is configured, the provider state carries a verifier and a nonce and is not stale, state
  and redirect URI are the ones the flow was started with, the nonce was not used before, the IdP exchanges the code under the
  stored PKCE verifier, its id_token verifies under the pinned verifier and carries the flow's nonce and a subject, userinfo does not
  name another subject, the email is verified where required and every claim filter holds; the response is then the identity
  derived from the merged claims.
\<close>

theorem ExchangeCode_gates:
  "fst (ExchangeCode lib al I srv ck peer req s) = Ok resp \<longleftrightarrow>
     (let ps = readState (xr_provider_state req) in
      \<exists>lm prov d' tok raw idt idClaims.
        admit al ck (peerIP peer) (as_limiter s) = (None, lm) \<and> provFn srv = Some prov \<and>
        ps_verifier ps \<noteq> [] \<and> ps_nonce ps \<noteq> [] \<and> \<not> stale al (ck_since ck) (ps_issuedAt ps) \<and>
        (ps_state ps = [] \<or> xr_state req = ps_state ps) \<and>
        (ps_redirect ps = [] \<or> xr_redirect_uri req = ps_redirect ps) \<and>
        (case consumeNonc srv of None \<Rightarrow> True
         | Some consume \<Rightarrow> consume (ck_db ck) (ps_nonce ps) (ck_nonce ck + stateTTL) (as_db s) = (None, d')) \<and>
        idp_exchange I (pv_clientAllowsLoopback prov)
          ((pv_oauth2Config prov)\<lparr>oc_RedirectURL := xr_redirect_uri req\<rparr>) (xr_code req)
          [(''code_verifier'', ps_verifier ps)] = Ok tok \<and>
        tk_id_token tok = Some (JString raw) \<and> raw \<noteq> [] \<and>
        idp_verify I (pv_clientAllowsLoopback prov) (pv_verifier prov) raw = Ok idt \<and>
        it_Nonce idt = ps_nonce ps \<and> it_Claims idt = Ok idClaims \<and>
        string_at idClaims ''sub'' \<noteq> [] \<and>
        string_at (userClaims I prov tok) ''sub'' \<in> {[], string_at idClaims ''sub''} \<and>
        (\<not> EmailVerifiedRequired (cfgFn srv) \<or> fst (EmailVerified idClaims)) \<and>
        EvaluateFilters lib (fmadd idClaims (userClaims I prov tok)) (elems (ClaimFilters (cfgFn srv))) = None \<and>
        new_struct al (decorate lib (cfgFn srv) idClaims (fmadd idClaims (userClaims I prov tok))) = None \<and>
        resp = response (decorate lib (cfgFn srv) idClaims (fmadd idClaims (userClaims I prov tok))))"
  unfolding ExchangeCode_Ok_iff exchangeOutcome_Ok_iff checkState_None_iff consumeStep_None_iff login_Ok_iff
    redeem_Ok_iff mergeUserInfo_Ok_iff gate_Ok_iff respond_Ok_iff Let_def
  by (cases "consumeNonc srv") auto

theorem ExchangeCode_gates_witness:
  "EvaluateFilters demo_lib (fmadd demo_claims (userClaims demo_idp demo_provider
     \<lparr>tk_access = ''at'', tk_id_token = Some (JString ''jwt'')\<rparr>)) (elems (ClaimFilters demo_config)) = None"
proof -
  from ExchangeCode_gates [THEN iffD1, OF demo_exchange [of 5], unfolded Let_def]
  obtain tok raw idt idClaims where
    x: "idp_exchange demo_idp (pv_clientAllowsLoopback demo_provider)
      ((pv_oauth2Config demo_provider)\<lparr>oc_RedirectURL := xr_redirect_uri demo_req\<rparr>) (xr_code demo_req)
      [(''code_verifier'', ps_verifier (readState (xr_provider_state demo_req)))] = Ok tok"
    and v: "idp_verify demo_idp (pv_clientAllowsLoopback demo_provider) (pv_verifier demo_provider) raw = Ok idt"
    and c: "it_Claims idt = Ok idClaims"
    and f: "EvaluateFilters demo_lib (fmadd idClaims (userClaims demo_idp demo_provider tok))
      (elems (ClaimFilters (cfgFn demo_srv))) = None"
    by (auto simp: demo_srv_def NewServer_def stateTTL_def duration_defs)
  have "tok = \<lparr>tk_access = ''at'', tk_id_token = Some (JString ''jwt'')\<rparr>"
    using x by (simp add: demo_idp_def split: if_splits)
  moreover have "idClaims = demo_claims" using v c by (auto simp: demo_idp_def split: if_splits)
  ultimately show ?thesis using f by (simp add: demo_srv_def NewServer_def)
qed

text \<open>
  C14: every decision is audited. On success, and on every denial but two, the call appends exactly one record, whose level
  tells success from denial and which carries the peer's address; earlier records are kept. The exceptions, where nothing is
  written, are the internal errors of the nonce store and of the final conversion of the claims.
\<close>

theorem ExchangeCode_audited:
  assumes "auditLog srv = Some lg" and "ExchangeCode lib al I srv ck peer req s = (r, s')"
  shows "(\<exists>e. as_log s' = as_log s @ [e] \<and> ((en_level e = Info) = (\<exists>resp. r = Ok resp)) \<and>
      argString ''peer'' e = peerIP peer \<and> argString ''event'' e = ''auth_decision'' \<and>
      (\<forall>resp. r = Ok resp \<longrightarrow> argString ''reason'' e = ''success'' \<and> argString ''sub'' e = ExternalSubject resp)) \<or>
    (as_log s' = as_log s \<and> (\<exists>st. r = Err st \<and> st_code st = Internal \<and>
      (st_msg st = ''replay check failed'' \<or> (\<exists>e. st_msg st = ''claims structpb: '' @ e))))"
proof -
  let ?ip = "peerIP peer"
  obtain out s1 where o: "exchangeOutcome lib al I srv ck ?ip req s = (out, s1)" by force
  with assms(2) have r: "r = map_sum deny_status id out" and l: "as_log s' = audited srv ?ip out (as_log s1)"
    by (auto simp: ExchangeCode_def Let_def)
  have frame: "as_log s1 = as_log s" using exchangeOutcome_log [of lib al I srv ck ?ip req s] o by simp
  show ?thesis
  proof (cases out)
    case (Inr resp)
    with l frame assms(1) r show ?thesis
      by (intro disjI1, rule_tac AuthDecision_Some [of lg True ReasonSuccess "ExternalSubject resp" "[]" ?ip "as_log s"])
        (auto simp: audited_def)
  next
    case (Inl d)
    obtain a st where d: "d = Deny a st" by (cases d)
    show ?thesis
    proof (cases a)
      case (Some rs)
      obtain reason sub where rs: "rs = (reason, sub)" by force
      with l frame assms(1) r Inl d Some show ?thesis
        by (intro disjI1, rule_tac AuthDecision_Some [of lg False reason sub "[]" ?ip "as_log s"])
          (auto simp: audited_def)
    next
      case None
      with exchangeOutcome_unaudited [of lib al I srv ck ?ip req s st s1] o Inl d
      have "st_code st = Internal \<and> (st_msg st = ''replay check failed'' \<or> (\<exists>e. st_msg st = ''claims structpb: '' @ e))"
        by simp
      with l frame r Inl d None show ?thesis by (auto simp: audited_def)
    qed
  qed
qed

theorem ExchangeCode_audited_witness:
  "length (as_log (snd (ExchangeCode demo_lib demo_authlib demo_idp demo_srv (demo_clocks 5) (Some ''10.0.0.1:4000'')
     demo_req demo_state))) = 1"
proof -
  let ?x = "ExchangeCode demo_lib demo_authlib demo_idp demo_srv (demo_clocks 5) (Some ''10.0.0.1:4000'') demo_req demo_state"
  have a: "auditLog demo_srv = Some NewLogger" by (simp add: demo_srv_def NewServer_def)
  have x: "?x = (fst ?x, snd ?x)" by simp
  from ExchangeCode_audited [OF a x] demo_exchange [of 5] show ?thesis by (auto simp: demo_state_def stateTTL_def duration_defs)
qed

subsection \<open>Replay\<close>

text \<open>
  Events between two logins: other callbacks and operations of the store. The nonce contract of the store carries
  over to the state of the auth server.
\<close>

datatype auth_op =
    AExchange golib authlib idp Server clocks "string option" ExchangeCodeRequest
  | AStore store_op

fun auth_step :: "golib \<Rightarrow> pg \<Rightarrow> auth_op \<Rightarrow> auth_state \<Rightarrow> auth_state" where
  "auth_step lib P (AExchange lib' al I srv ck peer req) s = snd (ExchangeCode lib' al I srv ck peer req s)"
| "auth_step lib P (AStore op) s = s\<lparr>as_db := exec lib P op (as_db s)\<rparr>"

text \<open>
  Every event happens by time \<open>t\<close> of the database clock, and a callback uses the store's consumer, a consumer that does
  nothing (store not wired yet) or none.
\<close>

fun auth_within :: "pg \<Rightarrow> instant \<Rightarrow> auth_op \<Rightarrow> bool" where
  "auth_within P t (AExchange lib' al I srv ck peer req) \<longleftrightarrow>
     ck_db ck \<le> t \<and> (\<forall>f. consumeNonc srv = Some f \<longrightarrow> f = ConsumeNonce P \<or> (\<forall>now n e d. f now n e d = (None, d)))"
| "auth_within P t (AStore op) \<longleftrightarrow> op_within t op"

lemma exchange_db:
  assumes "\<forall>f. consumeNonc srv = Some f \<longrightarrow> f = ConsumeNonce P \<or> (\<forall>now n e d. f now n e d = (None, d))"
  shows "as_db (snd (ExchangeCode lib al I srv ck peer req s)) = as_db s \<or>
    (\<exists>n e. as_db (snd (ExchangeCode lib al I srv ck peer req s)) = snd (ConsumeNonce P (ck_db ck) n e (as_db s)))"
proof -
  have c: "db' = d \<or> (\<exists>n e. db' = snd (ConsumeNonce P (ck_db ck) n e d))"
    if "consumeStep srv ck n d = (r, db')" for n d r db'
  proof (cases "consumeNonc srv")
    case None
    with that show ?thesis by (simp add: consumeStep_def)
  next
    case (Some f)
    obtain r' db1 where f: "f (ck_db ck) n (ck_nonce ck + stateTTL) d = (r', db1)" by force
    with that Some have "db1 = db'" by (cases r') (simp_all add: consumeStep_def)
    with f Some assms show ?thesis by (metis prod.inject snd_conv)
  qed
  show ?thesis
    unfolding ExchangeCode_db
    by (cases rule: exchangeOutcome_cases [of al ck "peerIP peer" s lib I srv req]) (use c in auto)
qed

definition consumeOn :: "pg \<Rightarrow> instant \<Rightarrow> string \<Rightarrow> instant \<Rightarrow> auth_state \<Rightarrow> store_error check \<times> auth_state" where
  "consumeOn P now n e s = map_prod id (\<lambda>d. s\<lparr>as_db := d\<rparr>) (ConsumeNonce P now n e (as_db s))"

interpretation logins: nonce_guard "consumeOn P" "auth_step lib P" "auth_within P"
    "\<lambda>s. remembered P (as_db s)" "pg_timestamp P" for lib P
proof
  show "remembered P (as_db s') n (pg_timestamp P e)" if "consumeOn P now n e s = (None, s')" for now n e s s'
    using that nonces.accepted [of P now n e "as_db s"]
    by (cases "ConsumeNonce P now n e (as_db s)") (auto simp: consumeOn_def)
  show "fst (consumeOn P now n e s) \<noteq> None" if "remembered P (as_db s) n t" "now \<le> t" for s n t now e
    using remembered_refused [OF that, of e] by (simp add: consumeOn_def)
  show "remembered P (as_db (auth_step lib P op s)) n t"
    if "remembered P (as_db s) n t" "auth_within P t op" for s n t op
  proof (cases op)
    case (AStore sop)
    with that show ?thesis by (simp add: remembered_exec)
  next
    case (AExchange lib' al I srv ck peer req)
    with that(2) have "ck_db ck \<le> t"
      "\<forall>f. consumeNonc srv = Some f \<longrightarrow> f = ConsumeNonce P \<or> (\<forall>now n e d. f now n e d = (None, d))" by auto
    with exchange_db [OF this(2), of lib' al I ck peer req s] that(1) AExchange show ?thesis
      by (metis auth_step.simps(1) remembered_consume)
  qed
qed

lemma ExchangeCode_consumes:
  assumes "consumeNonc srv = Some (ConsumeNonce P)"
    and "ExchangeCode lib al I srv ck peer req s = (Ok resp, s')"
  shows "\<exists>s1. consumeOn P (ck_db ck) (ps_nonce (readState (xr_provider_state req))) (ck_nonce ck + stateTTL) s
      = (None, s1) \<and> as_db s1 = as_db s' \<and> \<not> stale al (ck_since ck) (ps_issuedAt (readState (xr_provider_state req)))"
proof -
  have "fst (ExchangeCode lib al I srv ck peer req s) = Ok resp" using assms(2) by simp
  then obtain s2 where o: "exchangeOutcome lib al I srv ck (peerIP peer) req s = (Ok resp, s2)"
    by (auto simp: ExchangeCode_Ok_iff)
  then have "as_db s2 = as_db s'" using ExchangeCode_db [of lib al I srv ck peer req s] assms(2) by simp
  with o assms(1) show ?thesis
    by (auto simp: exchangeOutcome_Ok_iff consumeStep_None_iff consumeOn_def checkState_None_iff)
qed

lemma remembered_as_db: "as_db s1 = as_db s2 \<Longrightarrow> remembered P (as_db s1) n t = remembered P (as_db s2) n t"
  by simp

lemma not_stale_le:
  "\<not> stale al now iss \<Longrightarrow> iss \<noteq> [] \<Longrightarrow> time_parse al iss = Some t0 \<Longrightarrow> now \<le> t0 + stateTTL"
  by (simp add: stale_def stateTTL_def duration_defs split: if_splits)

text \<open>A provider state that is not stale yet is still on record: the nonce is kept for as long as the state is accepted.\<close>

lemma retention_covers:
  assumes "timestamp_law P" "\<not> stale al (ck_since ck') iss" "iss \<noteq> []" "time_parse al iss = Some t0"
    and "ck_db ck' - ck_since ck' + microsecond \<le> ck_nonce ck - t0"
  shows "ck_db ck' \<le> pg_timestamp P (ck_nonce ck + stateTTL)"
proof -
  have "ck_since ck' \<le> t0 + stateTTL" by (rule not_stale_le [OF assms(2-4)])
  with assms(5) have "ck_db ck' \<le> ck_nonce ck + stateTTL - microsecond" by linarith
  also have "\<dots> \<le> pg_timestamp P (ck_nonce ck + stateTTL)"
    using assms(1) by (auto simp: timestamp_law_def intro: less_imp_le)
  finally show ?thesis .
qed

text \<open>
  A captured callback cannot be replayed, at any time. Once a login succeeded, a second callback with the same
  provider state is refused, whatever happened in between (other logins by anyone, configuration changes, restarts of the nonce
  table): within the retention period the nonce is still on record, after it the provider state is stale. The clocks have to agree to the
  extent that the database clock is not ahead of the process clock by more than the time the user took to log in.
\<close>

theorem ExchangeCode_no_replay:
  assumes "timestamp_law P" and "consumeNonc srv = Some (ConsumeNonce P)" "consumeNonc srv' = Some (ConsumeNonce P)"
    and first: "ExchangeCode lib al I srv ck peer req s = (Ok resp, s1)"
    and same: "xr_provider_state req' = xr_provider_state req"
    and issued: "ps_issuedAt (readState (xr_provider_state req)) \<noteq> []"
      "time_parse al (ps_issuedAt (readState (xr_provider_state req))) = Some t0"
    and between: "\<forall>op\<in>set ops. auth_within P (ck_db ck') op"
    and skew: "ck_db ck' - ck_since ck' + microsecond \<le> ck_nonce ck - t0"
  shows "fst (ExchangeCode lib' al I' srv' ck' peer' req' (fold (auth_step lib P) ops s1)) \<noteq> Ok resp'"
proof
  let ?ps = "readState (xr_provider_state req)" and ?s2 = "fold (auth_step lib P) ops s1"
  assume "fst (ExchangeCode lib' al I' srv' ck' peer' req' ?s2) = Ok resp'"
  then obtain s3 where second: "ExchangeCode lib' al I' srv' ck' peer' req' ?s2 = (Ok resp', s3)"
    by (metis prod.collapse)
  from ExchangeCode_consumes [OF assms(3) second] same obtain s4 where
    c2: "consumeOn P (ck_db ck') (ps_nonce ?ps) (ck_nonce ck' + stateTTL) ?s2 = (None, s4)"
    and fresh: "\<not> stale al (ck_since ck') (ps_issuedAt ?ps)" by auto
  from ExchangeCode_consumes [OF assms(2) first] obtain s5 where
    c1: "consumeOn P (ck_db ck) (ps_nonce ?ps) (ck_nonce ck + stateTTL) s = (None, s5)" "as_db s5 = as_db s1" by auto
  have le: "ck_db ck' \<le> pg_timestamp P (ck_nonce ck + stateTTL)" by (rule retention_covers [OF assms(1) fresh issued skew])
  from logins.accepted [OF c1(1)] c1(2)
  obtain e where "fmlookup (auth_nonce (as_db s1)) (sha256 P (ps_nonce ?ps)) = Some e"
    "pg_timestamp P (ck_nonce ck + stateTTL) \<le> e" by (auto simp: remembered_def)
  with le have "remembered P (as_db s1) (ps_nonce ?ps) (ck_db ck')" by (auto simp: remembered_def)
  from logins.refused [OF logins.remembers_run [OF this between] order_refl] c2 show False
    by (metis fst_conv)
qed

theorem ExchangeCode_no_replay_witness:
  "let x = ExchangeCode demo_lib demo_authlib demo_idp demo_srv (demo_clocks 5000) (Some ''10.0.0.1:4000'') demo_req demo_state in
   fst x = Ok (response demo_out) \<and>
   fst (ExchangeCode demo_lib demo_authlib demo_idp demo_srv (demo_clocks 6000) None demo_req (snd x)) \<noteq> Ok (response demo_out)"
proof -
  let ?x = "ExchangeCode demo_lib demo_authlib demo_idp demo_srv (demo_clocks 5000) (Some ''10.0.0.1:4000'') demo_req demo_state"
  have c: "consumeNonc demo_srv = Some (ConsumeNonce demo_pg)" by (simp add: demo_srv_def NewServer_def)
  have f: "fst ?x = Ok (response demo_out)" by (rule demo_exchange) (simp_all add: stateTTL_def duration_defs)
  then have x: "?x = (Ok (response demo_out), snd ?x)" by (metis prod.collapse)
  have i: "ps_issuedAt (readState (xr_provider_state demo_req)) \<noteq> []"
    "time_parse demo_authlib (ps_issuedAt (readState (xr_provider_state demo_req))) = Some 2"
    by (simp_all add: readState_def demo_req_def providerState_def demo_authlib_def Let_def string_at_def fmlookup_of_list)
  from ExchangeCode_no_replay [OF demo_pg_laws(2) c c x refl i, of "[]" "demo_clocks 6000" demo_lib demo_idp None "response demo_out"] f
  show ?thesis by (simp add: demo_clocks_def microsecond_def)
qed

end
