(* ===== verification/Auth_Flow.thy ===== *)
theory Auth_Flow
  imports Auth
begin

text \<open>
  What a login hands to the host: the role, the identity, the linking advice, and the flow as a whole from
  \<^verbatim>\<open>InitAuthorize\<close> to \<^verbatim>\<open>ExchangeCode\<close>.
\<close>

subsection \<open>The response\<close>

lemma ExchangeCode_response:
  assumes "fst (ExchangeCode lib al I srv ck peer req s) = Ok resp"
  obtains prov tok idClaims where "provFn srv = Some prov"
    "redeem I prov (readState (xr_provider_state req)) req = Ok (tok, idClaims)"
    "string_at idClaims ''sub'' \<noteq> []"
    "string_at (userClaims I prov tok) ''sub'' \<in> {[], string_at idClaims ''sub''}"
    "EmailVerifiedRequired (cfgFn srv) \<longrightarrow> fst (EmailVerified idClaims)"
    "EvaluateFilters lib (fmadd idClaims (userClaims I prov tok)) (elems (ClaimFilters (cfgFn srv))) = None"
    "resp = response (decorate lib (cfgFn srv) idClaims (fmadd idClaims (userClaims I prov tok)))"
  using assms
  unfolding ExchangeCode_Ok_iff exchangeOutcome_Ok_iff login_Ok_iff mergeUserInfo_Ok_iff gate_Ok_iff respond_Ok_iff
  by blast

lemma decorate_role:
  "fmlookup (decorate lib cfg idClaims m) ''silo_role'' =
     Some (JString (ResolveRole lib m (elems (ClaimRoleMapping cfg))))"
  by (simp add: decorate_def Let_def)

lemma decorate_link:
  "fmlookup (decorate lib cfg idClaims m) ''silo_link_by_email'' =
     (if LinkByEmail cfg \<and> fst (EmailVerified idClaims) \<and> string_at idClaims ''email'' \<noteq> []
      then Some (JBool True) else fmlookup m ''silo_link_by_email'')"
  by (simp add: decorate_def Let_def)

lemma decorate_other:
  "k \<noteq> ''silo_role'' \<Longrightarrow> k \<noteq> ''silo_link_by_email'' \<Longrightarrow>
     fmlookup (decorate lib cfg idClaims m) k = fmlookup m k"
  by (simp add: decorate_def Let_def)

lemma string_at_decorate:
  "k \<noteq> ''silo_role'' \<Longrightarrow> k \<noteq> ''silo_link_by_email'' \<Longrightarrow>
     string_at (decorate lib cfg idClaims m) k = string_at m k"
  by (simp add: string_at_def decorate_other)

lemma string_at_merge:
  "string_at (fmadd a b) k = (if k |\<in>| fmdom b then string_at b k else string_at a k)"
  by (auto simp: string_at_def split: option.split)

lemma traceRoleFrom_frame:
  assumes "\<forall>r\<in>set rs. hd (split (CHR ''.'') (rm_ClaimPath r)) \<noteq> k"
  shows "traceRoleFrom lib (fmupd k v c) i rs = traceRoleFrom lib c i rs"
  using assms
proof (induction rs arbitrary: i)
  case (Cons r rs)
  then have "rule_hit lib (fmupd k v c) r = rule_hit lib c r" by (simp add: rmatch.hit_frame)
  with Cons show ?case by (auto simp: rule_hit_def split: option.splits)
qed simp

text \<open>
  C4: the role comes from the operator's rules. Under a valid configuration every successful login carries a
  \<^verbatim>\<open>silo_role\<close> claim, it is \<^verbatim>\<open>user\<close> or \<^verbatim>\<open>admin\<close>, and \<^verbatim>\<open>admin\<close> only if an admin rule of the
  configuration matches the merged claims. A \<^verbatim>\<open>silo_role\<close> claim sent by the IdP or by userinfo is always overwritten; it has
  no influence on the role provided that no mapping rule's path starts with \<^verbatim>\<open>silo_role\<close> (validation accepts such a rule).
\<close>

theorem ExchangeCode_role:
  assumes "config_ok lib (cfgFn srv)" and "fst (ExchangeCode lib al I srv ck peer req s) = Ok resp"
  shows "\<exists>role m. fmlookup (ar_Claims resp) ''silo_role'' = Some (JString role) \<and> role \<in> {''user'', ''admin''} \<and>
    (\<forall>k. k \<noteq> ''silo_role'' \<and> k \<noteq> ''silo_link_by_email'' \<longrightarrow> fmlookup (ar_Claims resp) k = fmlookup m k) \<and>
    (role = ''admin'' \<longrightarrow>
      (\<exists>r\<in>set (elems (ClaimRoleMapping (cfgFn srv))). rm_Role r = ''admin'' \<and> rule_hit lib m r)) \<and>
    ((\<forall>r\<in>set (elems (ClaimRoleMapping (cfgFn srv))). hd (split (CHR ''.'') (rm_ClaimPath r)) \<noteq> ''silo_role'') \<longrightarrow>
      (\<forall>v. ResolveRole lib (fmupd ''silo_role'' v m) (elems (ClaimRoleMapping (cfgFn srv))) = role))"
proof -
  let ?rules = "elems (ClaimRoleMapping (cfgFn srv))"
  from assms(2) obtain prov tok idClaims where
    r: "resp = response (decorate lib (cfgFn srv) idClaims (fmadd idClaims (userClaims I prov tok)))"
    by (rule ExchangeCode_response)
  let ?m = "fmadd idClaims (userClaims I prov tok)"
  let ?role = "ResolveRole lib ?m ?rules"
  have "fmlookup (ar_Claims resp) ''silo_role'' = Some (JString ?role)" by (simp add: r response_def decorate_role)
  moreover have "?role \<in> {''user'', ''admin''}" by (rule ResolveRole_valid [OF assms(1)])
  moreover have "\<forall>k. k \<noteq> ''silo_role'' \<and> k \<noteq> ''silo_link_by_email'' \<longrightarrow> fmlookup (ar_Claims resp) k = fmlookup ?m k"
    by (simp add: r response_def decorate_other)
  moreover have "?role = ''admin'' \<longrightarrow> (\<exists>r\<in>set ?rules. rm_Role r = ''admin'' \<and> rule_hit lib ?m r)"
    using ResolveRole_cases [of lib ?m ?rules] by auto
  moreover have "(\<forall>r\<in>set ?rules. hd (split (CHR ''.'') (rm_ClaimPath r)) \<noteq> ''silo_role'') \<longrightarrow>
      (\<forall>v. ResolveRole lib (fmupd ''silo_role'' v ?m) ?rules = ?role)"
    by (simp add: ResolveRole_def TraceRole_def traceRoleFrom_frame)
  ultimately show ?thesis by blast
qed

theorem ExchangeCode_role_witness:
  "\<exists>role. fmlookup (ar_Claims (response demo_out)) ''silo_role'' = Some (JString role) \<and> role \<in> {''user'', ''admin''}"
proof -
  have v: "config_ok demo_lib (cfgFn demo_srv)"
    using demo_config_valid by (simp add: demo_srv_def NewServer_def ValidateConfig_None_iff)
  have "fst (ExchangeCode demo_lib demo_authlib demo_idp demo_srv (demo_clocks 5) (Some ''10.0.0.1:4000'') demo_req
      demo_state) = Ok (response demo_out)"
    by (rule demo_exchange) (simp_all add: stateTTL_def duration_defs)
  from ExchangeCode_role [OF v this] show ?thesis by blast
qed

text \<open>
  C9: who the host is told has logged in. The subject of the response is the subject of the verified id_token, except that a
  userinfo document with an empty or non-string \<^verbatim>\<open>sub\<close> blanks it; it is never the subject of someone else. The email is
  the one of the userinfo document when it has one and of the id_token otherwise.
\<close>

theorem ExchangeCode_identity:
  assumes "fst (ExchangeCode lib al I srv ck peer req s) = Ok resp"
  shows "\<exists>prov tok idClaims. provFn srv = Some prov \<and>
    redeem I prov (readState (xr_provider_state req)) req = Ok (tok, idClaims) \<and>
    string_at idClaims ''sub'' \<noteq> [] \<and>
    (ExternalSubject resp = string_at idClaims ''sub'' \<or>
     ExternalSubject resp = [] \<and> ''sub'' |\<in>| fmdom (userClaims I prov tok) \<and> string_at (userClaims I prov tok) ''sub'' = []) \<and>
    ar_Email resp = (if ''email'' |\<in>| fmdom (userClaims I prov tok) then string_at (userClaims I prov tok) ''email''
      else string_at idClaims ''email'')"
proof -
  from assms obtain prov tok idClaims where o: "provFn srv = Some prov"
    "redeem I prov (readState (xr_provider_state req)) req = Ok (tok, idClaims)"
    "string_at idClaims ''sub'' \<noteq> []"
    and u: "string_at (userClaims I prov tok) ''sub'' \<in> {[], string_at idClaims ''sub''}"
    and r: "resp = response (decorate lib (cfgFn srv) idClaims (fmadd idClaims (userClaims I prov tok)))"
    by (rule ExchangeCode_response)
  have "ExternalSubject resp = string_at (fmadd idClaims (userClaims I prov tok)) ''sub''"
    "ar_Email resp = string_at (fmadd idClaims (userClaims I prov tok)) ''email''"
    by (simp_all add: r response_def DeriveIdentity_def string_at_decorate Let_def)
  with o u show ?thesis by (auto simp: string_at_merge)
qed

theorem ExchangeCode_identity_witness: "ExternalSubject (response demo_out) = ''u1''"
proof -
  have "fst (ExchangeCode demo_lib demo_authlib demo_idp demo_srv (demo_clocks 5) (Some ''10.0.0.1:4000'') demo_req
      demo_state) = Ok (response demo_out)"
    by (rule demo_exchange) (simp_all add: stateTTL_def duration_defs)
  from ExchangeCode_identity [OF this] obtain prov tok idClaims where
    r: "redeem demo_idp prov (readState (xr_provider_state demo_req)) demo_req = Ok (tok, idClaims)"
    and s: "ExternalSubject (response demo_out) = string_at idClaims ''sub'' \<or>
      string_at (userClaims demo_idp prov tok) ''sub'' = []" by blast
  have "string_at (userClaims demo_idp prov tok) ''sub'' = ''u1''"
    by (simp add: userClaims_def demo_idp_def string_at_def fmlookup_of_list)
  moreover have "idClaims = demo_claims"
    using r by (auto simp: redeem_Ok_iff demo_idp_def split: if_splits)
  moreover have "string_at demo_claims ''sub'' = ''u1''" by code_simp
  ultimately show ?thesis using s by auto
qed

text \<open>
  C10: when linking by email is advertised. If the IdP does not send a claim of that name itself, the response carries
  \<^verbatim>\<open>silo_link_by_email\<close> exactly when the operator enabled it and the signed id_token has a non-empty verified email;
  userinfo cannot make an email count as verified.
\<close>

theorem ExchangeCode_link_advice:
  assumes "fst (ExchangeCode lib al I srv ck peer req s) = Ok resp"
  shows "\<exists>prov tok idClaims. provFn srv = Some prov \<and>
    redeem I prov (readState (xr_provider_state req)) req = Ok (tok, idClaims) \<and>
    (''silo_link_by_email'' |\<notin>| fmdom idClaims \<and> ''silo_link_by_email'' |\<notin>| fmdom (userClaims I prov tok) \<longrightarrow>
      fmlookup (ar_Claims resp) ''silo_link_by_email'' =
        (if LinkByEmail (cfgFn srv) \<and> fmlookup idClaims ''email_verified'' = Some (JBool True) \<and>
            string_at idClaims ''email'' \<noteq> [] then Some (JBool True) else None))"
proof -
  from assms obtain prov tok idClaims where o: "provFn srv = Some prov"
    "redeem I prov (readState (xr_provider_state req)) req = Ok (tok, idClaims)"
    and r: "resp = response (decorate lib (cfgFn srv) idClaims (fmadd idClaims (userClaims I prov tok)))"
    by (rule ExchangeCode_response)
  have "fst (EmailVerified idClaims) \<longleftrightarrow> fmlookup idClaims ''email_verified'' = Some (JBool True)"
    by (auto simp: EmailVerified_def split: option.split json.split)
  with o show ?thesis by (auto simp: r response_def decorate_link fmdom_notD)
qed

theorem ExchangeCode_link_advice_witness:
  "fmlookup (ar_Claims (response demo_out)) ''silo_link_by_email'' = None"
proof -
  have "fst (ExchangeCode demo_lib demo_authlib demo_idp demo_srv (demo_clocks 5) (Some ''10.0.0.1:4000'') demo_req
      demo_state) = Ok (response demo_out)"
    by (rule demo_exchange) (simp_all add: stateTTL_def duration_defs)
  from ExchangeCode_link_advice [OF this] obtain prov tok idClaims where
    r: "redeem demo_idp prov (readState (xr_provider_state demo_req)) demo_req = Ok (tok, idClaims)"
    and l: "''silo_link_by_email'' |\<notin>| fmdom idClaims \<and>
        ''silo_link_by_email'' |\<notin>| fmdom (userClaims demo_idp prov tok) \<longrightarrow>
      fmlookup (ar_Claims (response demo_out)) ''silo_link_by_email'' =
        (if LinkByEmail (cfgFn demo_srv) \<and> fmlookup idClaims ''email_verified'' = Some (JBool True) \<and>
            string_at idClaims ''email'' \<noteq> [] then Some (JBool True) else None)" by blast
  have "idClaims = demo_claims" using r by (auto simp: redeem_Ok_iff demo_idp_def split: if_splits)
  moreover have "''silo_link_by_email'' |\<notin>| fmdom demo_claims"
    by (rule fmdom_notI) code_simp
  moreover have "''silo_link_by_email'' |\<notin>| fmdom (userClaims demo_idp prov tok)"
    by (rule fmdom_notI) (simp add: userClaims_def demo_idp_def fmlookup_of_list)
  moreover have "\<not> LinkByEmail (cfgFn demo_srv)"
    by (simp add: demo_srv_def NewServer_def demo_config_def loadDefaults_def zeroConfig_def)
  ultimately show ?thesis using l by simp
qed

text \<open>An IdP whose userinfo document names another email than the id_token.\<close>

definition link_config :: Config where
  "link_config = demo_config\<lparr>LinkByEmail := True\<rparr>"

definition spoofing_idp :: idp where
  "spoofing_idp = demo_idp\<lparr>idp_userinfo := (\<lambda>_ _ _. Ok (Ok (fmap_of_list
     [(''sub'', JString ''u1''), (''email'', JString ''admin@example'')])))\<rparr>"

text \<open>
  The advice and the email can come from different documents. There is a valid configuration and an IdP such that the
  login succeeds, the response advertises linking by email on the strength of the id_token's verified email, and yet the email in the
  response is another one, taken from the unsigned userinfo document.
\<close>

theorem link_email_not_from_id_token:
  "\<exists>resp. config_ok demo_lib link_config \<and>
     login demo_lib demo_authlib spoofing_idp link_config demo_provider (readState (xr_provider_state demo_req)) demo_req
       = Ok resp \<and>
     redeem spoofing_idp demo_provider (readState (xr_provider_state demo_req)) demo_req =
       Ok (\<lparr>tk_access = ''at'', tk_id_token = Some (JString ''jwt'')\<rparr>, demo_claims) \<and>
     fmlookup (ar_Claims resp) ''silo_link_by_email'' = Some (JBool True) \<and>
     ar_Email resp = ''admin@example'' \<and> string_at demo_claims ''email'' = ''u1@example''"
proof -
  have v: "ValidateConfig demo_lib link_config = None" by code_simp
  define resp where "resp = response (decorate demo_lib link_config demo_claims (fmadd demo_claims
    (fmap_of_list [(''sub'', JString ''u1''), (''email'', JString ''admin@example'')])))"
  have l: "login demo_lib demo_authlib spoofing_idp link_config demo_provider (readState (xr_provider_state demo_req)) demo_req
       = Ok resp" unfolding resp_def by code_simp
  have r: "redeem spoofing_idp demo_provider (readState (xr_provider_state demo_req)) demo_req =
       Ok (\<lparr>tk_access = ''at'', tk_id_token = Some (JString ''jwt'')\<rparr>, demo_claims)" by code_simp
  have "fmlookup (ar_Claims resp) ''silo_link_by_email'' = Some (JBool True) \<and> ar_Email resp = ''admin@example'' \<and>
     string_at demo_claims ''email'' = ''u1@example''" unfolding resp_def by code_simp
  with v l r show ?thesis by (auto simp: ValidateConfig_None_iff)
qed

subsection \<open>What a caller can learn and cause\<close>


definition reword :: "(string \<Rightarrow> string) \<Rightarrow> status \<Rightarrow> status" where
  "reword g st =
     (let p = ''decode id_token claims: '' in
      if take (length p) (st_msg st) = p then st\<lparr>st_msg := p @ g (drop (length p) (st_msg st))\<rparr> else st)"

definition reword_denial :: "(string \<Rightarrow> string) \<Rightarrow> denial \<Rightarrow> denial" where
  "reword_denial g d = Deny (deny_audit d) (reword g (deny_status d))"


lemma reword_fixed: "st_msg st = [] \<or> hd (st_msg st) \<noteq> CHR ''d'' \<Longrightarrow> reword g st = st"
  by (cases "st_msg st") (auto simp: reword_def)

lemma reword_denial_fixed [simp]:
  "msg = [] \<or> hd msg \<noteq> CHR ''d'' \<Longrightarrow> reword_denial g (refuse r sub c msg) = refuse r sub c msg"
  by (simp add: reword_denial_def refuse_def reword_fixed status_error_def)












lemma audited_reword [simp]: "audited srv ip (map_sum (reword_denial g) id r) lg = audited srv ip r lg"
  by (cases r) (auto simp: audited_def reword_denial_def split: denial.split option.split)


lemma ExchangeCode_limited:
  assumes "admit al ck (peerIP peer) (as_limiter s) = (Some d, lm)"
  shows "ExchangeCode lib al I srv ck peer req s =
    (Err (deny_status d), s\<lparr>as_limiter := lm, as_log := audited srv (peerIP peer) (Err d) (as_log s)\<rparr>)"
  using assms by (simp add: ExchangeCode_def exchangeOutcome_def)

text \<open>
  C25: nothing happens before the cheap gates. A call that is over its rate, finds no provider, or brings a provider state that is
  incomplete, stale, or does not match the callback is refused without contacting the IdP (the outcome is the same for every
  IdP) and without using up the nonce (the database is untouched).
\<close>

theorem ExchangeCode_early_denial:
  assumes "fst (admit al ck (peerIP peer) (as_limiter s)) \<noteq> None \<or> provFn srv = None \<or>
    checkState al (ck_since ck) req (readState (xr_provider_state req)) \<noteq> None"
  shows "(\<exists>st. fst (ExchangeCode lib al I srv ck peer req s) = Err st) \<and>
    as_db (snd (ExchangeCode lib al I srv ck peer req s)) = as_db s \<and>
    ExchangeCode lib al I' srv ck peer req s = ExchangeCode lib al I srv ck peer req s"
proof -
  let ?o = "\<lambda>I. exchangeOutcome lib al I srv ck (peerIP peer) req s"
  have "(\<exists>d. fst (?o I) = Err d) \<and> as_db (snd (?o I)) = as_db s \<and> ?o I' = ?o I"
  proof (cases rule: exchangeOutcome_cases [of al ck "peerIP peer" s lib I srv req])
    case (limited d lm)
    then show ?thesis by (simp add: exchangeOutcome_def)
  next
    case (unconfigured lm)
    then show ?thesis by (simp add: exchangeOutcome_def)
  next
    case (rejected lm prov d)
    then show ?thesis by (simp add: exchangeOutcome_def)
  next
    case (consumed lm prov d db')
    with assms show ?thesis by simp
  next
    case (run lm prov db')
    with assms show ?thesis by simp
  qed
  then show ?thesis by (auto simp: ExchangeCode_db) (auto simp: ExchangeCode_def Let_def split: prod.splits)
qed

theorem ExchangeCode_early_denial_witness:
  "as_db (snd (ExchangeCode demo_lib demo_authlib demo_idp demo_srv (demo_clocks 5) None
     (demo_req\<lparr>xr_state := ''other''\<rparr>) demo_state)) = demo_db"
proof -
  have "checkState demo_authlib 5 (demo_req\<lparr>xr_state := ''other''\<rparr>)
      (readState (xr_provider_state (demo_req\<lparr>xr_state := ''other''\<rparr>))) \<noteq> None" by code_simp
  then have "fst (admit demo_authlib (demo_clocks 5) (peerIP None) (as_limiter demo_state)) \<noteq> None \<or> provFn demo_srv = None \<or>
    checkState demo_authlib (ck_since (demo_clocks 5)) (demo_req\<lparr>xr_state := ''other''\<rparr>)
      (readState (xr_provider_state (demo_req\<lparr>xr_state := ''other''\<rparr>))) \<noteq> None" by (simp add: demo_clocks_def)
  from ExchangeCode_early_denial [OF this] show ?thesis by (simp add: demo_state_def)
qed

subsection \<open>\<^verbatim>\<open>InitAuthorize\<close> and the whole flow\<close>

lemma readState_providerState:
  "readState (Some (providerState v n st r i)) =
     \<lparr>ps_verifier = v, ps_nonce = n, ps_state = st, ps_redirect = r, ps_issuedAt = i\<rparr>"
  by (simp add: readState_def providerState_def string_at_def fmlookup_of_list)

lemma InitAuthorize_Ok_iff:
  "InitAuthorize al srv src1 src2 now req = Ok resp \<longleftrightarrow>
     (\<exists>prov b1 b2. provFn srv = Some prov \<and> src1 48 = Ok b1 \<and> src2 32 = Ok b2 \<and>
        new_struct al (providerState (rawURLEncode b1) (rawURLEncode b2) (ir_state req) (ir_redirect_uri req)
          (time_format al now)) = None \<and>
        resp = \<lparr>AuthorizeUrl = auth_code_url al ((pv_oauth2Config prov)\<lparr>oc_RedirectURL := ir_redirect_uri req\<rparr>) (ir_state req)
            [(''nonce'', rawURLEncode b2), (''code_challenge'', pkceS256 al (rawURLEncode b1)),
             (''code_challenge_method'', ''S256'')],
          ProviderState = providerState (rawURLEncode b1) (rawURLEncode b2) (ir_state req) (ir_redirect_uri req)
            (time_format al now)\<rparr>)"
  by (auto simp: InitAuthorize_def randB64_def Let_def split: option.splits sum.splits)

text \<open>
  C29: what an authorization request is made of. For an entropy source that fills its buffers, the PKCE verifier has 64 and
  the nonce 43 characters of the unreserved URL alphabet (RFC 7636 asks for 43 to 128), the URL sent to the IdP carries the S256
  challenge of exactly the verifier kept in the provider state together with the nonce kept there, for the redirect URI and state of the
  request, and different random bytes give different verifiers and nonces.
\<close>

theorem InitAuthorize_request:
  assumes "\<forall>b. src1 48 = Ok b \<longrightarrow> length b = 48" and "\<forall>b. src2 32 = Ok b \<longrightarrow> length b = 32"
    and "InitAuthorize al srv src1 src2 now req = Ok resp"
  shows "\<exists>prov. provFn srv = Some prov \<and>
    (let ps = readState (Some (ProviderState resp)) in
      length (ps_verifier ps) = 64 \<and> length (ps_nonce ps) = 43 \<and>
      set (ps_verifier ps) \<union> set (ps_nonce ps) \<subseteq> set urlAlphabet \<and>
      ps_state ps = ir_state req \<and> ps_redirect ps = ir_redirect_uri req \<and> ps_issuedAt ps = time_format al now \<and>
      AuthorizeUrl resp = auth_code_url al ((pv_oauth2Config prov)\<lparr>oc_RedirectURL := ir_redirect_uri req\<rparr>) (ir_state req)
        [(''nonce'', ps_nonce ps), (''code_challenge'', pkceS256 al (ps_verifier ps)),
         (''code_challenge_method'', ''S256'')]) \<and>
    (\<forall>src1' src2' now' req' resp'. InitAuthorize al srv src1' src2' now' req' = Ok resp' \<longrightarrow>
      (ps_nonce (readState (Some (ProviderState resp'))) = ps_nonce (readState (Some (ProviderState resp)))
        \<longrightarrow> src2' 32 = src2 32) \<and>
      (ps_verifier (readState (Some (ProviderState resp'))) = ps_verifier (readState (Some (ProviderState resp)))
        \<longrightarrow> src1' 48 = src1 48))"
  using assms rawURLEncode_alphabet
  by (auto simp: InitAuthorize_Ok_iff readState_providerState length_rawURLEncode rawURLEncode_inject Let_def)

definition demo_entropy :: entropy where
  "demo_entropy n = Ok (replicate n 0)"

theorem InitAuthorize_request_witness:
  "\<exists>resp. InitAuthorize demo_authlib demo_srv demo_entropy demo_entropy 2
      \<lparr>ir_state = ''st8'', ir_redirect_uri = ''https://silo/cb''\<rparr> = Ok resp \<and>
    length (ps_verifier (readState (Some (ProviderState resp)))) = 64"
proof -
  let ?r = "InitAuthorize demo_authlib demo_srv demo_entropy demo_entropy 2
      \<lparr>ir_state = ''st8'', ir_redirect_uri = ''https://silo/cb''\<rparr>"
  obtain resp where resp: "?r = Ok resp"
    by (simp add: InitAuthorize_Ok_iff demo_srv_def NewServer_def demo_entropy_def demo_authlib_def)
  from InitAuthorize_request [OF _ _ resp] resp show ?thesis by (auto simp: demo_entropy_def Let_def)
qed

text \<open>
  C5: an honest login goes through. Start a flow with \<^const>\<open>InitAuthorize\<close> and bring its provider state back unchanged, with the same
  state and redirect URI, within ten minutes, to a working store that has not seen the nonce. Of the IdP it is assumed only what it does
  with the URL it was sent: it reads the nonce and the challenge off that URL (\<open>reads\<close>), exchanges the code for any verifier whose S256
  challenge is the one it read, and issues an id_token that verifies and carries the nonce it read and a subject that userinfo does not
  contradict. If the caller is within its rate, the email is verified where required and the filters hold, then \<^const>\<open>ExchangeCode\<close>
  returns the identity.
\<close>

theorem login_flow_completes:
  assumes start: "InitAuthorize al srv src1 src2 t0 ireq = Ok start"
      "src1 48 \<noteq> Ok []" "src2 32 \<noteq> Ok []"
    and clock: "time_parse al (time_format al t0) = Some t0" "ck_since ck \<le> t0 + stateTTL"
    and callback: "xr_provider_state req = Some (ProviderState start)" "xr_state req = ir_state ireq"
      "xr_redirect_uri req = ir_redirect_uri ireq"
    and "rate": "fst (admit al ck (peerIP peer) (as_limiter s)) = None"
    and prov: "provFn srv = Some prov"
    and store: "consumeNonc srv = Some (ConsumeNonce P)" "faults (as_db s) = []" "schema (as_db s)"
      "case fmlookup (auth_nonce (as_db s)) (sha256 P (ps_nonce (readState (Some (ProviderState start))))) of
         None \<Rightarrow> True | Some e \<Rightarrow> e < ck_db ck"
    and url: "\<And>n c. set n \<union> set c \<subseteq> set urlAlphabet \<Longrightarrow>
      reads (auth_code_url al ((pv_oauth2Config prov)\<lparr>oc_RedirectURL := ir_redirect_uri ireq\<rparr>) (ir_state ireq)
        [(''nonce'', n), (''code_challenge'', c), (''code_challenge_method'', ''S256'')]) = (n, c)"
    and idp: "\<And>v. pkceS256 al v = snd (reads (AuthorizeUrl start)) \<Longrightarrow>
        idp_exchange I (pv_clientAllowsLoopback prov)
          ((pv_oauth2Config prov)\<lparr>oc_RedirectURL := ir_redirect_uri ireq\<rparr>) (xr_code req) [(''code_verifier'', v)] = Ok tok"
      "tk_id_token tok = Some (JString raw)" "raw \<noteq> []"
      "idp_verify I (pv_clientAllowsLoopback prov) (pv_verifier prov) raw = Ok idt"
      "it_Nonce idt = fst (reads (AuthorizeUrl start))" "it_Claims idt = Ok idClaims"
      "string_at idClaims ''sub'' \<noteq> []"
      "string_at (userClaims I prov tok) ''sub'' \<in> {[], string_at idClaims ''sub''}"
    and merged: "merged = fmadd idClaims (userClaims I prov tok)"
    and gates: "EmailVerifiedRequired (cfgFn srv) \<longrightarrow> fst (EmailVerified idClaims)"
      "EvaluateFilters lib merged (elems (ClaimFilters (cfgFn srv))) = None"
      "new_struct al (decorate lib (cfgFn srv) idClaims merged) = None"
  shows "fst (ExchangeCode lib al I srv ck peer req s) = Ok (response (decorate lib (cfgFn srv) idClaims merged))"
proof -
  let ?ps = "readState (Some (ProviderState start))"
  from start obtain b1 b2 where b: "b1 \<noteq> []" "b2 \<noteq> []" and
    ps: "?ps = \<lparr>ps_verifier = rawURLEncode b1, ps_nonce = rawURLEncode b2, ps_state = ir_state ireq,
      ps_redirect = ir_redirect_uri ireq, ps_issuedAt = time_format al t0\<rparr>" and
    u: "AuthorizeUrl start = auth_code_url al ((pv_oauth2Config prov)\<lparr>oc_RedirectURL := ir_redirect_uri ireq\<rparr>) (ir_state ireq)
        [(''nonce'', rawURLEncode b2), (''code_challenge'', pkceS256 al (rawURLEncode b1)), (''code_challenge_method'', ''S256'')]"
    using prov by (auto simp: InitAuthorize_Ok_iff readState_providerState)
  have seen: "reads (AuthorizeUrl start) = (ps_nonce ?ps, pkceS256 al (ps_verifier ?ps))"
    unfolding u ps using rawURLEncode_alphabet by (subst url) (simp_all add: pkceS256_def)
  have red: "redeem I prov ?ps req = Ok (tok, idClaims)"
    using idp callback(3) seen by (simp add: redeem_Ok_iff)
  have mrg: "mergeUserInfo I prov tok idClaims = Ok merged"
    using idp(7,8) merged by (simp add: mergeUserInfo_Ok_iff)
  have ne: "rawURLEncode b \<noteq> []" if "b \<noteq> []" for b using that by (cases b rule: rawURLEncode.cases) simp_all
  have "timeSub (ck_since ck) t0 \<le> stateTTL"
    using clock(2) by (subst timeSub_le_iff) (simp_all add: stateTTL_def duration_defs)
  then have "checkState al (ck_since ck) req ?ps = None"
    using callback ps b by (simp add: checkState_None_iff stale_def clock(1) ne)
  moreover obtain lm where "admit al ck (peerIP peer) (as_limiter s) = (None, lm)"
    using "rate" by (metis prod.collapse)
  moreover have "fst (ConsumeNonce P (ck_db ck) (ps_nonce ?ps) (ck_nonce ck + stateTTL) (as_db s)) = None"
    using store(2-4) ps b(2) ne by (simp add: ConsumeNonce_accepts)
  then obtain d' where "ConsumeNonce P (ck_db ck) (ps_nonce ?ps) (ck_nonce ck + stateTTL) (as_db s) = (None, d')"
    by (cases "ConsumeNonce P (ck_db ck) (ps_nonce ?ps) (ck_nonce ck + stateTTL) (as_db s)") simp
  then have "consumeStep srv ck (ps_nonce ?ps) (as_db s) = (None, d')"
    using store(1) by (simp add: consumeStep_None_iff)
  moreover have "login lib al I (cfgFn srv) prov ?ps req = Ok (response (decorate lib (cfgFn srv) idClaims merged))"
    using red mrg gates by (simp add: login_def respond_Ok_iff gate_Ok_iff [THEN iffD2])
  ultimately show ?thesis
    using prov callback(1) by (simp add: ExchangeCode_Ok_iff exchangeOutcome_Ok_iff)
qed

text \<open>An IdP that checks the challenge, and how it reads the URL of the demonstration library.\<close>

definition pkce_idp :: idp where
  "pkce_idp = demo_idp\<lparr>idp_exchange := (\<lambda>_ oc code ps.
     case ps of
       [(k, v)] \<Rightarrow>
         if k = ''code_verifier'' \<and> pkceS256 demo_authlib v = pkceS256 demo_authlib demo_verifier \<and> code = ''c0de'' \<and>
           oc_RedirectURL oc = ''https://silo/cb''
         then Ok \<lparr>tk_access = ''at'', tk_id_token = Some (JString ''jwt'')\<rparr> else Err ''invalid_grant''
     | _ \<Rightarrow> Err ''invalid_grant'')\<rparr>"

definition demo_reads :: "string \<Rightarrow> string \<times> string" where
  "demo_reads u =
     (let field = takeWhile (\<lambda>ch. ch \<noteq> CHR ''&'');
          params = tl (dropWhile (\<lambda>ch. ch \<noteq> CHR ''&'') u);
          rest = tl (dropWhile (\<lambda>ch. ch \<noteq> CHR ''&'') params)
      in (drop (length ''nonce='') (field params), drop (length ''code_challenge='') (field rest)))"

lemma demo_reads_url:
  assumes "set n \<union> set c \<subseteq> set urlAlphabet"
  shows "demo_reads (auth_code_url demo_authlib ((pv_oauth2Config demo_provider)\<lparr>oc_RedirectURL := r\<rparr>) ''st8''
    [(''nonce'', n), (''code_challenge'', c), (''code_challenge_method'', ''S256'')]) = (n, c)"
proof -
  have "CHR ''&'' \<notin> set urlAlphabet" by code_simp
  with assms have "\<forall>x\<in>set n. x \<noteq> CHR ''&''" "\<forall>x\<in>set c. x \<noteq> CHR ''&''" by auto
  moreover have "oc_Endpoint ((pv_oauth2Config demo_provider)\<lparr>oc_RedirectURL := r\<rparr>) =
      (''https://idp.example/o/app/auth'', ''https://idp.example/o/app/token'')"
    by (simp add: demo_provider_def NewProvider_def Let_def)
  ultimately show ?thesis by (simp add: demo_reads_def demo_authlib_def)
qed

theorem login_flow_completes_witness:
  "\<exists>start. InitAuthorize demo_authlib demo_srv demo_entropy demo_entropy 2
      \<lparr>ir_state = ''st8'', ir_redirect_uri = ''https://silo/cb''\<rparr> = Ok start \<and>
    fst (ExchangeCode demo_lib demo_authlib pkce_idp demo_srv (demo_clocks 5) None
      \<lparr>xr_code = ''c0de'', xr_state = ''st8'', xr_redirect_uri = ''https://silo/cb'',
       xr_provider_state = Some (ProviderState start)\<rparr> demo_state) = Ok (response demo_out)"
proof -
  let ?i = "InitAuthorize demo_authlib demo_srv demo_entropy demo_entropy 2
      \<lparr>ir_state = ''st8'', ir_redirect_uri = ''https://silo/cb''\<rparr>"
  let ?prov = "providerState demo_verifier demo_nonce ''st8'' ''https://silo/cb'' ''Tii''"
  let ?url = "auth_code_url demo_authlib ((pv_oauth2Config demo_provider)\<lparr>oc_RedirectURL := ''https://silo/cb''\<rparr>) ''st8''
            [(''nonce'', demo_nonce), (''code_challenge'', pkceS256 demo_authlib demo_verifier),
             (''code_challenge_method'', ''S256'')]"
  have enc: "rawURLEncode (replicate 48 0) = demo_verifier" "rawURLEncode (replicate 32 0) = demo_nonce" by code_simp+
  obtain start where s: "?i = Ok start" and p: "ProviderState start = ?prov" and a: "AuthorizeUrl start = ?url"
  proof -
    have t: "time_format demo_authlib 2 = ''Tii''" by (simp add: demo_authlib_def numeral_eq_Suc)
    have n: "new_struct demo_authlib m = None" for m by (simp add: demo_authlib_def)
    show thesis
      by (rule that [of "\<lparr>AuthorizeUrl = ?url, ProviderState = ?prov\<rparr>"])
        (simp_all add: InitAuthorize_Ok_iff demo_srv_def NewServer_def demo_entropy_def enc t n)
  qed
  let ?req = "\<lparr>xr_code = ''c0de'', xr_state = ''st8'', xr_redirect_uri = ''https://silo/cb'',
       xr_provider_state = Some (ProviderState start)\<rparr>"
  let ?tok = "\<lparr>tk_access = ''at'', tk_id_token = Some (JString ''jwt'')\<rparr>"
  let ?idt = "\<lparr>it_Nonce = demo_nonce, it_Claims = Ok demo_claims\<rparr>"
  let ?m = "fmadd demo_claims (fmap_of_list [(''sub'', JString ''u1''), (''name'', JString ''Una'')])"
  have cfg: "cfgFn demo_srv = demo_config" "provFn demo_srv = Some demo_provider"
    "consumeNonc demo_srv = Some (ConsumeNonce demo_pg)" by (simp_all add: demo_srv_def NewServer_def)
  have u: "userClaims pkce_idp demo_provider ?tok = fmap_of_list [(''sub'', JString ''u1''), (''name'', JString ''Una'')]"
    by (simp add: userClaims_def pkce_idp_def demo_idp_def)
  have sub: "string_at demo_claims ''sub'' = ''u1''" by code_simp
  have e: "fst (EmailVerified demo_claims)"
    "EvaluateFilters demo_lib ?m (elems (ClaimFilters demo_config)) = None" by code_simp+
  have r: "demo_reads (AuthorizeUrl start) = (demo_nonce, pkceS256 demo_authlib demo_verifier)"
    unfolding a using rawURLEncode_alphabet by (intro demo_reads_url) (simp add: pkceS256_def flip: enc)
  have "fst (ExchangeCode demo_lib demo_authlib pkce_idp demo_srv (demo_clocks 5) None ?req demo_state) =
      Ok (response (decorate demo_lib (cfgFn demo_srv) demo_claims ?m))"
  proof (rule login_flow_completes [OF s, where prov = demo_provider and P = demo_pg and tok = ?tok and raw = "''jwt''" and
        idt = ?idt and reads = demo_reads])
    show "demo_entropy 48 \<noteq> Ok []" "demo_entropy 32 \<noteq> Ok []" by (simp_all add: demo_entropy_def)
    show "time_parse demo_authlib (time_format demo_authlib 2) = Some 2" by (simp add: demo_authlib_def)
    show "ck_since (demo_clocks 5) \<le> 2 + stateTTL" by (simp add: demo_clocks_def stateTTL_def duration_defs)
    show "demo_reads (auth_code_url demo_authlib ((pv_oauth2Config demo_provider)
          \<lparr>oc_RedirectURL := ir_redirect_uri \<lparr>ir_state = ''st8'', ir_redirect_uri = ''https://silo/cb''\<rparr>\<rparr>)
          (ir_state \<lparr>ir_state = ''st8'', ir_redirect_uri = ''https://silo/cb''\<rparr>)
          [(''nonce'', n), (''code_challenge'', c), (''code_challenge_method'', ''S256'')]) = (n, c)"
      if "set n \<union> set c \<subseteq> set urlAlphabet" for n c using demo_reads_url [OF that] by simp
    show "?m = fmadd demo_claims (userClaims pkce_idp demo_provider ?tok)" unfolding u by (rule refl)
    show "EvaluateFilters demo_lib ?m (elems (ClaimFilters (cfgFn demo_srv))) = None" unfolding cfg by (rule e)
    show "new_struct demo_authlib x = None" for x by (simp add: demo_authlib_def)
    show "string_at (userClaims pkce_idp demo_provider ?tok) ''sub'' \<in> {[], string_at demo_claims ''sub''}"
      unfolding u sub by (simp add: string_at_def fmlookup_of_list)
  qed (simp_all add: cfg e(1) demo_state_def demo_db_def admit_def r sub, simp_all add: pkce_idp_def demo_idp_def)
  then show ?thesis using s cfg by (auto simp: demo_out_def)
qed

end
