(* ===== verification/Admin.thy ===== *)
theory Admin
  imports Http Auth_Flow
begin

text \<open>
  \<^verbatim>\<open>internal/admin/server.go\<close>: the admin HTTP API. The closures of \<^verbatim>\<open>Deps\<close> read and write an application
  state of type \<open>'s\<close>; the handlers' own state (\<open>admin_state\<close>) is the limiter, the audit log and that application state.

  Parameters (\<open>weblib\<close>): the JSON reader (the first value of a body for \<^verbatim>\<open>Decoder.Decode\<close>, the whole text for
  \<^verbatim>\<open>Unmarshal\<close>), the hardened HTTP client, and the texts of errors made elsewhere. \<^verbatim>\<open>chi\<close>'s reply to a request that
  matches no route is the parameter \<open>miss\<close>.
\<close>

subsection \<open>Bodies\<close>

text \<open>The reply of the claim simulator, one field per JSON key.\<close>

record simulation =
  sim_allowed :: bool
  sim_filters_passed :: bool
  sim_filter_trace :: "FilterTrace list"
  sim_email_required :: bool
  sim_email_found :: bool
  sim_email_value :: json
  sim_email_passed :: bool
  sim_sub_present :: bool
  sim_role :: string
  sim_role_rule_index :: int
  sim_sub :: string
  sim_email :: string
  sim_name :: string

datatype body = BText string | BJson jdoc | BEmpty | BSimulation simulation

definition obj :: "(string \<times> json) list \<Rightarrow> json" where
  "obj ms = JObject (fmap_of_list ms)"

text \<open>An encoding failure is ignored and leaves the body empty.\<close>

definition encodeBody :: "json \<Rightarrow> body" where
  "encodeBody v = (case marshal v of None \<Rightarrow> BEmpty | Some d \<Rightarrow> BJson d)"

definition writeJSON :: "nat \<Rightarrow> json \<Rightarrow> body http_response" where
  "writeJSON code v = \<lparr>rs_code = code, rs_header = contentType ''application/json'', rs_body = encodeBody v\<rparr>"

subsection \<open>Dependencies\<close>

record weblib =
  wl_decode :: "string \<Rightarrow> jdoc option"
  wl_unmarshal :: "string \<Rightarrow> (string, jdoc) result"
  wl_fetch :: "bool \<Rightarrow> string \<Rightarrow> (string, nat \<times> (string, string) result) result"
  wl_url_error :: "url_error \<Rightarrow> string"
  wl_type_error :: "jdoc \<Rightarrow> string"

record 's Deps =
  ConfigFn :: "'s \<Rightarrow> Config"
  ProviderFn :: "'s \<Rightarrow> Provider option"
  ProviderErrFn :: "('s \<Rightarrow> string) option"
  UpdateConfigFn :: "(Config \<Rightarrow> 's \<Rightarrow> string check \<times> 's) option"
  dp_AuditLog :: "Logger option"

record 's admin_state =
  ad_limiter :: "Limiter option"
  ad_log :: log
  ad_app :: 's

definition NewAdminServer :: "'s Deps \<Rightarrow> 's Deps" where
  "NewAdminServer d = d\<lparr>dp_AuditLog := (case dp_AuditLog d of None \<Rightarrow> Some NewLogger | Some l \<Rightarrow> Some l)\<rparr>"

type_synonym 's handler = "http_request \<Rightarrow> 's admin_state \<Rightarrow> body outcome \<times> 's admin_state"

subsection \<open>Middleware\<close>

definition remoteIP :: "http_request \<Rightarrow> string" where
  "remoteIP r =
     (let xff = headerGet (rq_header r) ''X-Forwarded-For'' in
      if xff \<noteq> [] then
        (case indexByte xff (CHR '','') of
           Some i \<Rightarrow> trimSpace (take i xff)
         | None \<Rightarrow> trimSpace xff)
      else let xr = headerGet (rq_header r) ''X-Real-IP'' in
        if xr \<noteq> [] then trimSpace xr
        else (case SplitHostPort (rq_remote r) of Err _ \<Rightarrow> rq_remote r | Ok (host, _) \<Rightarrow> host))"

text \<open>\<^verbatim>\<open>int(retry.Seconds())\<close> truncates towards zero.\<close>

definition retrySeconds :: "duration \<Rightarrow> int" where
  "retrySeconds retry =
     (let secs = (if 0 \<le> durationSeconds retry then \<lfloor>durationSeconds retry\<rfloor> else \<lceil>durationSeconds retry\<rceil>)
      in if secs < 1 then 1 else secs)"

definition rateLimit :: "instant \<Rightarrow> 's handler \<Rightarrow> 's handler" where
  "rateLimit now next r s =
     (case ad_limiter s of
        None \<Rightarrow> next r s
      | Some l \<Rightarrow>
          (case Allow now (''admin:'' @ remoteIP r) l of
             ((True, _), l') \<Rightarrow> next r (s\<lparr>ad_limiter := Some l'\<rparr>)
           | ((False, retry), l') \<Rightarrow>
               (let rs = writeJSON 429 (obj [(''error'', JString ''rate limit exceeded'')])
                in (Replied (rs\<lparr>rs_header := headerSet ''Retry-After'' (itoa (nat (retrySeconds retry))) (rs_header rs)\<rparr>),
                    s\<lparr>ad_limiter := Some l'\<rparr>))))"

definition requireAdmin :: "'s handler \<Rightarrow> 's handler" where
  "requireAdmin next r s =
     (if headerGet (rq_header r) ''X-Silo-User-Role'' \<noteq> ''admin''
      then (Replied (httpError BText ''forbidden'' 403), s)
      else next r s)"

subsection \<open>Configuration\<close>

record configPatch =
  cp_IssuerURL :: "string option"
  cp_ClientID :: "string option"
  cp_ClientSecret :: "string option"
  cp_Scopes :: "string option"
  cp_DisplayName :: "string option"
  cp_IconURLPath :: "string option"
  cp_ClaimFilters :: "ClaimFilter slice option"
  cp_ClaimRoleMapping :: "RoleMappingRule slice option"
  cp_EmailVerifiedRequired :: "bool option"
  cp_LinkByEmail :: "bool option"

definition emptyPatch :: configPatch where
  "emptyPatch = \<lparr>cp_IssuerURL = None, cp_ClientID = None, cp_ClientSecret = None, cp_Scopes = None,
     cp_DisplayName = None, cp_IconURLPath = None, cp_ClaimFilters = None, cp_ClaimRoleMapping = None,
     cp_EmailVerifiedRequired = None, cp_LinkByEmail = None\<rparr>"

definition patchFields :: "string list" where
  "patchFields = [''issuer_url'', ''client_id'', ''client_secret'', ''scopes'', ''display_name'', ''icon_url_path'',
     ''claim_filters'', ''claim_role_mapping'', ''email_verified_required'', ''link_by_email'']"

definition setPatchField :: "string \<Rightarrow> jdoc \<Rightarrow> configPatch \<Rightarrow> (json_error, configPatch) result" where
  "setPatchField n d p =
     (let str = decode_pointer decode_string []; bool = decode_pointer decode_bool False in
      if n = ''issuer_url'' then map_sum id (\<lambda>v. p\<lparr>cp_IssuerURL := v\<rparr>) (str d (cp_IssuerURL p))
      else if n = ''client_id'' then map_sum id (\<lambda>v. p\<lparr>cp_ClientID := v\<rparr>) (str d (cp_ClientID p))
      else if n = ''client_secret'' then map_sum id (\<lambda>v. p\<lparr>cp_ClientSecret := v\<rparr>) (str d (cp_ClientSecret p))
      else if n = ''scopes'' then map_sum id (\<lambda>v. p\<lparr>cp_Scopes := v\<rparr>) (str d (cp_Scopes p))
      else if n = ''display_name'' then map_sum id (\<lambda>v. p\<lparr>cp_DisplayName := v\<rparr>) (str d (cp_DisplayName p))
      else if n = ''icon_url_path'' then map_sum id (\<lambda>v. p\<lparr>cp_IconURLPath := v\<rparr>) (str d (cp_IconURLPath p))
      else if n = ''claim_filters'' then
        map_sum id (\<lambda>v. p\<lparr>cp_ClaimFilters := v\<rparr>) (decode_pointer decodeFilters None d (cp_ClaimFilters p))
      else if n = ''claim_role_mapping'' then
        map_sum id (\<lambda>v. p\<lparr>cp_ClaimRoleMapping := v\<rparr>) (decode_pointer decodeRules None d (cp_ClaimRoleMapping p))
      else if n = ''email_verified_required'' then
        map_sum id (\<lambda>v. p\<lparr>cp_EmailVerifiedRequired := v\<rparr>) (bool d (cp_EmailVerifiedRequired p))
      else map_sum id (\<lambda>v. p\<lparr>cp_LinkByEmail := v\<rparr>) (bool d (cp_LinkByEmail p)))"

definition decodePatch :: "jdoc \<Rightarrow> (json_error, configPatch) result" where
  "decodePatch d = decode_struct patchFields setPatchField d emptyPatch"

text \<open>\<^verbatim>\<open>if req.X != nil { cur.X = f(*req.X) }\<close>\<close>

definition orKeep :: "('a \<Rightarrow> 'b) \<Rightarrow> 'a option \<Rightarrow> 'b \<Rightarrow> 'b" where
  "orKeep f v old = (case v of None \<Rightarrow> old | Some x \<Rightarrow> f x)"

text \<open>The new configuration and whether the secret changed.\<close>

definition applyPatch :: "configPatch \<Rightarrow> Config \<Rightarrow> Config \<times> bool" where
  "applyPatch p cur =
     (let secretGiven = (case cp_ClientSecret p of None \<Rightarrow> False | Some x \<Rightarrow> x \<noteq> []);
          secret = (if secretGiven then the (cp_ClientSecret p) else ClientSecret cur)
      in (\<lparr>DatabaseURL = [],
           IssuerURL = orKeep trimSpace (cp_IssuerURL p) (IssuerURL cur),
           ClientID = orKeep trimSpace (cp_ClientID p) (ClientID cur),
           ClientSecret = secret,
           Scopes = orKeep trimSpace (cp_Scopes p) (Scopes cur),
           DisplayName = orKeep trimSpace (cp_DisplayName p) (DisplayName cur),
           IconURLPath = orKeep trimSpace (cp_IconURLPath p) (IconURLPath cur),
           ClaimFilters = orKeep id (cp_ClaimFilters p) (ClaimFilters cur),
           ClaimRoleMapping = orKeep id (cp_ClaimRoleMapping p) (ClaimRoleMapping cur),
           EmailVerifiedRequired = orKeep id (cp_EmailVerifiedRequired p) (EmailVerifiedRequired cur),
           LinkByEmail = orKeep id (cp_LinkByEmail p) (LinkByEmail cur)\<rparr>,
          secretGiven \<and> secret \<noteq> ClientSecret cur))"

definition handleUpdateConfig :: "weblib \<Rightarrow> 's Deps \<Rightarrow> 's handler" where
  "handleUpdateConfig W deps r s =
     (case UpdateConfigFn deps of
        None \<Rightarrow> (Replied (writeJSON 503 (obj [(''error'', JString ''config store unavailable'')])), s)
      | Some update \<Rightarrow>
          let cur = ConfigFn deps (ad_app s);
              bad = (Replied (writeJSON 400 (obj [(''error'', JString ''invalid JSON body'')])), s)
          in (case wl_decode W (rq_body r) of
                None \<Rightarrow> bad
              | Some d \<Rightarrow>
                  (case decodePatch d of
                     Err _ \<Rightarrow> bad
                   | Ok p \<Rightarrow>
                       let (next, secretChanged) = applyPatch p cur in
                       (case update next (ad_app s) of
                          (Some err, app) \<Rightarrow>
                            (Replied (writeJSON 400 (obj [(''error'', JString err)])), s\<lparr>ad_app := app\<rparr>)
                        | (None, app) \<Rightarrow>
                            (Replied (writeJSON 200 (obj [(''ok'', JBool True)])),
                             s\<lparr>ad_app := app,
                               ad_log := ConfigMutation (dp_AuditLog deps) (headerGet (rq_header r) ''X-Silo-User-Id'')
                                 (IssuerURL cur) (IssuerURL next) secretChanged (ad_log s)\<rparr>)))))"

definition handleWhoami :: "'s handler" where
  "handleWhoami r s =
     (Replied (writeJSON 200 (obj [(''user_id'', JString (headerGet (rq_header r) ''X-Silo-User-Id'')),
        (''role'', JString (headerGet (rq_header r) ''X-Silo-User-Role'')),
        (''theme'', JString (headerGet (rq_header r) ''X-Silo-User-Theme''))])), s)"

text \<open>The \<^verbatim>\<open>any\<close> value the encoder sees for a rule list: null for a nil slice.\<close>

definition sliceJson :: "('a \<Rightarrow> json) \<Rightarrow> 'a slice \<Rightarrow> json" where
  "sliceJson f s = (case s of None \<Rightarrow> JNull | Some xs \<Rightarrow> JArray (map f xs))"

definition filterJson :: "ClaimFilter \<Rightarrow> json" where
  "filterJson f = obj [(''claim_path'', JString (cf_ClaimPath f)), (''operator'', JString (cf_Operator f)),
     (''value'', cf_Value f)]"

definition ruleJson :: "RoleMappingRule \<Rightarrow> json" where
  "ruleJson r = obj [(''claim_path'', JString (rm_ClaimPath r)), (''operator'', JString (rm_Operator r)),
     (''value'', rm_Value r), (''role'', JString (rm_Role r))]"

definition providerErr :: "'s Deps \<Rightarrow> 's \<Rightarrow> string" where
  "providerErr deps app = (case ProviderErrFn deps of None \<Rightarrow> [] | Some f \<Rightarrow> f app)"

definition handleConfigSummary :: "'s Deps \<Rightarrow> 's handler" where
  "handleConfigSummary deps r s =
     (let cfg = ConfigFn deps (ad_app s) in
      (Replied (writeJSON 200 (obj
         [(''issuer_url'', JString (IssuerURL cfg)), (''client_id'', JString (ClientID cfg)),
          (''has_client_secret'', JBool (ClientSecret cfg \<noteq> [])), (''scopes'', JString (Scopes cfg)),
          (''display_name'', JString (DisplayName cfg)), (''icon_url_path'', JString (IconURLPath cfg)),
          (''claim_filters'', sliceJson filterJson (ClaimFilters cfg)),
          (''claim_role_mapping'', sliceJson ruleJson (ClaimRoleMapping cfg)),
          (''email_verified_required'', JBool (EmailVerifiedRequired cfg)),
          (''link_by_email'', JBool (LinkByEmail cfg)),
          (''available_icons'', JArray (map JString AllowedIcons)),
          (''provider_ready'', JBool (ProviderFn deps (ad_app s) \<noteq> None)),
          (''provider_error'', JString (providerErr deps (ad_app s)))])), s))"

subsection \<open>Diagnostics\<close>

definition maxResponseBytes :: nat where "maxResponseBytes = 10 * 2 ^ 20"

text \<open>Decoding into a \<^verbatim>\<open>map[string]any\<close>: entries are added to the map that is there.\<close>

fun decode_map :: "jdoc \<Rightarrow> claims option \<Rightarrow> (json_error, claims option) result" where
  "decode_map DNull cur = Ok None"
| "decode_map (DObject ms) cur =
     Ok (Some (foldl (\<lambda>m (k, d). fmupd k (to_any d) m) (case cur of None \<Rightarrow> fmempty | Some m \<Rightarrow> m) ms))"
| "decode_map _ cur = Err UnmarshalTypeError"

definition anyAt :: "claims option \<Rightarrow> string \<Rightarrow> json" where
  "anyAt m k = (case m of None \<Rightarrow> JNull | Some c \<Rightarrow> (case fmlookup c k of None \<Rightarrow> JNull | Some v \<Rightarrow> v))"

definition decodeKeys :: "jdoc \<Rightarrow> (json_error, claims option slice) result" where
  "decodeKeys d = decode_struct [''keys''] (\<lambda>_ d' cur. decode_slice decode_map None d' cur) d None"

text \<open>Each fetch is listed with the loopback permission of the client it runs on.\<close>

type_synonym fetches = "(bool \<times> string) list"

definition fetchJWKSSummary :: "weblib \<Rightarrow> bool \<Rightarrow> string \<Rightarrow> json list option" where
  "fetchJWKSSummary W allow jwksURI =
     (case wl_fetch W allow jwksURI of
        Err _ \<Rightarrow> None
      | Ok (code, bodyR) \<Rightarrow>
          if code \<ge> 400 then None
          else (case bodyR of
             Err _ \<Rightarrow> None
           | Ok text \<Rightarrow>
               (case wl_decode W text of
                  None \<Rightarrow> None
                | Some d \<Rightarrow>
                    (case decodeKeys d of
                       Err _ \<Rightarrow> None
                     | Ok ks \<Rightarrow> Some (map (\<lambda>k. obj [(''kid'', anyAt k ''kid''), (''kty'', anyAt k ''kty''),
                         (''alg'', anyAt k ''alg''), (''use'', anyAt k ''use'')]) (elems ks))))))"

definition discoveryFail :: "string \<Rightarrow> body http_response" where
  "discoveryFail msg = writeJSON 200 (obj [(''ok'', JBool False), (''error'', JString msg)])"

text \<open>What is done with the discovery document once it is decoded.\<close>

definition discoveryDoc :: "golib \<Rightarrow> weblib \<Rightarrow> bool \<Rightarrow> claims \<Rightarrow> claims \<times> fetches" where
  "discoveryDoc lib W allow doc0 =
     (let doc = fmupd ''ok'' (JBool True) doc0;
          jwksURI = string_at doc ''jwks_uri''
      in if jwksURI \<noteq> [] then
           (case ValidateFetchURL lib jwksURI of
              Some e \<Rightarrow> (fmupd ''jwks_error'' (JString (''rejected jwks_uri: '' @ wl_url_error W e)) doc, [])
            | None \<Rightarrow>
                (case fetchJWKSSummary W allow jwksURI of
                   None \<Rightarrow> doc
                 | Some keys \<Rightarrow> fmupd ''jwks_keys'' (JArray keys) doc, [(allow, jwksURI)]))
         else (doc, []))"

definition handleDiscovery :: "golib \<Rightarrow> weblib \<Rightarrow> Config \<Rightarrow> body outcome \<times> fetches" where
  "handleDiscovery lib W cfg =
     (if IssuerURL cfg = [] then (Replied (discoveryFail ''issuer_url not configured''), [])
      else
        let allow = IssuerAllowsLoopback lib (IssuerURL cfg);
            url = trimRightByte (IssuerURL cfg) (CHR ''/'') @ ''/.well-known/openid-configuration''
        in if url_parse lib url = None then (Panicked, [])
           else (case wl_fetch W allow url of
              Err e \<Rightarrow> (Replied (discoveryFail e), [(allow, url)])
            | Ok (code, bodyR) \<Rightarrow>
                (case bodyR of
                   Err e \<Rightarrow> (Replied (discoveryFail e), [(allow, url)])
                 | Ok text \<Rightarrow>
                     let body = take maxResponseBytes text in
                     if code \<ge> 400
                     then (Replied (discoveryFail (''discovery '' @ itoa code @ '': '' @ body)), [(allow, url)])
                     else (case wl_unmarshal W body of
                        Err e \<Rightarrow> (Replied (discoveryFail (''invalid JSON: '' @ e)), [(allow, url)])
                      | Ok d \<Rightarrow>
                          (case decode_map d None of
                             Err _ \<Rightarrow> (Replied (discoveryFail (''invalid JSON: '' @ wl_type_error W d)), [(allow, url)])
                           | Ok None \<Rightarrow> (Panicked, [(allow, url)])
                           | Ok (Some doc) \<Rightarrow>
                               (case discoveryDoc lib W allow doc of
                                  (doc', fs) \<Rightarrow> (Replied (writeJSON 200 (JObject doc')), (allow, url) # fs)))))))"

definition decodeTokenReq :: "jdoc \<Rightarrow> (json_error, string) result" where
  "decodeTokenReq d = decode_struct [''id_token''] (\<lambda>_. decode_string) d []"

definition handleDecodeIDToken :: "weblib \<Rightarrow> idp \<Rightarrow> 's Deps \<Rightarrow> 's handler" where
  "handleDecodeIDToken W I deps r s =
     (let unverified = (\<lambda>code msg. writeJSON code (obj [(''verified'', JBool False), (''error'', JString msg)]))
      in (Replied
        (case Option.bind (wl_decode W (rq_body r)) (\<lambda>d. case decodeTokenReq d of Err _ \<Rightarrow> None | Ok t \<Rightarrow> Some t) of
           None \<Rightarrow> unverified 400 ''bad request body''
         | Some raw \<Rightarrow>
             (case ProviderFn deps (ad_app s) of
                None \<Rightarrow> unverified 200 ''plugin not configured''
              | Some prov \<Rightarrow>
                  (case idp_verify I (pv_clientAllowsLoopback prov) (pv_verifier prov) raw of
                     Err e \<Rightarrow> unverified 200 e
                   | Ok idToken \<Rightarrow>
                       writeJSON 200 (obj [(''verified'', JBool True),
                         (''claims'', case it_Claims idToken of Err _ \<Rightarrow> JNull | Ok c \<Rightarrow> JObject c)])))), s))"

record simulateReq =
  sr_Claims :: "claims option"
  sr_Filters :: "ClaimFilter slice option"
  sr_RoleMapping :: "RoleMappingRule slice option"
  sr_EmailVerifiedRequired :: "bool option"

definition simulateFields :: "string list" where
  "simulateFields = [''claims'', ''filters'', ''role_mapping'', ''email_verified_required'']"

definition setSimulateField :: "string \<Rightarrow> jdoc \<Rightarrow> simulateReq \<Rightarrow> (json_error, simulateReq) result" where
  "setSimulateField n d q =
     (if n = ''claims'' then map_sum id (\<lambda>v. q\<lparr>sr_Claims := v\<rparr>) (decode_map d (sr_Claims q))
      else if n = ''filters'' then
        map_sum id (\<lambda>v. q\<lparr>sr_Filters := v\<rparr>) (decode_pointer decodeFilters None d (sr_Filters q))
      else if n = ''role_mapping'' then
        map_sum id (\<lambda>v. q\<lparr>sr_RoleMapping := v\<rparr>) (decode_pointer decodeRules None d (sr_RoleMapping q))
      else map_sum id (\<lambda>v. q\<lparr>sr_EmailVerifiedRequired := v\<rparr>)
        (decode_pointer decode_bool False d (sr_EmailVerifiedRequired q)))"

definition decodeSimulate :: "jdoc \<Rightarrow> (json_error, simulateReq) result" where
  "decodeSimulate d = decode_struct simulateFields setSimulateField d
     \<lparr>sr_Claims = None, sr_Filters = None, sr_RoleMapping = None, sr_EmailVerifiedRequired = None\<rparr>"

definition simulate :: "golib \<Rightarrow> Config \<Rightarrow> simulateReq \<Rightarrow> simulation" where
  "simulate lib cfg q =
     (let c = (case sr_Claims q of None \<Rightarrow> fmempty | Some m \<Rightarrow> m);
          filters = orKeep id (sr_Filters q) (ClaimFilters cfg);
          mapping = orKeep id (sr_RoleMapping q) (ClaimRoleMapping cfg);
          emailRequired = orKeep id (sr_EmailVerifiedRequired q) (EmailVerifiedRequired cfg);
          (filterTrace, filtersPassed) = TraceFilters lib c (elems filters);
          (emailVerified, emailVerifiedFound) = EmailVerified c;
          emailPassed = (\<not> emailRequired \<or> emailVerified);
          (role, ruleIdx) = TraceRole lib c (elems mapping);
          id = DeriveIdentity c
      in \<lparr>sim_allowed = (filtersPassed \<and> emailPassed \<and> Subject id \<noteq> []), sim_filters_passed = filtersPassed,
          sim_filter_trace = filterTrace, sim_email_required = emailRequired, sim_email_found = emailVerifiedFound,
          sim_email_value = anyAt (Some c) ''email_verified'', sim_email_passed = emailPassed,
          sim_sub_present = (Subject id \<noteq> []), sim_role = role, sim_role_rule_index = ruleIdx,
          sim_sub = Subject id, sim_email = Email id, sim_name = id_DisplayName id\<rparr>)"

definition handleSimulateClaims :: "golib \<Rightarrow> weblib \<Rightarrow> 's Deps \<Rightarrow> 's handler" where
  "handleSimulateClaims lib W deps r s =
     (Replied
        (case Option.bind (wl_decode W (rq_body r)) (\<lambda>d. case decodeSimulate d of Err _ \<Rightarrow> None | Ok q \<Rightarrow> Some q) of
           None \<Rightarrow> writeJSON 400 (obj [(''error'', JString ''invalid JSON body'')])
         | Some q \<Rightarrow> \<lparr>rs_code = 200, rs_header = contentType ''application/json'',
             rs_body = BSimulation (simulate lib (ConfigFn deps (ad_app s)) q)\<rparr>), s)"

subsection \<open>Routing\<close>

datatype admin_route = Whoami | ConfigSummary | UpdateConfigRoute | Discovery | DecodeIDToken | SimulateClaims

definition adminRoutes :: "(string \<times> string \<times> admin_route) list" where
  "adminRoutes =
     [(''GET'', ''/api/v1/admin/whoami'', Whoami),
      (''GET'', ''/api/v1/admin/config-summary'', ConfigSummary),
      (''PATCH'', ''/api/v1/admin/config'', UpdateConfigRoute),
      (''GET'', ''/api/v1/admin/discovery'', Discovery),
      (''POST'', ''/api/v1/admin/decode-id-token'', DecodeIDToken),
      (''POST'', ''/api/v1/admin/simulate-claims'', SimulateClaims)]"

definition adminRoute :: "http_request \<Rightarrow> admin_route option" where
  "adminRoute r = map_option (\<lambda>(_, _, route). route)
     (find (\<lambda>(m, p, _). m = rq_method r \<and> p = rq_path r) adminRoutes)"

definition serveRoute :: "golib \<Rightarrow> weblib \<Rightarrow> idp \<Rightarrow> 's Deps \<Rightarrow> instant \<Rightarrow> admin_route \<Rightarrow> 's handler" where
  "serveRoute lib W I deps now route =
     (case route of
        Whoami \<Rightarrow> handleWhoami
      | ConfigSummary \<Rightarrow> requireAdmin (handleConfigSummary deps)
      | UpdateConfigRoute \<Rightarrow> requireAdmin (handleUpdateConfig W deps)
      | Discovery \<Rightarrow> requireAdmin (rateLimit now
          (\<lambda>r s. (fst (handleDiscovery lib W (ConfigFn deps (ad_app s))), s)))
      | DecodeIDToken \<Rightarrow> requireAdmin (rateLimit now (handleDecodeIDToken W I deps))
      | SimulateClaims \<Rightarrow> requireAdmin (rateLimit now (handleSimulateClaims lib W deps)))"

definition adminHandler ::
  "golib \<Rightarrow> weblib \<Rightarrow> idp \<Rightarrow> (http_request \<Rightarrow> body http_response) \<Rightarrow> 's Deps \<Rightarrow> instant \<Rightarrow> 's handler" where
  "adminHandler lib W I miss deps now r s =
     (case adminRoute r of
        None \<Rightarrow> (Replied (miss r), s)
      | Some route \<Rightarrow> serveRoute lib W I deps now route r s)"

subsection \<open>Access control\<close>

lemma requireAdmin_denies:
  "headerGet (rq_header r) ''X-Silo-User-Role'' \<noteq> ''admin'' \<Longrightarrow>
     requireAdmin next r s = (Replied (httpError BText ''forbidden'' 403), s)"
  by (simp add: requireAdmin_def)

lemma requireAdmin_passes:
  "headerGet (rq_header r) ''X-Silo-User-Role'' = ''admin'' \<Longrightarrow> requireAdmin next r s = next r s"
  by (simp add: requireAdmin_def)

text \<open>The reply to a caller who is not an admin: a function of the request alone.\<close>

definition guestReply :: "(http_request \<Rightarrow> body http_response) \<Rightarrow> http_request \<Rightarrow> body outcome" where
  "guestReply miss r =
     (case adminRoute r of
        None \<Rightarrow> Replied (miss r)
      | Some Whoami \<Rightarrow> fst (handleWhoami r \<lparr>ad_limiter = None, ad_log = [], ad_app = ()\<rparr>)
      | Some _ \<Rightarrow> Replied (httpError BText ''forbidden'' 403))"

lemma adminHandler_guest:
  assumes "headerGet (rq_header r) ''X-Silo-User-Role'' \<noteq> ''admin''"
  shows "adminHandler lib W I miss deps now r s = (guestReply miss r, s)"
proof (cases "adminRoute r")
  case None
  then show ?thesis by (simp add: adminHandler_def guestReply_def)
next
  case (Some route)
  then show ?thesis
    using assms by (cases route) (simp_all add: adminHandler_def serveRoute_def guestReply_def requireAdmin_denies handleWhoami_def)
qed

lemma admin_gate_inert:
  assumes "headerGet (rq_header r) ''X-Silo-User-Role'' \<noteq> ''admin''"
  shows "\<exists>rs. \<forall>s. adminHandler lib W I miss deps now r s = (Replied rs, s)"
proof -
  have "\<exists>rs. guestReply miss r = Replied rs"
    by (simp add: guestReply_def handleWhoami_def split: option.split admin_route.split)
  then obtain rs where "guestReply miss r = Replied rs" ..
  then show ?thesis by (simp add: adminHandler_guest [OF assms])
qed

text \<open>
  Only admins reach the admin API. For a request whose \<^verbatim>\<open>X-Silo-User-Role\<close> is not exactly \<^verbatim>\<open>admin\<close>
  the reply is a function of the request alone, 403 on every route but \<^verbatim>\<open>whoami\<close>: it reveals nothing of the configuration, the
  provider or the limiter, and it changes nothing, not even a rate-limit bucket.
\<close>

theorem admin_gate:
  assumes "headerGet (rq_header r) ''X-Silo-User-Role'' \<noteq> ''admin''"
  shows "adminHandler lib W I miss deps now r s = (guestReply miss r, s)"
  using assms by (rule adminHandler_guest)

definition demo_http :: "string \<Rightarrow> string \<Rightarrow> string \<Rightarrow> http_request" where
  "demo_http role m p = \<lparr>rq_method = m, rq_path = p, rq_query = [],
     rq_header = headerSet ''x-silo-user-role'' role fmempty, rq_remote = ''10.0.0.1:4000'', rq_body = []\<rparr>"

definition demo_web :: weblib where
  "demo_web = \<lparr>wl_decode = (\<lambda>_. Some (DObject [(''display_name'', DString '' SSO '')])),
     wl_unmarshal = (\<lambda>s. if s = ''null'' then Ok DNull else if s = ''{}'' then Ok (DObject []) else Err ''syntax error''),
     wl_fetch = (\<lambda>_ u. if u = ''https://null.example/.well-known/openid-configuration'' then Ok (200, Ok ''null'')
       else Ok (200, Ok ''{}'')),
     wl_url_error = (\<lambda>_. ''bad url''), wl_type_error = (\<lambda>_. ''not an object'')\<rparr>"

definition demo_deps :: "Config Deps" where
  "demo_deps = \<lparr>ConfigFn = (\<lambda>c. c), ProviderFn = (\<lambda>_. None), ProviderErrFn = None,
     UpdateConfigFn = Some (\<lambda>c _. (None, c)), dp_AuditLog = Some NewLogger\<rparr>"

definition demo_admin :: "Config admin_state" where
  "demo_admin = \<lparr>ad_limiter = None, ad_log = [], ad_app = demo_config\<rparr>"

theorem admin_gate_witness:
  "adminHandler demo_lib demo_web demo_idp (\<lambda>_. notFound BText) demo_deps 0
     (demo_http ''user'' ''GET'' ''/api/v1/admin/config-summary'') demo_admin
   = (guestReply (\<lambda>_. notFound BText) (demo_http ''user'' ''GET'' ''/api/v1/admin/config-summary''), demo_admin)"
proof (rule admin_gate)
  show "headerGet (rq_header (demo_http ''user'' ''GET'' ''/api/v1/admin/config-summary'')) ''X-Silo-User-Role'' \<noteq> ''admin''"
    by code_simp
qed

subsection \<open>The client secret\<close>

text \<open>Two application states that differ in the client secret only, which both have.\<close>

definition same_but_secret :: "'s Deps \<Rightarrow> 's \<Rightarrow> 's \<Rightarrow> bool" where
  "same_but_secret deps a b \<longleftrightarrow>
     (\<exists>sec. ConfigFn deps b = (ConfigFn deps a)\<lparr>ClientSecret := sec\<rparr> \<and> sec \<noteq> [] \<and> ClientSecret (ConfigFn deps a) \<noteq> []) \<and>
     rel_option (\<lambda>p q. pv_verifier p = pv_verifier q \<and> pv_clientAllowsLoopback p = pv_clientAllowsLoopback q)
       (ProviderFn deps a) (ProviderFn deps b) \<and>
     providerErr deps a = providerErr deps b"

lemma handleConfigSummary_secret:
  assumes "same_but_secret deps a b"
  shows "fst (handleConfigSummary deps r (s\<lparr>ad_app := a\<rparr>)) = fst (handleConfigSummary deps r (s\<lparr>ad_app := b\<rparr>))"
proof -
  have "ProviderFn deps a = None \<longleftrightarrow> ProviderFn deps b = None"
    using assms by (auto simp: same_but_secret_def elim: option.rel_cases)
  then show ?thesis
    using assms by (auto simp: handleConfigSummary_def same_but_secret_def Let_def)
qed

lemma handleDecodeIDToken_secret:
  assumes "same_but_secret deps a b"
  shows "fst (handleDecodeIDToken W I deps r (s\<lparr>ad_app := a\<rparr>)) = fst (handleDecodeIDToken W I deps r (s\<lparr>ad_app := b\<rparr>))"
proof -
  have "rel_option (\<lambda>p q. pv_verifier p = pv_verifier q \<and> pv_clientAllowsLoopback p = pv_clientAllowsLoopback q)
       (ProviderFn deps a) (ProviderFn deps b)" using assms by (simp add: same_but_secret_def)
  then show ?thesis
    by (cases rule: option.rel_cases) (simp_all add: handleDecodeIDToken_def Let_def split: option.split)
qed

lemma simulate_secret: "simulate lib (c\<lparr>ClientSecret := x\<rparr>) q = simulate lib c q"
  by (simp add: simulate_def)

lemma handleSimulateClaims_secret:
  assumes "same_but_secret deps a b"
  shows "fst (handleSimulateClaims lib W deps r (s\<lparr>ad_app := a\<rparr>)) = fst (handleSimulateClaims lib W deps r (s\<lparr>ad_app := b\<rparr>))"
  using assms by (auto simp: handleSimulateClaims_def same_but_secret_def simulate_secret split: option.split)

lemma handleDiscovery_secret: "handleDiscovery lib W (c\<lparr>ClientSecret := x\<rparr>) = handleDiscovery lib W c"
  by (simp add: handleDiscovery_def)

lemma rateLimit_app:
  assumes "\<And>s. fst (h r (s\<lparr>ad_app := a\<rparr>)) = fst (h r (s\<lparr>ad_app := b\<rparr>))"
  shows "fst (rateLimit now h r (s\<lparr>ad_app := a\<rparr>)) = fst (rateLimit now h r (s\<lparr>ad_app := b\<rparr>))"
proof -
  have "fst (h r (s\<lparr>ad_app := a, ad_limiter := l\<rparr>)) = fst (h r (s\<lparr>ad_app := b, ad_limiter := l\<rparr>))" for l
  proof -
    have swap: "s\<lparr>ad_app := x, ad_limiter := l\<rparr> = (s\<lparr>ad_limiter := l\<rparr>)\<lparr>ad_app := x\<rparr>" for x by (cases s) simp
    show ?thesis unfolding swap by (rule assms)
  qed
  with assms [of s] show ?thesis by (simp add: rateLimit_def Let_def split: option.split prod.split bool.split)
qed

text \<open>
  C8: the replies of the admin API other than those of the configuration update do not depend on the client secret. On each of these
  routes the replies in two states that differ in the (non-empty) secret only are identical; all that shows is whether a secret is set.
  The update route is left out because a refused update passes on the error text of the store.
\<close>

theorem admin_secret_confidential:
  assumes "same_but_secret deps a b" and "adminRoute r \<noteq> Some UpdateConfigRoute"
  shows "fst (adminHandler lib W I miss deps now r (s\<lparr>ad_app := a\<rparr>)) =
    fst (adminHandler lib W I miss deps now r (s\<lparr>ad_app := b\<rparr>))"
proof (cases "adminRoute r")
  case None
  then show ?thesis by (simp add: adminHandler_def)
next
  case (Some route)
  have disc: "fst (handleDiscovery lib W (ConfigFn deps a)) = fst (handleDiscovery lib W (ConfigFn deps b))"
    using assms(1) by (auto simp: same_but_secret_def handleDiscovery_secret)
  show ?thesis
  proof (cases "headerGet (rq_header r) ''X-Silo-User-Role'' = ''admin''")
    case False
    then show ?thesis
      using Some by (cases route) (simp_all add: adminHandler_def serveRoute_def requireAdmin_denies handleWhoami_def)
  next
    case True
    note p = requireAdmin_passes [OF True]
    note rl = rateLimit_app [of _ r a b now s]
    show ?thesis
    proof (cases route)
      case Discovery
      with Some show ?thesis unfolding adminHandler_def serveRoute_def
        by (simp only: option.case admin_route.case p, intro rl) (simp add: disc)
    next
      case DecodeIDToken
      with Some show ?thesis unfolding adminHandler_def serveRoute_def
        by (simp only: option.case admin_route.case p, intro rl handleDecodeIDToken_secret assms(1))
    next
      case SimulateClaims
      with Some show ?thesis unfolding adminHandler_def serveRoute_def
        by (simp only: option.case admin_route.case p, intro rl handleSimulateClaims_secret assms(1))
    next
      case ConfigSummary
      with Some show ?thesis unfolding adminHandler_def serveRoute_def
        by (simp only: option.case admin_route.case p, intro handleConfigSummary_secret assms(1))
    qed (use Some assms(2) in \<open>simp_all add: adminHandler_def serveRoute_def handleWhoami_def\<close>)
  qed
qed

theorem admin_secret_confidential_witness:
  "fst (adminHandler demo_lib demo_web demo_idp (\<lambda>_. notFound BText) demo_deps 0
     (demo_http ''admin'' ''GET'' ''/api/v1/admin/config-summary'') (demo_admin\<lparr>ad_app := demo_config\<rparr>)) =
   fst (adminHandler demo_lib demo_web demo_idp (\<lambda>_. notFound BText) demo_deps 0
     (demo_http ''admin'' ''GET'' ''/api/v1/admin/config-summary'') (demo_admin\<lparr>ad_app := demo_config\<lparr>ClientSecret := ''other''\<rparr>\<rparr>))"
proof (rule admin_secret_confidential)
  show "same_but_secret demo_deps demo_config (demo_config\<lparr>ClientSecret := ''other''\<rparr>)"
    by (auto simp: same_but_secret_def demo_deps_def demo_config_def providerErr_def)
  show "adminRoute (demo_http ''admin'' ''GET'' ''/api/v1/admin/config-summary'') \<noteq> Some UpdateConfigRoute" by code_simp
qed

subsection \<open>Updates\<close>

lemma applyPatch_flag: "snd (applyPatch p cur) \<longleftrightarrow> ClientSecret (fst (applyPatch p cur)) \<noteq> ClientSecret cur"
  by (auto simp: applyPatch_def Let_def split: option.splits)

lemma applyPatch_secret_kept:
  "cp_ClientSecret p = None \<or> cp_ClientSecret p = Some [] \<Longrightarrow> ClientSecret (fst (applyPatch p cur)) = ClientSecret cur"
  by (auto simp: applyPatch_def Let_def)

lemma applyPatch_empty: "applyPatch emptyPatch cur = (cur\<lparr>DatabaseURL := []\<rparr>, False)"
  by (simp add: applyPatch_def emptyPatch_def orKeep_def)

lemma applyPatch_database [simp]: "DatabaseURL (fst (applyPatch p cur)) = []"
  by (simp add: applyPatch_def Let_def)

text \<open>The fields of the record \<^const>\<open>ConfigMutation\<close> writes.\<close>

lemma ConfigMutation_Some:
  obtains e where "ConfigMutation (Some lg) actor old new changed l = l @ [e]"
    "argString ''event'' e = ''config_mutation''" "argString ''actor'' e = actor"
    "argString ''issuer_url_before'' e = old" "argString ''issuer_url_after'' e = new"
    "map_of (en_args e) ''secret_changed'' = Some (ABool changed)"
  by (simp add: ConfigMutation_def argString_def)

lemma handleUpdateConfig_cases:
  assumes "handleUpdateConfig W deps r s = (out, s')"
  obtains (refused) rs where "out = Replied rs" "rs_code rs \<noteq> 200" "ad_log s' = ad_log s"
      "\<And>upd d p. UpdateConfigFn deps = Some upd \<Longrightarrow> wl_decode W (rq_body r) = Some d \<Longrightarrow> decodePatch d = Ok p \<Longrightarrow>
         fst (upd (fst (applyPatch p (ConfigFn deps (ad_app s)))) (ad_app s)) \<noteq> None"
  | (saved) rs upd d p where "out = Replied rs" "rs_code rs = 200" "UpdateConfigFn deps = Some upd"
      "wl_decode W (rq_body r) = Some d" "decodePatch d = Ok p"
      "upd (fst (applyPatch p (ConfigFn deps (ad_app s)))) (ad_app s) = (None, ad_app s')"
      "ad_log s' = ConfigMutation (dp_AuditLog deps) (headerGet (rq_header r) ''X-Silo-User-Id'')
         (IssuerURL (ConfigFn deps (ad_app s))) (IssuerURL (fst (applyPatch p (ConfigFn deps (ad_app s)))))
         (snd (applyPatch p (ConfigFn deps (ad_app s)))) (ad_log s)"
proof (cases "UpdateConfigFn deps")
  case None
  with assms show thesis by (intro refused) (auto simp: handleUpdateConfig_def writeJSON_def)
next
  case (Some upd)
  let ?cur = "ConfigFn deps (ad_app s)"
  show thesis
  proof (cases "Option.bind (wl_decode W (rq_body r)) (\<lambda>d. case decodePatch d of Err _ \<Rightarrow> None | Ok p \<Rightarrow> Some p)")
    case None
    with assms Some show thesis
      by (intro refused) (auto simp: handleUpdateConfig_def writeJSON_def Let_def split: option.splits sum.splits)
  next
    case (Some p)
    then obtain d where d: "wl_decode W (rq_body r) = Some d" "decodePatch d = Ok p"
      by (cases "wl_decode W (rq_body r)"; cases "decodePatch (the (wl_decode W (rq_body r)))") auto
    obtain err app where u: "upd (fst (applyPatch p ?cur)) (ad_app s) = (err, app)" by force
    note h = assms [unfolded handleUpdateConfig_def \<open>UpdateConfigFn deps = Some upd\<close> Let_def, simplified d, simplified]
    show thesis
    proof (cases err)
      case None
      with h u d \<open>UpdateConfigFn deps = Some upd\<close> show thesis
        by (intro saved [where upd = upd and d = d and p = p]) (auto simp: writeJSON_def split: prod.splits)
    next
      case (Some e)
      with h u d \<open>UpdateConfigFn deps = Some upd\<close> show thesis by (intro refused) (auto simp: writeJSON_def split: prod.splits)
    qed
  qed
qed

text \<open>
  C26: an admin update is audited exactly when it was persisted. The reply is 200 if and only if the body decodes and the update
  function accepted the patched configuration; then one record is appended that names the acting user, the issuer before and after,
  and whether the secret changed, and otherwise none. The configuration handed on never carries a database URL, and a missing or
  empty secret in the request keeps the current one.
\<close>

theorem update_audited_iff_persisted:
  assumes "dp_AuditLog deps = Some lg" and "handleUpdateConfig W deps r s = (out, s')"
  shows "\<exists>rs. out = Replied rs \<and>
    (rs_code rs = 200 \<longleftrightarrow>
      (\<exists>upd d p. UpdateConfigFn deps = Some upd \<and> wl_decode W (rq_body r) = Some d \<and> decodePatch d = Ok p \<and>
         fst (upd (fst (applyPatch p (ConfigFn deps (ad_app s)))) (ad_app s)) = None)) \<and>
    (if rs_code rs = 200 then
       \<exists>upd d p e. UpdateConfigFn deps = Some upd \<and> wl_decode W (rq_body r) = Some d \<and> decodePatch d = Ok p \<and>
         (let cur = ConfigFn deps (ad_app s); next = fst (applyPatch p cur) in
          upd next (ad_app s) = (None, ad_app s') \<and> DatabaseURL next = [] \<and>
          (cp_ClientSecret p = None \<or> cp_ClientSecret p = Some [] \<longrightarrow> ClientSecret next = ClientSecret cur) \<and>
          ad_log s' = ad_log s @ [e] \<and> argString ''actor'' e = headerGet (rq_header r) ''X-Silo-User-Id'' \<and>
          argString ''issuer_url_before'' e = IssuerURL cur \<and> argString ''issuer_url_after'' e = IssuerURL next \<and>
          map_of (en_args e) ''secret_changed'' = Some (ABool (ClientSecret next \<noteq> ClientSecret cur)))
     else ad_log s' = ad_log s)"
  using assms(2)
proof (cases rule: handleUpdateConfig_cases)
  case (refused rs)
  then show ?thesis by auto
next
  case (saved rs upd d p)
  let ?cur = "ConfigFn deps (ad_app s)"
  let ?next = "fst (applyPatch p ?cur)"
  obtain e where e: "ConfigMutation (Some lg) (headerGet (rq_header r) ''X-Silo-User-Id'') (IssuerURL ?cur) (IssuerURL ?next)
      (snd (applyPatch p ?cur)) (ad_log s) = ad_log s @ [e]"
    "argString ''actor'' e = headerGet (rq_header r) ''X-Silo-User-Id''"
    "argString ''issuer_url_before'' e = IssuerURL ?cur" "argString ''issuer_url_after'' e = IssuerURL ?next"
    "map_of (en_args e) ''secret_changed'' = Some (ABool (snd (applyPatch p ?cur)))"
    by (rule ConfigMutation_Some)
  show ?thesis
    using saved e assms(1) applyPatch_secret_kept [of p ?cur]
    by (intro exI [of _ rs] conjI, simp) (auto simp: applyPatch_flag Let_def intro!: exI [of _ e])
qed

theorem update_audited_iff_persisted_witness:
  "length (ad_log (snd (handleUpdateConfig demo_web demo_deps (demo_http ''admin'' ''PATCH'' ''/api/v1/admin/config'') demo_admin))) = 1"
proof -
  let ?h = "handleUpdateConfig demo_web demo_deps (demo_http ''admin'' ''PATCH'' ''/api/v1/admin/config'') demo_admin"
  have a: "dp_AuditLog demo_deps = Some NewLogger" by (simp add: demo_deps_def)
  have h: "?h = (fst ?h, snd ?h)" by simp
  have c: "(case fst ?h of Replied rs \<Rightarrow> rs_code rs) = 200" by code_simp
  have l: "ad_log demo_admin = []" by (simp add: demo_admin_def)
  from update_audited_iff_persisted [OF a h] c show ?thesis
    by (auto simp: l Let_def simp del: demo_http_def)
qed

subsection \<open>The simulator\<close>








subsection \<open>Discovery\<close>

definition wellKnown :: "Config \<Rightarrow> string" where
  "wellKnown cfg = trimRightByte (IssuerURL cfg) (CHR ''/'') @ ''/.well-known/openid-configuration''"




text \<open>
  C40: when the discovery handler crashes. It answers 200 in every case but two: the well-known URL does not parse, or the
  issuer's server returns the JSON document \<^verbatim>\<open>null\<close>, which leaves the map nil that the handler then writes into.
\<close>

theorem discovery_panics_iff:
  "fst (handleDiscovery lib W cfg) = Panicked \<longleftrightarrow>
     IssuerURL cfg \<noteq> [] \<and>
     (url_parse lib (wellKnown cfg) = None \<or>
      (\<exists>code text. wl_fetch W (IssuerAllowsLoopback lib (IssuerURL cfg)) (wellKnown cfg) = Ok (code, Ok text) \<and>
         code < 400 \<and> wl_unmarshal W (take maxResponseBytes text) = Ok DNull))"
proof -
  have map_nil: "decode_map d None = Ok None \<longleftrightarrow> d = DNull" for d by (cases d) auto
  have m: "fst (handleDiscovery lib W cfg) = Panicked \<longleftrightarrow>
     IssuerURL cfg \<noteq> [] \<and>
     (url_parse lib (wellKnown cfg) = None \<or>
      (\<exists>code text d. wl_fetch W (IssuerAllowsLoopback lib (IssuerURL cfg)) (wellKnown cfg) = Ok (code, Ok text) \<and>
         \<not> 400 \<le> code \<and> wl_unmarshal W (take maxResponseBytes text) = Ok d \<and> decode_map d None = Ok None))"
    by (simp add: handleDiscovery_def wellKnown_def Let_def split: sum.split option.split prod.split)
  show ?thesis unfolding m map_nil by (simp add: not_le)
qed

subsection \<open>Rate limiting\<close>

lemma durationSeconds_whole:
  assumes "0 \<le> k" "k \<le> 2 ^ 53"
  shows "durationSeconds (k * second) = of_int k"
proof -
  obtain n where n: "k = int n" using assms(1) nonneg_int_cases by blast
  with assms(2) have "n \<le> 2 ^ 53" by (metis of_nat_le_iff of_nat_numeral of_nat_power)
  then have "rnd64 (of_nat n) = of_nat n" by (rule rnd64_of_nat)
  with assms(1) n show ?thesis by (simp add: durationSeconds_def secondsPos_def second_def)
qed

text \<open>
  A throttled diagnostic call. When the limiter refuses, the reply is 429 with a \<^verbatim>\<open>Retry-After\<close> of exactly the
  whole number of seconds the limiter announced, at least one, and the handler behind it does not run.
\<close>

lemma admin_throttled:
  assumes "ad_limiter s = Some l" and "Allow now (''admin:'' @ remoteIP r) l = ((False, w), l')" and "w \<le> maxDuration"
  shows "\<exists>rs. rateLimit now h r s = (Replied rs, s\<lparr>ad_limiter := Some l'\<rparr>) \<and> rs_code rs = 429 \<and>
    headerGet (rs_header rs) ''Retry-After'' = itoa (nat (w div second)) \<and> 1 \<le> w div second \<and> w = w div second * second"
proof -
  have w: "1 \<le> w div second" "w = w div second * second"
    using limiter.denied_whole_seconds [of now "''admin:'' @ remoteIP r" l w] assms(2) by auto
  have "w div second \<le> 2 ^ 53"
    using assms(3) by (simp add: duration_defs)
  with w(1) have "durationSeconds (w div second * second) = of_int (w div second)"
    by (intro durationSeconds_whole) simp_all
  then have "durationSeconds w = of_int (w div second)" using w(2) by simp
  then have "retrySeconds w = w div second" using w(1) by (simp add: retrySeconds_def Let_def)
  with assms w show ?thesis by (simp add: rateLimit_def writeJSON_def Let_def)
qed

end
