(* ===== verification/Http_Routes.thy ===== *)
theory Http_Routes
  imports Url_Query Admin
begin

text \<open>
  \<^verbatim>\<open>internal/server/server.go\<close> (the site: health, logout, icons, the admin page, the mounted admin API) and
  \<^verbatim>\<open>internal/httproutes/server.go\<close> (the adapter from the host's RPC to that site).

  Parameters: \<^verbatim>\<open>chi\<close>'s reply to a request no route matches (\<open>miss\<close>) and its \<^verbatim>\<open>Recoverer\<close> (\<open>recoverer\<close>),
  \<^verbatim>\<open>http.DetectContentType\<close> (\<open>detect\<close>), the text form of a protobuf value (\<open>render\<close>), and the reading of unusual
  request lines (\<open>other\<close>, see \<^const>\<open>newRequest\<close>).
\<close>

subsection \<open>File systems\<close>

text \<open>\<^verbatim>\<open>fs.ReadFile\<close> on an \<^verbatim>\<open>fs.FS\<close>, \<^const>\<open>None\<close> for an error. The contract of \<^verbatim>\<open>fs.FS\<close> has it refuse
  names that are not \<^verbatim>\<open>fs.ValidPath\<close>.\<close>

type_synonym fsys = "string \<Rightarrow> string option"

definition ValidPath :: "string \<Rightarrow> bool" where
  "ValidPath name \<longleftrightarrow> name = ''.'' \<or> list_all (\<lambda>e. e \<noteq> [] \<and> e \<noteq> ''.'' \<and> e \<noteq> ''..'') (split (CHR ''/'') name)"

definition fs_law :: "fsys \<Rightarrow> bool" where
  "fs_law fs \<longleftrightarrow> (\<forall>name. fs name \<noteq> None \<longrightarrow> ValidPath name)"

subsection \<open>Static files\<close>

text \<open>With no content type set the response writer detects one.\<close>

definition writeStatic :: "(string \<Rightarrow> string) \<Rightarrow> string \<Rightarrow> string \<Rightarrow> body http_response" where
  "writeStatic detect rel data =
     \<lparr>rs_code = 200,
      rs_header = contentType
        (if hasSuffix rel ''.html'' then ''text/html; charset=utf-8''
         else if hasSuffix rel ''.js'' then ''application/javascript''
         else if hasSuffix rel ''.css'' then ''text/css''
         else if hasSuffix rel ''.svg'' then ''image/svg+xml''
         else detect data),
      rs_body = BText data\<rparr>"

definition handleAssets :: "(string \<Rightarrow> string) \<Rightarrow> fsys option \<Rightarrow> fsys option \<Rightarrow> http_request \<Rightarrow> body http_response" where
  "handleAssets detect WebFS AssetsFS r =
     (let relative = trimPrefix (rq_path r) ''/assets/'' in
      if relative = [] \<or> strContains relative ''..'' then notFound BText
      else (case Option.bind WebFS (\<lambda>fs. fs (''assets/'' @ relative)) of
         Some data \<Rightarrow> writeStatic detect (''assets/'' @ relative) data
       | None \<Rightarrow>
           (case AssetsFS of
              None \<Rightarrow> notFound BText
            | Some fs \<Rightarrow>
                (case fs relative of
                   None \<Rightarrow> notFound BText
                 | Some data \<Rightarrow> writeStatic detect relative data))))"

definition adminAssetPrefix :: "string \<Rightarrow> string" where
  "adminAssetPrefix requestPath = (if requestPath = ''/admin'' \<or> requestPath = ''/'' then ''assets/'' else ''../assets/'')"

definition quote :: string where "quote = [char_of (34 :: nat)]"

definition rewriteAdminAssetPaths :: "string \<Rightarrow> string \<Rightarrow> string" where
  "rewriteAdminAssetPaths data requestPath =
     (let prefix = adminAssetPrefix requestPath;
          html = replaceAll data (''src='' @ quote @ ''./assets/'') (''src='' @ quote @ prefix)
      in replaceAll html (''href='' @ quote @ ''./assets/'') (''href='' @ quote @ prefix))"

definition htmlEn :: string where "htmlEn = ''<html lang='' @ quote @ ''en'' @ quote @ ''>''"

definition spaTheme :: "http_request \<Rightarrow> string" where
  "spaTheme r =
     (let theme = queryGet (rq_query r) ''theme'';
          theme = (if theme = [] then headerGet (rq_header r) ''X-Silo-Theme'' else theme);
          theme = (if theme = [] then headerGet (rq_header r) ''X-Silo-User-Theme'' else theme)
      in if theme = [] then ''dark'' else theme)"

definition themed :: "string \<Rightarrow> string \<Rightarrow> string" where
  "themed theme data =
     (if strContains data htmlEn
      then replaceFirst data htmlEn (''<html lang='' @ quote @ ''en'' @ quote @ '' data-theme='' @ quote @ theme @ quote @ ''>'')
      else replaceFirst data ''<html'' (''<html data-theme='' @ quote @ theme @ quote))"

definition spaFile :: "string \<Rightarrow> string option" where
  "spaFile path =
     (if hasPrefix path ''/admin/assets/'' then Some (''assets/'' @ trimPrefix path ''/admin/assets/'')
      else if path = ''/admin'' \<or> path = ''/admin/'' \<or> hasPrefix path ''/admin/'' then Some ''index.html''
      else None)"

definition handleSPA :: "(string \<Rightarrow> string) \<Rightarrow> fsys \<Rightarrow> http_request \<Rightarrow> body http_response" where
  "handleSPA detect WebFS r =
     (case spaFile (rq_path r) of
        None \<Rightarrow> notFound BText
      | Some rel \<Rightarrow>
          (case WebFS rel of
             None \<Rightarrow> notFound BText
           | Some data \<Rightarrow>
               writeStatic detect rel
                 (if hasSuffix rel ''.html'' then themed (spaTheme r) (rewriteAdminAssetPaths data (rq_path r)) else data)))"

subsection \<open>The site\<close>

definition handleHealth :: "body http_response" where
  "handleHealth = \<lparr>rs_code = 200, rs_header = contentType ''application/json'', rs_body = encodeBody (obj [(''ok'', JBool True)])\<rparr>"

definition handleLogout :: "body http_response" where
  "handleLogout = \<lparr>rs_code = 200, rs_header = contentType ''application/json'',
     rs_body = encodeBody (obj [(''ok'', JBool True), (''scope'', JString ''local''),
       (''message'', JString ''local logout only; RP-initiated logout is v2'')])\<rparr>"

record 's site_deps =
  AdminHandler :: "'s handler option"
  WebFS :: "fsys option"
  AssetsFS :: "fsys option"

datatype site_route = RHealth | RLogout | RAssets | RSpa fsys | RMounted | RMiss

text \<open>\<^verbatim>\<open>chi\<close> prefers a static route to the catch-all of the mounted handler, and falls back to it on a method that the
  static route does not have.\<close>

definition siteRoute :: "'s site_deps \<Rightarrow> http_request \<Rightarrow> site_route" where
  "siteRoute d r =
     (if rq_method r = ''GET'' \<and> rq_path r = ''/api/v1/health'' then RHealth
      else if rq_method r = ''POST'' \<and> rq_path r = ''/api/v1/logout'' then RLogout
      else if (AssetsFS d \<noteq> None \<or> WebFS d \<noteq> None) \<and> rq_method r = ''GET'' \<and> hasPrefix (rq_path r) ''/assets/'' then RAssets
      else if WebFS d \<noteq> None \<and> rq_method r = ''GET'' \<and> (rq_path r = ''/admin'' \<or> hasPrefix (rq_path r) ''/admin/'')
      then RSpa (the (WebFS d))
      else if AdminHandler d \<noteq> None \<and> hasPrefix (rq_path r) ''/'' then RMounted
      else RMiss)"

definition dispatch ::
  "(string \<Rightarrow> string) \<Rightarrow> (http_request \<Rightarrow> body http_response) \<Rightarrow> 's site_deps \<Rightarrow> 's handler" where
  "dispatch detect miss d r s =
     (case siteRoute d r of
        RHealth \<Rightarrow> (Replied handleHealth, s)
      | RLogout \<Rightarrow> (Replied handleLogout, s)
      | RAssets \<Rightarrow> (Replied (handleAssets detect (WebFS d) (AssetsFS d) r), s)
      | RSpa fs \<Rightarrow> (Replied (handleSPA detect fs r), s)
      | RMounted \<Rightarrow> the (AdminHandler d) r s
      | RMiss \<Rightarrow> (Replied (miss r), s))"

text \<open>The \<^verbatim>\<open>Recoverer\<close> middleware stands around all of it.\<close>

definition siteHandler ::
  "(string \<Rightarrow> string) \<Rightarrow> (http_request \<Rightarrow> body http_response) \<Rightarrow> (http_request \<Rightarrow> body http_response) \<Rightarrow> 's site_deps \<Rightarrow> 's handler" where
  "siteHandler detect miss recoverer d r s =
     (case dispatch detect miss d r s of
        (Panicked, s') \<Rightarrow> (Replied (recoverer r), s')
      | (Replied rs, s') \<Rightarrow> (Replied rs, s'))"

subsection \<open>The adapter\<close>

text \<open>Fields of the query are protobuf values; headers are listed in the order the map is iterated.\<close>

record HandleHTTPRequest =
  hq_Method :: string
  hq_Path :: string
  hq_Query :: "(string, json) fmap option"
  hq_Headers :: "(string \<times> string) list"
  hq_Body :: string

record HandleHTTPResponse =
  hp_StatusCode :: "32 word"
  hp_Headers :: header
  hp_Body :: body

definition notReady :: HandleHTTPResponse where
  "notReady = \<lparr>hp_StatusCode = 503, hp_Headers = fmupd ''Content-Type'' ''application/json'' fmempty,
     hp_Body = BText (concat [''{'', quote, ''error'', quote, '':{'', quote, ''code'', quote, '':'', quote, ''not_ready'', quote,
       '','', quote, ''message'', quote, '':'', quote, ''plugin not configured'', quote, ''}}''])\<rparr>"

definition stringValue :: "json \<Rightarrow> string" where
  "stringValue v = (case v of JString s \<Rightarrow> s | _ \<Rightarrow> [])"

definition queryValue :: "(json \<Rightarrow> string) \<Rightarrow> json \<Rightarrow> string" where
  "queryValue render v = (if stringValue v \<noteq> [] then stringValue v else render v)"

definition rawQuery :: "(json \<Rightarrow> string) \<Rightarrow> (string, json) fmap option \<Rightarrow> string" where
  "rawQuery render q = (case q of None \<Rightarrow> [] | Some fs \<Rightarrow> encodeValues (fmmap (queryValue render) fs))"

definition reqMethod :: "HandleHTTPRequest \<Rightarrow> string" where
  "reqMethod q = (if hq_Method q = [] then ''GET'' else hq_Method q)"

definition setHeaders :: "(string \<times> string) list \<Rightarrow> header \<Rightarrow> header" where
  "setHeaders kvs h = foldl (\<lambda>h (k, v). headerSet k v h) h kvs"

definition package :: "body http_response \<Rightarrow> HandleHTTPResponse" where
  "package rs = \<lparr>hp_StatusCode = of_nat (rs_code rs), hp_Headers = rs_header rs, hp_Body = rs_body rs\<rparr>"

datatype reply = Crash | Reply HandleHTTPResponse

definition buildRequest ::
  "(json \<Rightarrow> string) \<Rightarrow> (string \<Rightarrow> string \<Rightarrow> string \<Rightarrow> http_request option) \<Rightarrow> HandleHTTPRequest \<Rightarrow> http_request option" where
  "buildRequest render other q =
     map_option (\<lambda>r. r\<lparr>rq_header := setHeaders (hq_Headers q) (rq_header r)\<rparr>)
       (newRequest other (reqMethod q) (urlString (hq_Path q) (rawQuery render (hq_Query q))) (hq_Body q))"

text \<open>The handler slot is an atomic pointer; \<^const>\<open>None\<close> until it is set.\<close>

definition SetHandler :: "'h option \<Rightarrow> 'h option \<Rightarrow> 'h option" where
  "SetHandler h slot = h"

definition Handle ::
  "(json \<Rightarrow> string) \<Rightarrow> (string \<Rightarrow> string \<Rightarrow> string \<Rightarrow> http_request option) \<Rightarrow> 's handler option \<Rightarrow>
   HandleHTTPRequest \<Rightarrow> 's admin_state \<Rightarrow> reply \<times> 's admin_state" where
  "Handle render other slot q s =
     (case slot of
        None \<Rightarrow> (Reply notReady, s)
      | Some h \<Rightarrow>
          (case buildRequest render other q of
             None \<Rightarrow> (Crash, s)
           | Some r \<Rightarrow>
               (case h r s of
                  (Panicked, s') \<Rightarrow> (Crash, s')
                | (Replied rs, s') \<Rightarrow> (Reply (package rs), s'))))"

subsection \<open>The request arrives unchanged\<close>

lemma setHeaders_lookup:
  "fmlookup (setHeaders kvs h) k =
     (case find (\<lambda>kv. canonicalKey (fst kv) = k) (rev kvs) of Some kv \<Rightarrow> Some (snd kv) | None \<Rightarrow> fmlookup h k)"
proof (induction kvs rule: rev_induct)
  case (snoc kv kvs)
  then show ?case by (cases kv) (simp add: setHeaders_def headerSet_def)
qed (simp add: setHeaders_def)

lemma buildRequest_absolute:
  assumes "validMethod (reqMethod q)" "hq_Path q = CHR ''/'' # p"
  shows "buildRequest render other q = Some
    \<lparr>rq_method = reqMethod q, rq_path = hq_Path q,
     rq_query = (case hq_Query q of None \<Rightarrow> [] | Some f \<Rightarrow> sorted_list_of_fmap (fmmap (queryValue render) f)),
     rq_header = setHeaders (hq_Headers q) fmempty, rq_remote = ''192.0.2.1:1234'', rq_body = hq_Body q\<rparr>"
proof (cases "hq_Query q")
  case None
  have "encodeValues fmempty = []" by (simp add: encodeValues_def sorted_list_of_fmap_def sorted_list_of_fset.rep_eq)
  with None assms newRequest_urlString [OF assms(1), of other p fmempty "hq_Body q"] show ?thesis
    by (simp add: buildRequest_def rawQuery_def sorted_list_of_fmap_def sorted_list_of_fset.rep_eq)
next
  case (Some f)
  with assms newRequest_urlString [OF assms(1), of other p "fmmap (queryValue render) f" "hq_Body q"] show ?thesis
    by (simp add: buildRequest_def rawQuery_def)
qed

text \<open>
  C34: what the adapter hands on. A host request with a valid method and an absolute path reaches the handler with that method
  (GET if empty), path and body, and with the headers the host sent (the last one of those that agree up to capitalisation). A query
  parameter that is a non-empty string arrives unchanged under its key; one that is the empty string or not a string arrives as the
  protobuf text form of its value, and there are no others. The handler's status, headers and body are what the host gets back.
  Escaping to a request line and parsing it again loses nothing.
\<close>

theorem Handle_transparent:
  assumes "validMethod (reqMethod q)" "hq_Path q = CHR ''/'' # p"
  shows "\<exists>r. rq_method r = reqMethod q \<and> rq_path r = hq_Path q \<and> rq_body r = hq_Body q \<and>
    (\<forall>k. queryGet (rq_query r) k =
       (case Option.bind (hq_Query q) (\<lambda>f. fmlookup f k) of
          None \<Rightarrow> [] | Some (JString v) \<Rightarrow> if v \<noteq> [] then v else render (JString []) | Some v \<Rightarrow> render v)) \<and>
    (\<forall>k. headerGet (rq_header r) k =
       (case find (\<lambda>kv. canonicalKey (fst kv) = canonicalKey k) (rev (hq_Headers q)) of None \<Rightarrow> [] | Some kv \<Rightarrow> snd kv)) \<and>
    Handle render other (Some h) q s =
      (case h r s of (Panicked, s') \<Rightarrow> (Crash, s') | (Replied rs, s') \<Rightarrow> (Reply (package rs), s'))"
  by (intro exI [of _ "the (buildRequest render other q)"])
    (simp add: buildRequest_absolute [OF assms] Handle_def queryGet_def headerGet_def setHeaders_lookup queryValue_def stringValue_def
      split: option.split json.split)

definition demo_rpc :: "string \<Rightarrow> string \<Rightarrow> HandleHTTPRequest" where
  "demo_rpc path theme = \<lparr>hq_Method = [], hq_Path = path, hq_Query = Some (fmap_of_list [(''theme'', JString theme)]),
     hq_Headers = [(''x-silo-user-role'', ''user'')], hq_Body = []\<rparr>"

definition demo_echo :: "Config handler" where
  "demo_echo r s = (Replied (httpError BText (queryGet (rq_query r) ''theme'') 200), s)"

theorem Handle_transparent_witness:
  "fst (Handle (\<lambda>_. []) (\<lambda>_ _ _. None) (Some demo_echo) (demo_rpc ''/admin'' ''a&b=c d'') demo_admin) =
   Reply (package (httpError BText ''a&b=c d'' 200))"
proof -
  let ?q = "demo_rpc ''/admin'' ''a&b=c d''"
  have v: "validMethod (reqMethod ?q)" by code_simp
  have p: "hq_Path ?q = CHR ''/'' # ''admin''" by (simp add: demo_rpc_def)
  obtain r where r: "\<forall>k. queryGet (rq_query r) k = (case Option.bind (hq_Query ?q) (\<lambda>f. fmlookup f k) of
        None \<Rightarrow> [] | Some (JString v) \<Rightarrow> if v \<noteq> [] then v else [] | Some v \<Rightarrow> [])"
    and h: "Handle (\<lambda>_. []) (\<lambda>_ _ _. None) (Some demo_echo) ?q demo_admin =
      (case demo_echo r demo_admin of (Panicked, s') \<Rightarrow> (Crash, s') | (Replied rs, s') \<Rightarrow> (Reply (package rs), s'))"
    using Handle_transparent [OF v p, of "\<lambda>_. []" "\<lambda>_ _ _. None" demo_echo demo_admin] by blast
  have "queryGet (rq_query r) ''theme'' = ''a&b=c d''"
    unfolding r [rule_format] by (simp add: demo_rpc_def fmlookup_of_list)
  with h show ?thesis by (simp add: demo_echo_def)
qed

subsection \<open>Static files stay inside their directories\<close>

lemma themed_hit:
  assumes "strContains data htmlEn"
  shows "\<exists>a b. data = a @ htmlEn @ b \<and>
    themed theme data = a @ ''<html lang='' @ quote @ ''en'' @ quote @ '' data-theme='' @ quote @ theme @ quote @ ''>'' @ b"
proof -
  have "htmlEn \<noteq> []" by (simp add: htmlEn_def)
  from replaceFirst_hit [OF assms this,
      of "''<html lang='' @ quote @ ''en'' @ quote @ '' data-theme='' @ quote @ theme @ quote @ ''>''"]
  show ?thesis using assms unfolding themed_def by (metis append.assoc)
qed

text \<open>What a reply of the static routes may be made of.\<close>

definition static_reply :: "'s site_deps \<Rightarrow> http_request \<Rightarrow> body http_response \<Rightarrow> string \<Rightarrow> string \<Rightarrow> bool" where
  "static_reply d r rs name data \<longleftrightarrow>
     rs_code rs = 200 \<and> ValidPath name \<and>
     (Option.bind (WebFS d) (\<lambda>fs. fs name) = Some data \<and> (name = ''index.html'' \<or> hasPrefix name ''assets/'') \<or>
      Option.bind (AssetsFS d) (\<lambda>fs. fs name) = Some data) \<and>
     (rs_body rs = BText data \<or>
      hasSuffix name ''.html'' \<and> rs_body rs = BText (themed (spaTheme r) (rewriteAdminAssetPaths data (rq_path r))))"

lemma writeStatic_simps [simp]: "rs_code (writeStatic detect rel data) = 200" "rs_body (writeStatic detect rel data) = BText data"
  by (simp_all add: writeStatic_def)

lemma handleAssets_confined:
  assumes "pred_option fs_law (WebFS d)" "pred_option fs_law (AssetsFS d)"
  shows "handleAssets detect (WebFS d) (AssetsFS d) r = notFound BText \<or>
    (\<exists>name data. static_reply d r (handleAssets detect (WebFS d) (AssetsFS d) r) name data)"
proof -
  let ?rel = "trimPrefix (rq_path r) ''/assets/''"
  consider "handleAssets detect (WebFS d) (AssetsFS d) r = notFound BText"
    | fs data where "WebFS d = Some fs" "fs (''assets/'' @ ?rel) = Some data"
        "handleAssets detect (WebFS d) (AssetsFS d) r = writeStatic detect (''assets/'' @ ?rel) data"
    | fs data where "AssetsFS d = Some fs" "fs ?rel = Some data"
        "handleAssets detect (WebFS d) (AssetsFS d) r = writeStatic detect ?rel data"
    unfolding handleAssets_def by (cases "WebFS d"; cases "AssetsFS d") (fastforce simp: Let_def split: option.splits if_splits)+
  then show ?thesis
  proof cases
    case (2 fs data)
    have "ValidPath (''assets/'' @ ?rel)" using 2(1,2) assms(1) unfolding fs_law_def by simp
    moreover have "hasPrefix (''assets/'' @ ?rel) ''assets/''" by (rule hasPrefix_append)
    ultimately show ?thesis using 2 unfolding static_reply_def by (intro disjI2 exI [of _ "''assets/'' @ ?rel"] exI [of _ data]) simp
  next
    case (3 fs data)
    with assms(2) show ?thesis unfolding static_reply_def fs_law_def
      by (intro disjI2 exI [of _ ?rel] exI [of _ data]) simp
  qed simp
qed

lemma handleSPA_confined:
  assumes "fs_law fs" "WebFS d = Some fs"
  shows "handleSPA detect fs r = notFound BText \<or> (\<exists>name data. static_reply d r (handleSPA detect fs r) name data)"
proof (cases "spaFile (rq_path r)")
  case None
  then show ?thesis by (simp add: handleSPA_def)
next
  case (Some name)
  then have name: "name = ''index.html'' \<or> hasPrefix name ''assets/''"
    by (auto simp: spaFile_def hasPrefix_def split: if_splits)
  show ?thesis
  proof (cases "fs name")
    case None
    with Some show ?thesis by (simp add: handleSPA_def)
  next
    case (Some data)
    with name \<open>spaFile (rq_path r) = Some name\<close> assms show ?thesis unfolding static_reply_def fs_law_def handleSPA_def
      by (intro disjI2 exI [of _ name] exI [of _ data]) auto
  qed
qed

text \<open>
  C35: the static routes read nothing outside their directories. For a request routed to the icons or to the admin page the
  reply is 404, or 200 with the contents of one file whose name is a valid path without dot segments: an icon, the
  page \<^verbatim>\<open>index.html\<close>, or a file under \<^verbatim>\<open>assets/\<close> of the page's directory. Only HTML is rewritten. Nothing changes.
\<close>

theorem static_confined:
  assumes "pred_option fs_law (WebFS d)" "pred_option fs_law (AssetsFS d)"
    and "siteRoute d r = RAssets \<or> siteRoute d r = RSpa fs"
  shows "\<exists>rs. siteHandler detect miss recoverer d r s = (Replied rs, s) \<and>
    (rs = notFound BText \<or> (\<exists>name data. static_reply d r rs name data))"
proof (cases "siteRoute d r = RAssets")
  case True
  with handleAssets_confined [OF assms(1,2), of detect r] show ?thesis by (simp add: siteHandler_def dispatch_def)
next
  case False
  with assms(3) have route: "siteRoute d r = RSpa fs" by simp
  then have "WebFS d = Some fs" by (auto simp: siteRoute_def split: if_splits)
  moreover from this assms(1) have "fs_law fs" by simp
  ultimately show ?thesis using handleSPA_confined [of fs d detect r] route by (simp add: siteHandler_def dispatch_def)
qed

definition demo_files :: fsys where
  "demo_files name = (if name = ''index.html'' then Some (htmlEn @ ''</html>'') else None)"

definition demo_site :: "Config site_deps" where
  "demo_site = \<lparr>AdminHandler = Some (adminHandler demo_lib demo_web demo_idp (\<lambda>_. notFound BText) demo_deps 0),
     WebFS = Some demo_files, AssetsFS = None\<rparr>"

lemma demo_files_law: "fs_law demo_files"
proof -
  have "ValidPath ''index.html''" by code_simp
  then show ?thesis by (auto simp: fs_law_def demo_files_def)
qed

theorem static_confined_witness:
  "\<exists>rs. siteHandler (\<lambda>_. []) (\<lambda>_. notFound BText) (\<lambda>_. httpError BText [] 500) demo_site (demo_http ''user'' ''GET'' ''/admin'') demo_admin =
     (Replied rs, demo_admin) \<and>
   (rs = notFound BText \<or> (\<exists>name data. static_reply demo_site (demo_http ''user'' ''GET'' ''/admin'') rs name data))"
proof (rule static_confined)
  show "pred_option fs_law (WebFS demo_site)" "pred_option fs_law (AssetsFS demo_site)"
    using demo_files_law by (simp_all add: demo_site_def)
  show "siteRoute demo_site (demo_http ''user'' ''GET'' ''/admin'') = RAssets \<or>
      siteRoute demo_site (demo_http ''user'' ''GET'' ''/admin'') = RSpa demo_files"
    by (simp add: siteRoute_def demo_http_def demo_site_def hasPrefix_def)
qed

subsection \<open>The theme parameter\<close>

text \<open>
  C39: the theme is copied into the page as it is. For a host request for \<^verbatim>\<open>/admin\<close> with a non-empty \<^verbatim>\<open>theme\<close>
  parameter the reply is the page with that text, unescaped, inside the \<^verbatim>\<open>data-theme\<close> attribute of its \<^verbatim>\<open>html\<close> tag: a
  quotation mark in the parameter ends the attribute, and what follows is markup.
\<close>

theorem theme_reflected_verbatim:
  assumes "hq_Method q = ''GET''" "hq_Path q = ''/admin''"
    and "Option.bind (hq_Query q) (\<lambda>f. fmlookup f ''theme'') = Some (JString theme)" "theme \<noteq> []"
    and "WebFS d = Some fs" "fs ''index.html'' = Some data" "strContains (rewriteAdminAssetPaths data ''/admin'') htmlEn"
  shows "\<exists>a b. rewriteAdminAssetPaths data ''/admin'' = a @ htmlEn @ b \<and>
    Handle render other (Some (siteHandler detect miss recoverer d)) q s =
      (Reply \<lparr>hp_StatusCode = 200, hp_Headers = contentType ''text/html; charset=utf-8'',
         hp_Body = BText (a @ ''<html lang='' @ quote @ ''en'' @ quote @ '' data-theme='' @ quote @ theme @ quote @ ''>'' @ b)\<rparr>, s)"
proof -
  obtain a b where ab: "rewriteAdminAssetPaths data ''/admin'' = a @ htmlEn @ b"
    "themed theme (rewriteAdminAssetPaths data ''/admin'') =
      a @ ''<html lang='' @ quote @ ''en'' @ quote @ '' data-theme='' @ quote @ theme @ quote @ ''>'' @ b"
    using themed_hit [OF assms(7)] by blast
  have get: "reqMethod q = ''GET''" "hq_Path q = CHR ''/'' # ''admin''" using assms(1,2) by (simp_all add: reqMethod_def)
  have "validMethod (reqMethod q)" unfolding get by code_simp
  from buildRequest_absolute [OF this get(2), of render other] obtain r where
    r: "buildRequest render other q = Some r" "rq_method r = ''GET''" "rq_path r = ''/admin''"
      "rq_query r = (case hq_Query q of None \<Rightarrow> [] | Some f \<Rightarrow> sorted_list_of_fmap (fmmap (queryValue render) f))"
    using get by simp
  have "queryGet (rq_query r) ''theme'' = theme"
    using assms(3,4) by (auto simp: r(4) queryGet_def queryValue_def stringValue_def bind_eq_Some_conv)
  then have theme: "spaTheme r = theme" using assms(4) by (simp add: spaTheme_def)
  have route: "siteRoute d r = RSpa fs"
    using assms(5) by (simp add: siteRoute_def r(2,3) hasPrefix_def)
  have spa: "spaFile (rq_path r) = Some ''index.html''" by (simp add: r(3) spaFile_def hasPrefix_def)
  have html: "hasSuffix ''index.html'' ''.html''" by code_simp
  have "handleSPA detect fs r = writeStatic detect ''index.html'' (themed theme (rewriteAdminAssetPaths data ''/admin''))"
    using spa html theme assms(6) by (simp add: handleSPA_def r(3))
  then have "Handle render other (Some (siteHandler detect miss recoverer d)) q s =
      (Reply (package (writeStatic detect ''index.html'' (themed theme (rewriteAdminAssetPaths data ''/admin'')))), s)"
    using r(1) route by (simp add: Handle_def siteHandler_def dispatch_def)
  with ab html show ?thesis by (intro exI [of _ a] exI [of _ b]) (simp add: package_def writeStatic_def)
qed

theorem theme_reflected_verbatim_witness:
  "\<exists>a b. Handle (\<lambda>_. []) (\<lambda>_ _ _. None) (Some (siteHandler (\<lambda>_. []) (\<lambda>_. notFound BText) (\<lambda>_. httpError BText [] 500) demo_site))
     ((demo_rpc ''/admin'' (quote @ ''><script>''))\<lparr>hq_Method := ''GET''\<rparr>) demo_admin =
   (Reply \<lparr>hp_StatusCode = 200, hp_Headers = contentType ''text/html; charset=utf-8'',
      hp_Body = BText (a @ ''<html lang='' @ quote @ ''en'' @ quote @ '' data-theme='' @ quote @ (quote @ ''><script>'') @ quote @ ''>'' @ b)\<rparr>,
    demo_admin)"
proof -
  let ?q = "(demo_rpc ''/admin'' (quote @ ''><script>''))\<lparr>hq_Method := ''GET''\<rparr>"
  have q: "hq_Method ?q = ''GET''" "hq_Path ?q = ''/admin''"
    "Option.bind (hq_Query ?q) (\<lambda>f. fmlookup f ''theme'') = Some (JString (quote @ ''><script>''))" "quote @ ''><script>'' \<noteq> []"
    by (simp_all add: demo_rpc_def fmlookup_of_list)
  have d: "WebFS demo_site = Some demo_files" "demo_files ''index.html'' = Some (htmlEn @ ''</html>'')"
    by (simp_all add: demo_site_def demo_files_def)
  have "strContains (rewriteAdminAssetPaths (htmlEn @ ''</html>'') ''/admin'') htmlEn" by code_simp
  from theme_reflected_verbatim [OF q d this, of "\<lambda>_. []" "\<lambda>_ _ _. None" "\<lambda>_. []" "\<lambda>_. notFound BText" "\<lambda>_. httpError BText [] 500" demo_admin]
  show ?thesis by blast
qed

subsection \<open>Callers who are not admins\<close>

text \<open>The header entries that set the caller's role all say something else than admin.\<close>

definition guest_headers :: "(string \<times> string) list \<Rightarrow> bool" where
  "guest_headers kvs \<longleftrightarrow> list_all (\<lambda>kv. canonicalKey (fst kv) = canonicalKey ''X-Silo-User-Role'' \<longrightarrow> snd kv \<noteq> ''admin'') kvs"

lemma find_SomeD: "find P xs = Some x \<Longrightarrow> P x \<and> x \<in> set xs"
  by (induction xs) (auto split: if_splits)

lemma guest_headers_role:
  assumes "guest_headers kvs"
  shows "headerGet (setHeaders kvs fmempty) ''X-Silo-User-Role'' \<noteq> ''admin''"
proof (cases "find (\<lambda>kv. canonicalKey (fst kv) = canonicalKey ''X-Silo-User-Role'') (rev kvs)")
  case None
  then show ?thesis by (simp add: headerGet_def setHeaders_lookup)
next
  case (Some kv)
  then have "kv \<in> set kvs" "canonicalKey (fst kv) = canonicalKey ''X-Silo-User-Role''"
    using find_SomeD [of _ "rev kvs"] by fastforce+
  with assms have "snd kv \<noteq> ''admin''" by (auto simp: guest_headers_def list_all_iff)
  with Some show ?thesis by (simp add: headerGet_def setHeaders_lookup)
qed

text \<open>
  C6: from the host's RPC down to the handlers, a caller without the admin role learns and changes nothing. Whatever valid
  method, absolute path, query and body such a request has, however its role header is capitalised, the reply is the same in every state of
  the plugin and the state is left as it was.
\<close>

theorem guest_request_inert:
  assumes "validMethod (reqMethod q)" "hq_Path q = CHR ''/'' # p" "guest_headers (hq_Headers q)"
    and "AdminHandler d = Some (adminHandler lib W I miss deps now)"
  shows "\<exists>rep. \<forall>s. Handle render other (Some (siteHandler detect miss recoverer d)) q s = (Reply rep, s)"
proof -
  obtain r where r: "buildRequest render other q = Some r" "rq_header r = setHeaders (hq_Headers q) fmempty"
    using buildRequest_absolute [OF assms(1,2)] by simp
  have "headerGet (rq_header r) ''X-Silo-User-Role'' \<noteq> ''admin''"
    unfolding r(2) by (rule guest_headers_role [OF assms(3)])
  from admin_gate_inert [OF this] obtain out where out: "\<And>s. adminHandler lib W I miss deps now r s = (Replied out, s)"
    by blast
  obtain rs where "\<And>s. siteHandler detect miss recoverer d r s = (Replied rs, s)"
  proof (cases "siteRoute d r")
    case RMounted
    with that [of out] out assms(4) show ?thesis by (simp add: siteHandler_def dispatch_def)
  qed (use that in \<open>simp_all add: siteHandler_def dispatch_def\<close>)
  with r(1) show ?thesis by (simp add: Handle_def)
qed

theorem guest_request_inert_witness:
  "\<exists>rep. Handle (\<lambda>_. []) (\<lambda>_ _ _. None) (Some (siteHandler (\<lambda>_. []) (\<lambda>_. notFound BText) (\<lambda>_. httpError BText [] 500) demo_site))
     (demo_rpc ''/api/v1/admin/discovery'' ''x'') demo_admin = (Reply rep, demo_admin)"
proof -
  let ?q = "demo_rpc ''/api/v1/admin/discovery'' ''x''"
  have "validMethod (reqMethod ?q)" "guest_headers (hq_Headers ?q)" by code_simp+
  moreover have "hq_Path ?q = CHR ''/'' # ''api/v1/admin/discovery''" by (simp add: demo_rpc_def)
  moreover have "AdminHandler demo_site = Some (adminHandler demo_lib demo_web demo_idp (\<lambda>_. notFound BText) demo_deps 0)"
    by (simp add: demo_site_def)
  ultimately show ?thesis
    using guest_request_inert [of ?q "''api/v1/admin/discovery''" demo_site demo_lib demo_web demo_idp "\<lambda>_. notFound BText" demo_deps 0
      "\<lambda>_. []" "\<lambda>_ _ _. None" "\<lambda>_. []" "\<lambda>_. httpError BText [] 500"] by blast
qed

text \<open>The network address the admin limiter sees without a forwarding header is the same for every request.\<close>

lemma adapter_remote_constant:
  assumes "validMethod (reqMethod q)" "hq_Path q = CHR ''/'' # p" "hq_Headers q = []"
  shows "\<exists>r. buildRequest render other q = Some r \<and> remoteIP r = ''192.0.2.1''"
proof -
  have "SplitHostPort ''192.0.2.1:1234'' = Ok (''192.0.2.1'', ''1234'')" by code_simp
  then show ?thesis
    using assms by (simp add: buildRequest_absolute remoteIP_def headerGet_def setHeaders_def)
qed

subsection \<open>What the HTTP side does to the application\<close>

text \<open>
  The contract between the HTTP servers and the application behind \<^verbatim>\<open>Deps\<close>: if the update function only moves the
  application along a relation \<open>rel\<close>, then so does every request, since no other handler writes to the application.
\<close>

locale config_backend =
  fixes deps :: "'s Deps" and rel :: "'s \<Rightarrow> 's \<Rightarrow> bool"
  assumes stays: "rel a a"
    and updates: "UpdateConfigFn deps = Some upd \<Longrightarrow> rel a (snd (upd next a))"
begin

lemma handleUpdateConfig_rel: "rel (ad_app s) (ad_app (snd (handleUpdateConfig W deps r s)))"
proof (cases "UpdateConfigFn deps")
  case None
  then show ?thesis by (simp add: handleUpdateConfig_def stays)
next
  case (Some upd)
  have "rel (ad_app s) app" if "upd next (ad_app s) = (err, app)" for "next" err app
    using updates [OF Some, of "ad_app s" "next"] that by simp
  with Some show ?thesis
    by (auto simp: handleUpdateConfig_def Let_def stays split: option.split sum.split prod.split)
qed

lemma adminHandler_rel: "rel (ad_app s) (ad_app (snd (adminHandler lib W I miss deps now r s)))"
proof -
  have limit: "rel (ad_app s) (ad_app (snd (rateLimit now h r s)))"
    if "\<And>s. ad_app (snd (h r s)) = ad_app s" for h :: "'s handler"
    using that by (simp add: rateLimit_def Let_def stays split: option.split prod.split bool.split)
  have gate: "rel (ad_app s) (ad_app (snd (requireAdmin h r s)))"
    if "rel (ad_app s) (ad_app (snd (h r s)))" for h :: "'s handler"
    using that by (simp add: requireAdmin_def stays)
  show ?thesis
  proof (cases "adminRoute r")
    case None
    then show ?thesis by (simp add: adminHandler_def stays)
  next
    case (Some route)
    have "rel (ad_app s) (ad_app (snd (serveRoute lib W I deps now route r s)))"
      by (cases route)
        (auto simp: serveRoute_def handleWhoami_def stays handleConfigSummary_def handleDecodeIDToken_def
          handleSimulateClaims_def Let_def intro!: gate limit handleUpdateConfig_rel)
    with Some show ?thesis by (simp add: adminHandler_def)
  qed
qed

lemma siteHandler_rel:
  assumes "AdminHandler d = Some (adminHandler lib W I miss' deps now)"
  shows "rel (ad_app s) (ad_app (snd (siteHandler detect miss recoverer d r s)))"
proof -
  have "rel (ad_app s) (ad_app (snd (dispatch detect miss d r s)))"
    using assms adminHandler_rel by (simp add: dispatch_def stays split: site_route.split)
  then show ?thesis by (auto simp: siteHandler_def split: prod.split outcome.split)
qed

lemma Handle_rel:
  assumes "AdminHandler d = Some (adminHandler lib W I miss' deps now)"
    and "slot = None \<or> slot = Some (siteHandler detect miss recoverer d)"
  shows "rel (ad_app s) (ad_app (snd (Handle render other slot q s)))"
proof (cases "slot = None \<or> buildRequest render other q = None")
  case True
  then show ?thesis by (auto simp: Handle_def stays split: option.split)
next
  case False
  then obtain r where r: "slot = Some (siteHandler detect miss recoverer d)" "buildRequest render other q = Some r"
    using assms(2) by auto
  show ?thesis
    using siteHandler_rel [OF assms(1), of s detect miss recoverer r] r
    by (auto simp: Handle_def split: prod.split outcome.split)
qed

end

end
