(* ===== verification/Plugin.thy ===== *)
theory Plugin
  imports Http_Routes
begin

text \<open>
  \<^verbatim>\<open>cmd/silo-plugin-oidc-login/main.go\<close> and the RPC half of \<^verbatim>\<open>internal/runtime/runtime.go\<close>: the process that
  owns the live pointers, and how \<^verbatim>\<open>Configure\<close>, the admin update and the logins read and write them.

  The state \<open>plugin\<close> has one field per variable of \<^verbatim>\<open>main\<close>. A connection pool is a value with an identity; the
  databases behind the URLs are part of the state, and a statement on a closed pool fails. What \<^verbatim>\<open>Configure\<close> and
  \<^verbatim>\<open>applyConfig\<close> store into the pointers is a list of \<open>ptr_write\<close>s, so that the sequential operations perform the list at
  once and the concurrent ones interleave at its elements.

  Parameters (\<open>env\<close>): \<^verbatim>\<open>pgxpool.ParseConfig\<close>, the pool constructor, PostgreSQL, \<^verbatim>\<open>url\<close>/\<^verbatim>\<open>regexp\<close>,
  and the text of a store error. OIDC discovery is a parameter of every single call.
\<close>

subsection \<open>State\<close>

record pool =
  pl_id :: nat
  pl_url :: string
  pl_MaxConns :: int

record plugin =
  cfgPtr :: "Config option"
  provPtr :: "Provider option"
  poolPtr :: "pool option"
  storePtr :: "pool option"
  lastProviderErr :: "string option"
  httpReady :: bool
  snapshot :: Config
  exchangeLimiter :: Limiter
  adminLimiter :: Limiter
  auditRecords :: log
  openPools :: "nat list"
  nextPool :: nat
  databases :: "string \<Rightarrow> db"

text \<open>\<^verbatim>\<open>5.0/60.0\<close> is a constant expression, rounded once.\<close>

definition boot :: "(string \<Rightarrow> db) \<Rightarrow> plugin" where
  "boot dbs = \<lparr>cfgPtr = None, provPtr = None, poolPtr = None, storePtr = None, lastProviderErr = None, httpReady = False,
     snapshot = zeroConfig, exchangeLimiter = newLimiter (rnd64 (5 / 60)) 10, adminLimiter = newLimiter 1 20,
     auditRecords = [], openPools = [], nextPool = 0, databases = dbs\<rparr>"

record env =
  ev_lib :: golib
  ev_pg :: pg
  ev_parseURL :: "string \<Rightarrow> (string, int) result"
  ev_connect :: "string \<Rightarrow> string check"
  ev_storeMsg :: "store_error \<Rightarrow> string"

type_synonym discovery = "bool \<Rightarrow> string \<Rightarrow> (string, discovered) result"

subsection \<open>Pointer writes\<close>

datatype ptr_write =
    SetErr "string option"
  | SetCfg Config
  | SetProv "Provider option"
  | SetStore pool
  | SetHttp
  | SwapPool pool
  | SetSnapshot Config

definition closePool :: "pool \<Rightarrow> plugin \<Rightarrow> plugin" where
  "closePool p st = st\<lparr>openPools := removeAll (pl_id p) (openPools st)\<rparr>"

fun perform :: "ptr_write \<Rightarrow> plugin \<Rightarrow> plugin" where
  "perform (SetErr e) st = st\<lparr>lastProviderErr := e\<rparr>"
| "perform (SetCfg c) st = st\<lparr>cfgPtr := Some c\<rparr>"
| "perform (SetProv p) st = st\<lparr>provPtr := p\<rparr>"
| "perform (SetStore p) st = st\<lparr>storePtr := Some p\<rparr>"
| "perform SetHttp st = st\<lparr>httpReady := True\<rparr>"
| "perform (SwapPool p) st =
     (case poolPtr st of
        None \<Rightarrow> st\<lparr>poolPtr := Some p\<rparr>
      | Some old \<Rightarrow> closePool old (st\<lparr>poolPtr := Some p\<rparr>))"
| "perform (SetSnapshot c) st = st\<lparr>snapshot := c\<rparr>"

subsection \<open>\<^verbatim>\<open>applyConfig\<close>\<close>

definition newArgs :: "golib \<Rightarrow> Config \<Rightarrow> NewArgs" where
  "newArgs lib cfg = \<lparr>na_IssuerURL = IssuerURL cfg, na_ClientID = ClientID cfg, na_ClientSecret = ClientSecret cfg,
     na_Scopes = Scopes cfg, na_RedirectURL = [], na_AllowLoopback = IssuerAllowsLoopback lib (IssuerURL cfg)\<rparr>"

text \<open>The provider and the error to publish.\<close>

definition buildProvider :: "golib \<Rightarrow> discovery \<Rightarrow> Config \<Rightarrow> Provider option \<times> string option" where
  "buildProvider lib discover cfg =
     (if ProviderConfigured cfg then
        (case NewProvider discover (newArgs lib cfg) of
           Err msg \<Rightarrow> (None, Some msg)
         | Ok prov \<Rightarrow> (Some prov, None))
      else (None, None))"

definition applyWrites :: "golib \<Rightarrow> discovery \<Rightarrow> Config \<Rightarrow> ptr_write list" where
  "applyWrites lib discover cfg =
     (let (prov, err) = buildProvider lib discover cfg in [SetErr err, SetCfg cfg, SetProv prov])"

definition applyConfig :: "golib \<Rightarrow> discovery \<Rightarrow> Config \<Rightarrow> plugin \<Rightarrow> plugin" where
  "applyConfig lib discover cfg st = fold perform (applyWrites lib discover cfg) st"

subsection \<open>Statements on a pool\<close>

definition closedFaults :: "string option list" where
  "closedFaults = replicate 2 (Some ''closed pool'')"

text \<open>No operation of the store goes on after two failed statements.\<close>

definition onPool :: "(db \<Rightarrow> 'r \<times> db) \<Rightarrow> pool \<Rightarrow> plugin \<Rightarrow> 'r \<times> plugin" where
  "onPool f p st =
     (let d = databases st (pl_url p) in
      if pl_id p \<in> set (openPools st)
      then (case f d of (r, d') \<Rightarrow> (r, st\<lparr>databases := (databases st)(pl_url p := d')\<rparr>))
      else (fst (f (d\<lparr>faults := closedFaults\<rparr>)), st))"

subsection \<open>\<^verbatim>\<open>Configure\<close>\<close>

datatype configure_error =
    LoadFailed config_error
  | DatabaseURLRequired
  | ParseDatabaseURL string
  | ConnectDatabase string
  | MigrateError store_error
  | ImportAppConfig store_error

text \<open>The part of the callback that talks to the database: up to the effective configuration.\<close>

definition prepare :: "env \<Rightarrow> Config \<Rightarrow> plugin \<Rightarrow> (configure_error, pool \<times> Config) result \<times> plugin" where
  "prepare E cfg st =
     (if DatabaseURL cfg = [] then (Err DatabaseURLRequired, st)
      else (case ev_parseURL E (DatabaseURL cfg) of
         Err e \<Rightarrow> (Err (ParseDatabaseURL e), st)
       | Ok maxConns \<Rightarrow>
           (case ev_connect E (DatabaseURL cfg) of
              Some e \<Rightarrow> (Err (ConnectDatabase e), st)
            | None \<Rightarrow>
                let p = \<lparr>pl_id = nextPool st, pl_url = DatabaseURL cfg,
                         pl_MaxConns = (if maxConns < 8 then 8 else maxConns)\<rparr>;
                    st1 = st\<lparr>nextPool := nextPool st + 1, openPools := nextPool st # openPools st\<rparr>
                in (case onPool Migrate p st1 of
                      (Some e, st2) \<Rightarrow> (Err (MigrateError e), closePool p st2)
                    | (None, st2) \<Rightarrow>
                        (case onPool (ImportLegacyConfig (ev_lib E) (ev_pg E) cfg) p st2 of
                           (Err e, st3) \<Rightarrow> (Err (ImportAppConfig e), closePool p st3)
                         | (Ok effective, st3) \<Rightarrow> (Ok (p, effective), st3))))))"

definition configWrites :: "golib \<Rightarrow> discovery \<Rightarrow> pool \<Rightarrow> Config \<Rightarrow> ptr_write list" where
  "configWrites lib discover p effective = applyWrites lib discover effective @ [SetStore p, SetHttp, SwapPool p]"

definition onConfig :: "env \<Rightarrow> discovery \<Rightarrow> Config \<Rightarrow> plugin \<Rightarrow> configure_error check \<times> plugin" where
  "onConfig E discover cfg st =
     (case prepare E cfg st of
        (Err e, st1) \<Rightarrow> (Some e, st1)
      | (Ok (p, effective), st1) \<Rightarrow> (None, fold perform (configWrites (ev_lib E) discover p effective) st1))"

definition Configure :: "env \<Rightarrow> discovery \<Rightarrow> ConfigEntry list \<Rightarrow> plugin \<Rightarrow> configure_error check \<times> plugin" where
  "Configure E discover entries st =
     (case LoadConfig (ev_lib E) entries of
        Err e \<Rightarrow> (Some (LoadFailed e), st)
      | Ok cfg \<Rightarrow>
          (case onConfig E discover cfg st of
             (Some e, st1) \<Rightarrow> (Some e, st1)
           | (None, st1) \<Rightarrow> (None, perform (SetSnapshot cfg) st1)))"

definition Snapshot :: "plugin \<Rightarrow> Config" where
  "Snapshot st = snapshot st"

subsection \<open>Closures over the pointers\<close>

definition liveConfig :: "plugin \<Rightarrow> Config" where
  "liveConfig st = (case cfgPtr st of Some c \<Rightarrow> c | None \<Rightarrow> zeroConfig)"

definition providerErrText :: "plugin \<Rightarrow> string" where
  "providerErrText st = (case lastProviderErr st of Some e \<Rightarrow> e | None \<Rightarrow> [])"

text \<open>The replay guard of \<^verbatim>\<open>ExchangeCode\<close>, on the database of the live store; without a store it accepts.\<close>

definition consumeNonce :: "pg \<Rightarrow> plugin \<Rightarrow> ConsumeNonceFn" where
  "consumeNonce P st now nonce expiresAt d =
     (case storePtr st of
        None \<Rightarrow> (None, d)
      | Some p \<Rightarrow>
          if pl_id p \<in> set (openPools st) then ConsumeNonce P now nonce expiresAt d
          else (fst (ConsumeNonce P now nonce expiresAt (d\<lparr>faults := closedFaults\<rparr>)), d))"

definition updateConfigFn :: "env \<Rightarrow> discovery \<Rightarrow> Config \<Rightarrow> plugin \<Rightarrow> string check \<times> plugin" where
  "updateConfigFn E discover next st =
     (case storePtr st of
        None \<Rightarrow> (Some ''store not configured'', st)
      | Some p \<Rightarrow>
          (case onPool (UpdateConfig (ev_lib E) (ev_pg E) next) p st of
             (Some e, st1) \<Rightarrow> (Some (ev_storeMsg E e), st1)
           | (None, st1) \<Rightarrow> (None, applyConfig (ev_lib E) discover next st1)))"

definition adminDeps :: "env \<Rightarrow> discovery \<Rightarrow> plugin Deps" where
  "adminDeps E discover = NewAdminServer \<lparr>ConfigFn = liveConfig, ProviderFn = provPtr, ProviderErrFn = Some providerErrText,
     UpdateConfigFn = Some (updateConfigFn E discover), dp_AuditLog = Some NewLogger\<rparr>"

definition authServer :: "pg \<Rightarrow> plugin \<Rightarrow> Server" where
  "authServer P st = NewServer (liveConfig st) (provPtr st) (Some NewLogger) (Some (consumeNonce P st))"

subsection \<open>The served RPCs\<close>

definition storeURL :: "plugin \<Rightarrow> string" where
  "storeURL st = (case storePtr st of Some p \<Rightarrow> pl_url p | None \<Rightarrow> [])"

definition authView :: "plugin \<Rightarrow> auth_state" where
  "authView st = \<lparr>as_limiter = Some (exchangeLimiter st), as_log = auditRecords st, as_db = databases st (storeURL st)\<rparr>"

definition authBack :: "plugin \<Rightarrow> auth_state \<Rightarrow> plugin" where
  "authBack st s = st\<lparr>exchangeLimiter := the (as_limiter s), auditRecords := as_log s,
     databases := (databases st)(storeURL st := as_db s)\<rparr>"

definition exchangeRPC ::
  "env \<Rightarrow> authlib \<Rightarrow> idp \<Rightarrow> clocks \<Rightarrow> string option \<Rightarrow> ExchangeCodeRequest \<Rightarrow> plugin \<Rightarrow>
   (status, AuthenticateResponse) result \<times> plugin" where
  "exchangeRPC E al I ck peer req st =
     (case ExchangeCode (ev_lib E) al I (authServer (ev_pg E) st) ck peer req (authView st) of
        (r, s) \<Rightarrow> (r, authBack st s))"

text \<open>What the HTTP side is built from: see \<^const>\<open>siteHandler\<close> and \<^const>\<open>Handle\<close>.\<close>

record site_env =
  se_web :: weblib
  se_idp :: idp
  se_miss :: "http_request \<Rightarrow> body http_response"
  se_recoverer :: "http_request \<Rightarrow> body http_response"
  se_detect :: "string \<Rightarrow> string"
  se_render :: "json \<Rightarrow> string"
  se_other :: "string \<Rightarrow> string \<Rightarrow> string \<Rightarrow> http_request option"
  se_WebFS :: fsys
  se_AssetsFS :: fsys

definition siteDeps :: "env \<Rightarrow> site_env \<Rightarrow> discovery \<Rightarrow> instant \<Rightarrow> plugin site_deps" where
  "siteDeps E S discover now =
     \<lparr>AdminHandler = Some (adminHandler (ev_lib E) (se_web S) (se_idp S) (se_miss S) (adminDeps E discover) now),
      WebFS = Some (se_WebFS S), AssetsFS = Some (se_AssetsFS S)\<rparr>"

definition httpSlot :: "env \<Rightarrow> site_env \<Rightarrow> discovery \<Rightarrow> instant \<Rightarrow> plugin \<Rightarrow> plugin handler option" where
  "httpSlot E S discover now st =
     (if httpReady st then Some (siteHandler (se_detect S) (se_miss S) (se_recoverer S) (siteDeps E S discover now)) else None)"

definition adminView :: "plugin \<Rightarrow> plugin admin_state" where
  "adminView st = \<lparr>ad_limiter = Some (adminLimiter st), ad_log = auditRecords st, ad_app = st\<rparr>"

definition adminBack :: "plugin admin_state \<Rightarrow> plugin" where
  "adminBack s = (ad_app s)\<lparr>adminLimiter := the (ad_limiter s), auditRecords := ad_log s\<rparr>"

definition httpRPC :: "env \<Rightarrow> site_env \<Rightarrow> discovery \<Rightarrow> instant \<Rightarrow> HandleHTTPRequest \<Rightarrow> plugin \<Rightarrow> reply \<times> plugin" where
  "httpRPC E S discover now q st =
     (case Handle (se_render S) (se_other S) (httpSlot E S discover now st) q (adminView st) of (rep, s) \<Rightarrow> (rep, adminBack s))"

subsection \<open>The manifest\<close>

record manifest =
  mf_Checksum :: string
  mf_SupportedPlatforms :: "(string \<times> string) list"
  mf_Declared :: json

definition hexByte :: "8 word \<Rightarrow> string" where
  "hexByte b = (let digits = ''0123456789abcdef'' in [digits ! (unat b div 16), digits ! (unat b mod 16)])"

definition loadManifest ::
  "(string, manifest) result \<Rightarrow> (string, string) result \<Rightarrow> (string \<Rightarrow> (string, string) result) \<Rightarrow>
   (string \<Rightarrow> 8 word list) \<Rightarrow> string \<times> string \<Rightarrow> (string, manifest) result" where
  "loadManifest embedded executable readFile sum256 platform =
     (case embedded of
        Err e \<Rightarrow> Err (''load embedded manifest: '' @ e)
      | Ok m \<Rightarrow>
          (case executable of
             Err e \<Rightarrow> Err (''resolve executable: '' @ e)
           | Ok exe \<Rightarrow>
               (case readFile exe of
                  Err e \<Rightarrow> Err (''read executable: '' @ e)
                | Ok bin \<Rightarrow>
                    let m1 = m\<lparr>mf_Checksum := concat (map hexByte (sum256 bin))\<rparr> in
                    Ok (if length (mf_SupportedPlatforms m1) = 0 then m1\<lparr>mf_SupportedPlatforms := [platform]\<rparr> else m1))))"

definition GetManifest :: "manifest \<Rightarrow> manifest" where
  "GetManifest m = m"

end
