(* ===== verification/Plugin_Runs.thy ===== *)
theory Plugin_Runs
  imports Plugin
begin

text \<open>
  Runs of the plugin as sequences of complete operations, the way a host that issues one RPC at a time drives it: what
  holds of the live pointers, the pools and the databases after any such run.
\<close>

subsection \<open>Databases change through the operations of the store only\<close>

definition evolves :: "env \<Rightarrow> instant \<Rightarrow> db \<Rightarrow> db \<Rightarrow> bool" where
  "evolves E t d d' \<longleftrightarrow> (\<exists>ops. list_all (op_within t) ops \<and> d' = fold (exec (ev_lib E) (ev_pg E)) ops d)"

definition dbs_evolve :: "env \<Rightarrow> instant \<Rightarrow> plugin \<Rightarrow> plugin \<Rightarrow> bool" where
  "dbs_evolve E t st st' \<longleftrightarrow> (\<forall>u. evolves E t (databases st u) (databases st' u))"

lemma evolves_refl [simp, intro]: "evolves E t d d"
  unfolding evolves_def by (intro exI [of _ "[]"]) simp

lemma evolves_trans: "evolves E t a b \<Longrightarrow> evolves E t b c \<Longrightarrow> evolves E t a c"
  unfolding evolves_def by (metis fold_append comp_apply list_all_append)

lemma evolves_exec: "op_within t op \<Longrightarrow> evolves E t d (exec (ev_lib E) (ev_pg E) op d)"
  unfolding evolves_def by (intro exI [of _ "[op]"]) simp

lemma evolves_later: "evolves E t d d' \<Longrightarrow> t \<le> t' \<Longrightarrow> evolves E t' d d'"
  unfolding evolves_def by (force simp: list_all_iff op_within_def split: store_op.splits)

lemma evolves_row_valid: "evolves E t d d' \<Longrightarrow> jsonb_law (ev_pg E) \<Longrightarrow> row_valid (ev_lib E) d \<Longrightarrow> row_valid (ev_lib E) d'"
  unfolding evolves_def by (auto intro: row_valid_run)

lemma evolves_remembered: "evolves E t d d' \<Longrightarrow> remembered (ev_pg E) d n t \<Longrightarrow> remembered (ev_pg E) d' n t"
  unfolding evolves_def by (auto simp: list_all_iff intro: nonces.remembers_run)

lemma dbs_evolve_refl [simp, intro]: "dbs_evolve E t st st"
  by (simp add: dbs_evolve_def)

lemma dbs_evolve_trans: "dbs_evolve E t a b \<Longrightarrow> dbs_evolve E t b c \<Longrightarrow> dbs_evolve E t a c"
  unfolding dbs_evolve_def by (blast intro: evolves_trans)

lemma dbs_evolve_same: "databases st' = databases st \<Longrightarrow> dbs_evolve E t st st'"
  by (simp add: dbs_evolve_def)

lemma closePool_simps [simp]:
  "databases (closePool p st) = databases st" "nextPool (closePool p st) = nextPool st"
  "openPools (closePool p st) = removeAll (pl_id p) (openPools st)" "cfgPtr (closePool p st) = cfgPtr st"
  "provPtr (closePool p st) = provPtr st" "storePtr (closePool p st) = storePtr st" "poolPtr (closePool p st) = poolPtr st"
  "lastProviderErr (closePool p st) = lastProviderErr st" "httpReady (closePool p st) = httpReady st"
  by (simp_all add: closePool_def)

lemma perform_databases [simp]: "databases (perform w st) = databases st"
  by (cases w) (simp_all split: option.split)

lemma perform_nextPool [simp]: "nextPool (perform w st) = nextPool st"
  by (cases w) (simp_all split: option.split)

lemma performs_databases [simp]: "databases (fold perform ws st) = databases st"
  by (induction ws arbitrary: st) simp_all

text \<open>A store operation on a pool is that operation on the pool's database, or nothing.\<close>

lemma onPool_cases:
  assumes "onPool f p st = (r, st')"
  obtains (run) d' where "pl_id p \<in> set (openPools st)" "f (databases st (pl_url p)) = (r, d')"
      "st' = st\<lparr>databases := (databases st)(pl_url p := d')\<rparr>"
  | (closed) "pl_id p \<notin> set (openPools st)" "st' = st"
      "r = fst (f ((databases st (pl_url p))\<lparr>faults := closedFaults\<rparr>))"
  using assms that by (auto simp: onPool_def Let_def split: if_splits prod.splits)

lemma onPool_evolves:
  assumes "onPool f p st = (r, st')" "\<And>d. snd (f d) = exec (ev_lib E) (ev_pg E) op d" "op_within t op"
  shows "dbs_evolve E t st st'"
  using assms(1)
proof (cases rule: onPool_cases)
  case (run d')
  then have "d' = exec (ev_lib E) (ev_pg E) op (databases st (pl_url p))" using assms(2) by (metis snd_conv)
  with run assms(3) show ?thesis by (simp add: dbs_evolve_def evolves_exec)
qed simp

subsection \<open>The database phase of Configure\<close>

lemma ImportLegacyConfig_valid:
  assumes "jsonb_law P" "row_valid lib d" "ImportLegacyConfig lib P legacy d = (Ok c, d')"
  shows "config_ok lib c"
  using assms(3)
proof (cases rule: ImportLegacyConfig_cases)
  case read
  with assms(2) GetConfig_Ok_row [of d c d'] show ?thesis by (auto simp: row_valid_def)
next
  case (imported current d1 d2)
  with UpdateConfig_row [OF assms(1) imported(3)] GetConfig_Ok_row [of d2 c d'] show ?thesis by auto
qed simp

definition rows_valid :: "env \<Rightarrow> plugin \<Rightarrow> bool" where
  "rows_valid E st \<longleftrightarrow> (\<forall>u. row_valid (ev_lib E) (databases st u))"

lemma rows_valid_evolve: "dbs_evolve E t st st' \<Longrightarrow> jsonb_law (ev_pg E) \<Longrightarrow> rows_valid E st \<Longrightarrow> rows_valid E st'"
  unfolding dbs_evolve_def rows_valid_def by (blast intro: evolves_row_valid)

definition pools_numbered :: "plugin \<Rightarrow> bool" where
  "pools_numbered st \<longleftrightarrow> list_all (\<lambda>i. i < nextPool st) (openPools st)"

lemma fresh_pool: "pools_numbered st \<Longrightarrow> removeAll (nextPool st) (openPools st) = openPools st"
  by (auto simp: pools_numbered_def list_all_iff)

text \<open>Either it fails and has closed what it opened, or a pool with a number of its own is open and the configuration is valid.\<close>

lemma prepare_cases:
  assumes "prepare E cfg st = (r, st1)" "pools_numbered st"
  obtains (failed) e n dbs where "r = Err e" "st1 = st\<lparr>nextPool := n, openPools := openPools st, databases := dbs\<rparr>"
      "nextPool st \<le> n" "dbs_evolve E t st st1"
  | (ready) p eff dbs where "r = Ok (p, eff)"
      "st1 = st\<lparr>nextPool := Suc (nextPool st), openPools := nextPool st # openPools st, databases := dbs\<rparr>"
      "pl_id p = nextPool st" "8 \<le> pl_MaxConns p" "pl_url p = DatabaseURL cfg" "dbs_evolve E t st st1"
      "\<lbrakk>jsonb_law (ev_pg E); rows_valid E st\<rbrakk> \<Longrightarrow> config_ok (ev_lib E) eff"
proof -
  let ?lib = "ev_lib E" and ?P = "ev_pg E"
  consider (early) e where "r = Err e" "st1 = st"
    | (opened) mc where "ev_parseURL E (DatabaseURL cfg) = Ok mc" "ev_connect E (DatabaseURL cfg) = None" "DatabaseURL cfg \<noteq> []"
    using assms(1) by (auto simp: prepare_def split: if_splits sum.splits option.splits)
  then show thesis
  proof cases
    case early
    show thesis by (rule failed [where e = e and n = "nextPool st" and dbs = "databases st"]) (simp_all add: early)
  next
    case (opened mc)
    define p where "p = \<lparr>pl_id = nextPool st, pl_url = DatabaseURL cfg, pl_MaxConns = (if mc < 8 then 8 else mc)\<rparr>"
    define st0 where "st0 = st\<lparr>nextPool := nextPool st + 1, openPools := nextPool st # openPools st\<rparr>"
    have p: "pl_id p = nextPool st" "8 \<le> pl_MaxConns p" "pl_url p = DatabaseURL cfg" by (simp_all add: p_def)
    have inst: "pl_id p \<in> set (openPools st0)" "databases st0 = databases st" by (simp_all add: st0_def p)
    obtain m d1 where m: "Migrate (databases st (DatabaseURL cfg)) = (m, d1)" by force
    obtain i d2 where i: "ImportLegacyConfig ?lib ?P cfg d1 = (i, d2)" by force
    have prep: "prepare E cfg st = (case m of
        Some e \<Rightarrow> (Err (MigrateError e), closePool p (st0\<lparr>databases := (databases st)(DatabaseURL cfg := d1)\<rparr>))
      | None \<Rightarrow> (case i of
          Err e \<Rightarrow> (Err (ImportAppConfig e), closePool p (st0\<lparr>databases := (databases st)(DatabaseURL cfg := d2)\<rparr>))
        | Ok eff \<Rightarrow> (Ok (p, eff), st0\<lparr>databases := (databases st)(DatabaseURL cfg := d2)\<rparr>)))"
      using opened m i inst p unfolding prepare_def p_def [symmetric] st0_def [symmetric] Let_def onPool_def
      by (cases m; cases i) (simp_all add: p_def st0_def)
    have d1: "evolves E t (databases st (DatabaseURL cfg)) d1"
      using m evolves_exec [of t OpMigrate E "databases st (DatabaseURL cfg)"] by (simp add: op_within_def)
    have d2: "evolves E t d1 d2" using i evolves_exec [of t "OpImport cfg" E d1] by (simp add: op_within_def)
    note d12 = evolves_trans [OF d1 d2]
    have st: "closePool p (st0\<lparr>databases := dbs\<rparr>) = st\<lparr>nextPool := Suc (nextPool st), openPools := openPools st, databases := dbs\<rparr>" for dbs
      using fresh_pool [OF assms(2)] by (simp add: closePool_def st0_def p)
    have run: "databases x = (databases st)(DatabaseURL cfg := d) \<Longrightarrow> evolves E t (databases st (DatabaseURL cfg)) d \<Longrightarrow>
        dbs_evolve E t st x" for x d by (simp add: dbs_evolve_def)
    show thesis
    proof (cases "m = None \<and> \<not> isl i")
      case True
      then obtain eff where eff: "m = None" "i = Ok eff" by (cases i) auto
      with prep assms(1) have rst: "r = Ok (p, eff)" "st1 = st0\<lparr>databases := (databases st)(DatabaseURL cfg := d2)\<rparr>" by simp_all
      show thesis
      proof (rule ready [where p = p and eff = eff and dbs = "(databases st)(DatabaseURL cfg := d2)"])
        show "config_ok ?lib eff" if j: "jsonb_law ?P" "rows_valid E st"
        proof -
          from j(2) have "row_valid ?lib (databases st (DatabaseURL cfg))" by (simp add: rows_valid_def)
          then have "row_valid ?lib d1" using evolves_row_valid [OF d1 j(1)] by blast
          with i eff(2) j(1) show ?thesis by (auto intro: ImportLegacyConfig_valid)
        qed
        show "dbs_evolve E t st st1" by (rule run [of _ d2]) (simp_all add: rst(2) d12)
        show "st1 = st\<lparr>nextPool := Suc (nextPool st), openPools := nextPool st # openPools st,
            databases := (databases st)(DatabaseURL cfg := d2)\<rparr>" unfolding rst(2) st0_def by simp
      qed (rule rst p)+
    next
      case False
      obtain e d where e: "(r, st1) = (Err e, closePool p (st0\<lparr>databases := (databases st)(DatabaseURL cfg := d)\<rparr>))"
        "evolves E t (databases st (DatabaseURL cfg)) d"
      proof (cases m)
        case None
        with False obtain e where "i = Err e" by (cases i) auto
        with None show thesis using prep assms(1) d12 by (intro that [of "ImportAppConfig e" d2]) simp_all
      next
        case (Some e)
        then show thesis using prep assms(1) d1 by (intro that [of "MigrateError e" d1]) simp_all
      qed
      have st1: "st1 = st\<lparr>nextPool := Suc (nextPool st), openPools := openPools st, databases := (databases st)(DatabaseURL cfg := d)\<rparr>"
        using e(1) st by simp
      have "r = Err e" using e(1) by simp
      moreover have "dbs_evolve E t st st1" by (rule run [OF _ e(2)]) (simp add: st1)
      ultimately show thesis using st1 by (intro failed [where e = e and n = "Suc (nextPool st)"]) simp_all
    qed
  qed
qed

subsection \<open>The invariant\<close>

text \<open>
  What a run keeps: the rows and the live configuration are valid; the provider and the reported error are what the live
  configuration gives for some outcome of discovery; the store, the pool and the HTTP handler come and go together; and the
  only open pool is the published one.
\<close>

definition consistent :: "env \<Rightarrow> plugin \<Rightarrow> bool" where
  "consistent E st \<longleftrightarrow>
     rows_valid E st \<and> pred_option (config_ok (ev_lib E)) (cfgPtr st) \<and>
     (\<exists>disc. buildProvider (ev_lib E) disc (liveConfig st) = (provPtr st, lastProviderErr st)) \<and>
     storePtr st = poolPtr st \<and> (httpReady st \<longleftrightarrow> storePtr st \<noteq> None) \<and> (cfgPtr st \<noteq> None \<longleftrightarrow> storePtr st \<noteq> None) \<and>
     openPools st = map pl_id (case poolPtr st of None \<Rightarrow> [] | Some p \<Rightarrow> [p]) \<and> pools_numbered st \<and>
     pred_option (\<lambda>p. 8 \<le> pl_MaxConns p) (poolPtr st)"

lemma zeroConfig_unconfigured: "\<not> ProviderConfigured zeroConfig"
  by (simp add: ProviderConfigured_def zeroConfig_def)

lemma consistent_boot: "\<forall>u. row_valid (ev_lib E) (dbs u) \<Longrightarrow> consistent E (boot dbs)"
  by (simp add: consistent_def boot_def rows_valid_def pools_numbered_def liveConfig_def buildProvider_def zeroConfig_unconfigured)

lemma applyConfig_fields:
  "cfgPtr (applyConfig lib disc c st) = Some c" "provPtr (applyConfig lib disc c st) = fst (buildProvider lib disc c)"
  "lastProviderErr (applyConfig lib disc c st) = snd (buildProvider lib disc c)"
  "poolPtr (applyConfig lib disc c st) = poolPtr st" "storePtr (applyConfig lib disc c st) = storePtr st"
  "httpReady (applyConfig lib disc c st) = httpReady st" "openPools (applyConfig lib disc c st) = openPools st"
  "nextPool (applyConfig lib disc c st) = nextPool st" "databases (applyConfig lib disc c st) = databases st"
  by (simp_all add: applyConfig_def applyWrites_def split: prod.split)

text \<open>The invariant speaks of the pointers, the pools and the databases only.\<close>

lemma consistent_cong:
  assumes "consistent E st" "cfgPtr st' = cfgPtr st" "provPtr st' = provPtr st" "lastProviderErr st' = lastProviderErr st"
    "storePtr st' = storePtr st" "poolPtr st' = poolPtr st" "httpReady st' = httpReady st" "openPools st' = openPools st"
    "nextPool st \<le> nextPool st'" "rows_valid E st'"
  shows "consistent E st'"
proof -
  have "liveConfig st' = liveConfig st" using assms(2) by (simp add: liveConfig_def)
  moreover have "pools_numbered st'"
  proof -
    have "pools_numbered st" using assms(1) by (simp add: consistent_def)
    with assms(8,9) show ?thesis by (fastforce simp: pools_numbered_def list_all_iff)
  qed
  ultimately show ?thesis using assms by (simp add: consistent_def)
qed

lemma applyConfig_consistent:
  assumes "consistent E st" "storePtr st = Some p" "config_ok (ev_lib E) c"
  shows "consistent E (applyConfig (ev_lib E) disc c st)"
proof -
  have "\<exists>d. buildProvider (ev_lib E) d c = (fst (buildProvider (ev_lib E) disc c), snd (buildProvider (ev_lib E) disc c))"
    by (intro exI [of _ disc]) simp
  moreover have pool: "poolPtr st = Some p" using assms(1,2) by (simp add: consistent_def)
  moreover have "pl_id p < nextPool st" using assms(1) pool by (auto simp: consistent_def pools_numbered_def)
  ultimately show ?thesis
    using assms by (simp add: consistent_def rows_valid_def applyConfig_fields liveConfig_def pools_numbered_def)
qed

lemma onConfig_ready:
  assumes "prepare E cfg st = (Ok (p, eff), st1)"
  shows "onConfig E disc cfg st = (None, perform (SwapPool p)
    ((applyConfig (ev_lib E) disc eff st1)\<lparr>storePtr := Some p, httpReady := True\<rparr>))"
  using assms by (simp add: onConfig_def configWrites_def applyConfig_def)

lemma onConfig_consistent:
  assumes "jsonb_law (ev_pg E)" "consistent E st"
  shows "consistent E (snd (onConfig E disc cfg st))"
proof -
  obtain r st1 where prep: "prepare E cfg st = (r, st1)" by force
  have num: "pools_numbered st" and rows: "rows_valid E st" using assms(2) by (simp_all add: consistent_def)
  from prep num show ?thesis
  proof (cases rule: prepare_cases [where t = 0])
    case (failed e n dbs)
    have "consistent E st1"
      by (rule consistent_cong [OF assms(2)]) (use failed rows_valid_evolve [OF failed(4) assms(1) rows] in simp_all)
    with prep failed(1) show ?thesis by (simp add: onConfig_def)
  next
    case (ready p eff dbs)
    let ?st2 = "(applyConfig (ev_lib E) disc eff st1)\<lparr>storePtr := Some p, httpReady := True\<rparr>"
    have eff: "config_ok (ev_lib E) eff" using ready(7) assms(1) rows by blast
    have v: "rows_valid E st1" by (rule rows_valid_evolve [OF ready(6) assms(1) rows])
    have pools: "openPools st = map pl_id (case poolPtr st of None \<Rightarrow> [] | Some p \<Rightarrow> [p])" "poolPtr st1 = poolPtr st"
      "openPools st1 = pl_id p # openPools st" "nextPool st1 = Suc (nextPool st)"
      using assms(2) ready(2,3) by (simp_all add: consistent_def)
    have fresh: "pl_id q \<noteq> pl_id p" if "poolPtr st = Some q" for q
      using num that pools(1) ready(3) by (simp add: pools_numbered_def)
    have "consistent E (perform (SwapPool p) ?st2)"
    proof (cases "poolPtr st")
      case None
      then show ?thesis using eff v pools ready(3,4)
        by (simp add: consistent_def rows_valid_def applyConfig_fields liveConfig_def pools_numbered_def)
          (metis prod.collapse)
    next
      case (Some old)
      then show ?thesis using eff v pools ready(3,4) fresh [OF Some]
        by (simp add: consistent_def rows_valid_def applyConfig_fields liveConfig_def pools_numbered_def)
          (metis prod.collapse)
    qed
    with prep ready(1) show ?thesis by (simp add: onConfig_ready)
  qed
qed

lemma Configure_consistent:
  assumes "jsonb_law (ev_pg E)" "consistent E st"
  shows "consistent E (snd (Configure E disc entries st))"
proof (cases "LoadConfig (ev_lib E) entries")
  case (Inl e)
  with assms(2) show ?thesis by (simp add: Configure_def)
next
  case (Inr cfg)
  obtain e st1 where o: "onConfig E disc cfg st = (e, st1)" by force
  then have c: "consistent E st1" using onConfig_consistent [OF assms, of disc cfg] by simp
  have "consistent E (st1\<lparr>snapshot := cfg\<rparr>)"
    by (rule consistent_cong [OF c]) (use c in \<open>simp_all add: consistent_def rows_valid_def\<close>)
  with Inr o c show ?thesis by (cases e) (simp_all add: Configure_def)
qed

lemma updateConfigFn_evolves: "dbs_evolve E t st (snd (updateConfigFn E disc c st))"
proof (cases "storePtr st")
  case None
  then show ?thesis by (simp add: updateConfigFn_def)
next
  case (Some p)
  obtain r st1 where o: "onPool (UpdateConfig (ev_lib E) (ev_pg E) c) p st = (r, st1)" by force
  have "dbs_evolve E t st st1"
    by (rule onPool_evolves [OF o, of _ "OpUpdate c"]) (simp_all add: op_within_def)
  with Some o show ?thesis
    by (cases r) (simp_all add: updateConfigFn_def dbs_evolve_def applyConfig_fields)
qed

lemma onPool_UpdateConfig_valid:
  assumes "onPool (UpdateConfig lib P c) p st = (r, st')" "r = None"
  shows "config_ok lib c"
  using assms(1)
proof (cases rule: onPool_cases)
  case (run d')
  with assms(2) UpdateConfig_None [of lib P c "databases st (pl_url p)" d'] show ?thesis by simp
next
  case closed
  with assms(2) show ?thesis
    by (simp add: UpdateConfig_def closedFaults_def query_def attempt_def numeral_2_eq_2 split: option.splits sum.splits)
qed

lemma updateConfigFn_consistent:
  assumes "jsonb_law (ev_pg E)" "consistent E st"
  shows "consistent E (snd (updateConfigFn E disc c st))"
proof (cases "storePtr st")
  case None
  with assms(2) show ?thesis by (simp add: updateConfigFn_def)
next
  case (Some p)
  obtain r st1 where o: "onPool (UpdateConfig (ev_lib E) (ev_pg E) c) p st = (r, st1)" by force
  have "dbs_evolve E 0 st st1"
    by (rule onPool_evolves [OF o, of _ "OpUpdate c"]) (simp_all add: op_within_def)
  from rows_valid_evolve [OF this assms(1)] assms(2) have rows: "rows_valid E st1" by (simp add: consistent_def)
  from o have st1: "\<exists>dbs. st1 = st\<lparr>databases := dbs\<rparr>" by (cases rule: onPool_cases) (auto intro: exI [of _ "databases st"])
  then have c1: "consistent E st1"
    by (intro consistent_cong [OF assms(2) _ _ _ _ _ _ _ _ rows]) auto
  show ?thesis
  proof (cases r)
    case (Some e)
    with o c1 \<open>storePtr st = Some p\<close> show ?thesis by (simp add: updateConfigFn_def)
  next
    case None
    have "config_ok (ev_lib E) c" by (rule onPool_UpdateConfig_valid [OF o None])
    then have "consistent E (applyConfig (ev_lib E) disc c st1)"
      using c1 st1 \<open>storePtr st = Some p\<close> by (intro applyConfig_consistent) auto
    with None o \<open>storePtr st = Some p\<close> show ?thesis by (simp add: updateConfigFn_def)
  qed
qed

subsection \<open>Runs\<close>

interpretation backend: config_backend "adminDeps E disc" "\<lambda>a b. jsonb_law (ev_pg E) \<and> consistent E a \<longrightarrow> consistent E b" for E disc
  by unfold_locales (auto simp: adminDeps_def NewAdminServer_def intro: updateConfigFn_consistent)

interpretation backend_dbs: config_backend "adminDeps E disc" "dbs_evolve E t" for E disc t
  by unfold_locales (auto simp: adminDeps_def NewAdminServer_def intro: updateConfigFn_evolves)

datatype plugin_op =
    PConfigure discovery "ConfigEntry list"
  | PHttp site_env discovery instant HandleHTTPRequest
  | PExchange authlib idp clocks "string option" ExchangeCodeRequest
  | PFaults string "string option list"

text \<open>The last one is the environment: from now on the statements on a database fail as scripted.\<close>

fun plugin_step :: "env \<Rightarrow> plugin_op \<Rightarrow> plugin \<Rightarrow> plugin" where
  "plugin_step E (PConfigure disc entries) st = snd (Configure E disc entries st)"
| "plugin_step E (PHttp S disc now q) st = snd (httpRPC E S disc now q st)"
| "plugin_step E (PExchange al I ck peer req) st = snd (exchangeRPC E al I ck peer req st)"
| "plugin_step E (PFaults u fs) st = st\<lparr>databases := (databases st)(u := (databases st u)\<lparr>faults := fs\<rparr>)\<rparr>"

lemma httpRPC_app:
  "snd (httpRPC E S disc now q st) = adminBack (snd (Handle (se_render S) (se_other S) (httpSlot E S disc now st) q (adminView st)))"
  by (simp add: httpRPC_def split: prod.split)

lemma httpSlot_backend:
  "AdminHandler (siteDeps E S disc now) = Some (adminHandler (ev_lib E) (se_web S) (se_idp S) (se_miss S) (adminDeps E disc) now)"
  "httpSlot E S disc now st = None \<or>
   httpSlot E S disc now st = Some (siteHandler (se_detect S) (se_miss S) (se_recoverer S) (siteDeps E S disc now))"
  by (simp_all add: siteDeps_def httpSlot_def)

lemma adminBack_fields [simp]:
  "cfgPtr (adminBack s) = cfgPtr (ad_app s)" "provPtr (adminBack s) = provPtr (ad_app s)"
  "lastProviderErr (adminBack s) = lastProviderErr (ad_app s)" "storePtr (adminBack s) = storePtr (ad_app s)"
  "poolPtr (adminBack s) = poolPtr (ad_app s)" "httpReady (adminBack s) = httpReady (ad_app s)"
  "openPools (adminBack s) = openPools (ad_app s)" "nextPool (adminBack s) = nextPool (ad_app s)"
  "databases (adminBack s) = databases (ad_app s)"
  by (simp_all add: adminBack_def)

lemma httpRPC_evolves: "dbs_evolve E t st (snd (httpRPC E S disc now q st))"
proof -
  let ?s = "snd (Handle (se_render S) (se_other S) (httpSlot E S disc now st) q (adminView st))"
  have "dbs_evolve E t (ad_app (adminView st)) (ad_app ?s)" by (rule backend_dbs.Handle_rel [OF httpSlot_backend])
  then show ?thesis by (simp add: httpRPC_app dbs_evolve_def adminView_def)
qed

lemma httpRPC_consistent:
  assumes "jsonb_law (ev_pg E)" "consistent E st"
  shows "consistent E (snd (httpRPC E S disc now q st))"
proof -
  let ?s = "snd (Handle (se_render S) (se_other S) (httpSlot E S disc now st) q (adminView st))"
  have "jsonb_law (ev_pg E) \<and> consistent E (ad_app (adminView st)) \<longrightarrow> consistent E (ad_app ?s)"
    by (rule backend.Handle_rel [OF httpSlot_backend])
  with assms have c: "consistent E (ad_app ?s)" by (simp add: adminView_def)
  show ?thesis unfolding httpRPC_app
    by (rule consistent_cong [OF c]) (use c in \<open>simp_all add: consistent_def rows_valid_def\<close>)
qed

lemma consumeNonce_or_nothing:
  "snd (consumeNonce P st now n e d) = d \<or> snd (consumeNonce P st now n e d) = snd (ConsumeNonce P now n e d)"
  by (simp add: consumeNonce_def split: option.split)

lemma authServer_fields [simp]:
  "cfgFn (authServer P st) = liveConfig st" "provFn (authServer P st) = provPtr st"
  "consumeNonc (authServer P st) = Some (consumeNonce P st)"
  by (simp_all add: authServer_def NewServer_def)

lemma login_db:
  assumes "consumeNonc srv = Some (consumeNonce P st)"
  shows "as_db (snd (ExchangeCode lib al I srv ck peer req s)) = as_db s \<or>
   (\<exists>n e. as_db (snd (ExchangeCode lib al I srv ck peer req s)) = snd (ConsumeNonce P (ck_db ck) n e (as_db s)))"
proof -
  have c: "db' = d \<or> (\<exists>n e. db' = snd (ConsumeNonce P (ck_db ck) n e d))"
    if "consumeStep srv ck n d = (r, db')" for n d r db'
  proof -
    have "db' = snd (consumeNonce P st (ck_db ck) n (ck_nonce ck + stateTTL) d)"
      using that assms by (auto simp: consumeStep_def split: prod.splits option.splits)
    with consumeNonce_or_nothing [of P st "ck_db ck" n "ck_nonce ck + stateTTL" d] show ?thesis by metis
  qed
  show ?thesis
    unfolding ExchangeCode_db
    by (cases rule: exchangeOutcome_cases [of al ck "peerIP peer" s lib I srv req]) (use c in auto)
qed

lemma loginDb_evolves:
  assumes "ck_db ck \<le> t" "consumeNonc srv = Some (consumeNonce (ev_pg E) st)"
  shows "evolves E t (as_db (authView st)) (as_db (snd (ExchangeCode (ev_lib E) al I srv ck peer req (authView st))))"
  using login_db [OF assms(2), of "ev_lib E" al I ck peer req "authView st"]
proof (elim disjE exE)
  let ?s = "snd (ExchangeCode (ev_lib E) al I srv ck peer req (authView st))"
  fix n e assume "as_db ?s = snd (ConsumeNonce (ev_pg E) (ck_db ck) n e (as_db (authView st)))"
  moreover have "op_within t (OpConsume (ck_db ck) n e)" using assms by (simp add: op_within_def)
  ultimately show ?thesis using evolves_exec [of t "OpConsume (ck_db ck) n e" E "as_db (authView st)"] by simp
qed simp

lemma exchangeRPC_evolves:
  assumes "ck_db ck \<le> t"
  shows "dbs_evolve E t st (snd (exchangeRPC E al I ck peer req st))"
  using loginDb_evolves [OF assms, of "authServer (ev_pg E) st" E st al I peer req]
  by (auto simp: exchangeRPC_def dbs_evolve_def authBack_def authView_def split: prod.split)

lemma exchangeRPC_consistent:
  assumes "jsonb_law (ev_pg E)" "consistent E st"
  shows "consistent E (snd (exchangeRPC E al I ck peer req st))"
proof (rule consistent_cong [OF assms(2)])
  show "rows_valid E (snd (exchangeRPC E al I ck peer req st))"
    using rows_valid_evolve [OF exchangeRPC_evolves [OF order_refl] assms(1)] assms(2) by (simp add: consistent_def)
qed (simp_all add: exchangeRPC_def authBack_def split: prod.split)

lemma plugin_step_consistent:
  assumes "jsonb_law (ev_pg E)" "consistent E st"
  shows "consistent E (plugin_step E op st)"
proof (cases op)
  case (PFaults u fs)
  show ?thesis unfolding PFaults plugin_step.simps
  proof (rule consistent_cong [OF assms(2)])
    show "rows_valid E (st\<lparr>databases := (databases st)(u := (databases st u)\<lparr>faults := fs\<rparr>)\<rparr>)"
      using assms(2) by (simp add: consistent_def rows_valid_def row_valid_def row_config_def)
  qed simp_all
qed (simp_all add: assms Configure_consistent httpRPC_consistent exchangeRPC_consistent)

lemma plugin_run_consistent:
  assumes "jsonb_law (ev_pg E)" "\<forall>u. row_valid (ev_lib E) (dbs u)"
  shows "consistent E (fold (plugin_step E) ops (boot dbs))"
proof -
  have "consistent E (fold (plugin_step E) ops st)" if "consistent E st" for st
    using that by (induction ops arbitrary: st) (simp_all add: plugin_step_consistent [OF assms(1)])
  with consistent_boot [OF assms(2)] show ?thesis by blast
qed

subsection \<open>What a run guarantees\<close>

text \<open>The provider a configuration stands for: pinned algorithms, the issuer and endpoints of one discovery document, the
  client's own identifier and secret, the configured scopes with \<^verbatim>\<open>openid\<close> among them, no redirect of its own, and loopback
  connections only for an issuer that is itself on this host.\<close>

definition provider_of :: "golib \<Rightarrow> Config \<Rightarrow> Provider \<Rightarrow> bool" where
  "provider_of lib c p \<longleftrightarrow>
     ProviderConfigured c \<and> vf_SupportedSigningAlgs (pv_verifier p) = supportedSigningAlgs \<and>
     vf_Issuer (pv_verifier p) = dc_Issuer (pv_provider p) \<and> vf_ClientID (pv_verifier p) = ClientID c \<and>
     oc_ClientID (pv_oauth2Config p) = ClientID c \<and> oc_ClientSecret (pv_oauth2Config p) = ClientSecret c \<and>
     oc_Endpoint (pv_oauth2Config p) = dc_Endpoint (pv_provider p) \<and> oc_RedirectURL (pv_oauth2Config p) = [] \<and>
     oc_Scopes (pv_oauth2Config p) = strFields (Scopes c) \<and> ''openid'' \<in> set (oc_Scopes (pv_oauth2Config p)) \<and>
     (pv_clientAllowsLoopback p \<longleftrightarrow> IssuerAllowsLoopback lib (IssuerURL c))"

lemma buildProvider_Some:
  assumes "buildProvider lib disc c = (Some p, e)" "config_ok lib c"
  shows "provider_of lib c p \<and> e = None"
proof -
  from assms(1) have c: "ProviderConfigured c" and p: "NewProvider disc (newArgs lib c) = Ok p" and e: "e = None"
    by (auto simp: buildProvider_def split: if_splits sum.splits)
  have "''openid'' \<in> set (strFields (Scopes c))" using assms(2) by (simp add: config_ok_def)
  with c p e show ?thesis
    by (auto simp: NewProvider_Ok_iff provider_of_def newArgs_def)
qed

lemma buildProvider_source:
  "buildProvider lib disc c = (Some p, e) \<Longrightarrow>
     disc (IssuerAllowsLoopback lib (IssuerURL c)) (IssuerURL c) = Ok (pv_provider p)"
  by (auto simp: buildProvider_def NewProvider_Ok_iff newArgs_def split: if_splits sum.splits)

lemma buildProvider_error:
  "buildProvider lib disc c = (p, e) \<Longrightarrow> e \<noteq> None \<longleftrightarrow> ProviderConfigured c \<and> p = None"
  by (auto simp: buildProvider_def split: if_splits sum.splits)

lemma consistent_together: "consistent E st \<Longrightarrow> cfgPtr st \<noteq> None \<longleftrightarrow> storePtr st \<noteq> None"
  unfolding consistent_def by blast

lemma consistent_provider:
  assumes "consistent E st" "provPtr st = Some p"
  obtains c pool where "cfgPtr st = Some c" "config_ok (ev_lib E) c" "provider_of (ev_lib E) c p" "storePtr st = Some pool"
    "openPools st = [pl_id pool]"
proof -
  from assms obtain disc where b: "buildProvider (ev_lib E) disc (liveConfig st) = (Some p, lastProviderErr st)"
    by (auto simp: consistent_def)
  then have "liveConfig st \<noteq> zeroConfig" using zeroConfig_unconfigured by (auto simp: buildProvider_def)
  then obtain c where c: "cfgPtr st = Some c" "liveConfig st = c" by (cases "cfgPtr st") (auto simp: liveConfig_def)
  with assms(1) have ok: "config_ok (ev_lib E) c" by (auto simp: consistent_def)
  from consistent_together [OF assms(1)] c(1) have "storePtr st \<noteq> None" by simp
  then obtain pool where "storePtr st = Some pool" by blast
  moreover from this assms(1) have "poolPtr st = Some pool" by (simp add: consistent_def)
  then have "openPools st = [pl_id pool]" using assms(1) by (auto simp: consistent_def)
  ultimately show thesis using that c ok buildProvider_Some [OF b] by auto
qed

text \<open>Where the live provider comes from: one of the given discoveries, asked for the issuer of the live configuration.\<close>

definition sourced :: "golib \<Rightarrow> discovery set \<Rightarrow> plugin \<Rightarrow> bool" where
  "sourced lib D st \<longleftrightarrow> pred_option (\<lambda>p. \<exists>disc\<in>D.
     disc (IssuerAllowsLoopback lib (IssuerURL (liveConfig st))) (IssuerURL (liveConfig st)) = Ok (pv_provider p)) (provPtr st)"

lemma sourced_cong: "cfgPtr st' = cfgPtr st \<Longrightarrow> provPtr st' = provPtr st \<Longrightarrow> sourced lib D st' = sourced lib D st"
  by (simp add: sourced_def liveConfig_def)

lemma sourced_applyConfig: "disc \<in> D \<Longrightarrow> sourced lib D (applyConfig lib disc c st)"
  by (cases "buildProvider lib disc c"; cases "fst (buildProvider lib disc c)")
    (auto simp: sourced_def applyConfig_fields liveConfig_def dest: buildProvider_source)

lemma onPool_pointers: "onPool f p st = (r, st') \<Longrightarrow> cfgPtr st' = cfgPtr st \<and> provPtr st' = provPtr st"
  by (erule onPool_cases) simp_all

lemma prepare_pointers: "prepare E cfg st = (r, st') \<Longrightarrow> cfgPtr st' = cfgPtr st \<and> provPtr st' = provPtr st"
  by (auto simp: prepare_def Let_def split: if_splits sum.splits option.splits prod.splits dest!: onPool_pointers)

lemma Configure_sourced:
  assumes "disc \<in> D" "sourced (ev_lib E) D st"
  shows "sourced (ev_lib E) D (snd (Configure E disc entries st))"
proof (cases "LoadConfig (ev_lib E) entries")
  case (Inr cfg)
  obtain r st1 where prep: "prepare E cfg st = (r, st1)" by force
  show ?thesis
  proof (cases r)
    case (Inl e)
    with prep Inr show ?thesis
      using assms(2) sourced_cong [of st1 st] by (simp add: Configure_def onConfig_def prepare_pointers)
  next
    case ok: (Inr y)
    obtain p eff where y: "y = (p, eff)" by force
    have "sourced (ev_lib E) D (applyConfig (ev_lib E) disc eff st1)" by (rule sourced_applyConfig [OF assms(1)])
    then have "sourced (ev_lib E) D (perform (SetSnapshot cfg) (perform (SwapPool p)
        ((applyConfig (ev_lib E) disc eff st1)\<lparr>storePtr := Some p, httpReady := True\<rparr>)))"
      by (rule iffD2 [OF sourced_cong, rotated 2]) (simp_all split: option.split)
    with prep Inr ok y show ?thesis by (simp add: Configure_def onConfig_ready)
  qed
qed (use assms(2) in \<open>simp add: Configure_def\<close>)

lemma updateConfigFn_sourced:
  assumes "disc \<in> D" "sourced (ev_lib E) D st"
  shows "sourced (ev_lib E) D (snd (updateConfigFn E disc c st))"
proof (cases "storePtr st")
  case (Some p)
  obtain r st1 where o: "onPool (UpdateConfig (ev_lib E) (ev_pg E) c) p st = (r, st1)" by force
  then have "sourced (ev_lib E) D st1" using onPool_pointers [OF o] sourced_cong [of st1 st] assms(2) by simp
  with Some o assms(1) show ?thesis by (cases r) (simp_all add: updateConfigFn_def sourced_applyConfig)
qed (use assms(2) in \<open>simp add: updateConfigFn_def\<close>)

interpretation backend_source: config_backend "adminDeps E disc"
  "\<lambda>a b. disc \<in> D \<and> sourced (ev_lib E) D a \<longrightarrow> sourced (ev_lib E) D b" for E disc D
  by unfold_locales (auto simp: adminDeps_def NewAdminServer_def intro: updateConfigFn_sourced)

fun op_discovery :: "plugin_op \<Rightarrow> discovery option" where
  "op_discovery (PConfigure disc entries) = Some disc"
| "op_discovery (PHttp S disc now q) = Some disc"
| "op_discovery (PExchange al I ck peer req) = None"
| "op_discovery (PFaults u fs) = None"

definition discoveries :: "plugin_op list \<Rightarrow> discovery set" where
  "discoveries ops = {disc. Some disc \<in> op_discovery ` set ops}"

lemma plugin_step_sourced:
  assumes "sourced (ev_lib E) D st" "\<And>disc. op_discovery op = Some disc \<Longrightarrow> disc \<in> D"
  shows "sourced (ev_lib E) D (plugin_step E op st)"
proof (cases op)
  case (PConfigure disc entries)
  with assms show ?thesis by (simp add: Configure_sourced)
next
  case (PHttp S disc now q)
  let ?s = "snd (Handle (se_render S) (se_other S) (httpSlot E S disc now st) q (adminView st))"
  have "disc \<in> D \<and> sourced (ev_lib E) D (ad_app (adminView st)) \<longrightarrow> sourced (ev_lib E) D (ad_app ?s)"
    by (rule backend_source.Handle_rel [OF httpSlot_backend])
  with assms PHttp have "sourced (ev_lib E) D (ad_app ?s)" by (simp add: adminView_def)
  then show ?thesis using PHttp sourced_cong [of "adminBack ?s" "ad_app ?s"] by (simp add: httpRPC_app)
next
  case (PExchange al I ck peer req)
  then show ?thesis using assms(1)
    by (auto simp: exchangeRPC_def authBack_def sourced_def liveConfig_def split: prod.split)
next
  case (PFaults u fs)
  then show ?thesis using assms(1) by (simp add: sourced_def liveConfig_def)
qed

lemma plugin_run_sourced: "sourced (ev_lib E) (discoveries ops) (fold (plugin_step E) ops (boot dbs))"
proof -
  have "sourced (ev_lib E) D (fold (plugin_step E) os st)" if "sourced (ev_lib E) D st" "discoveries os \<subseteq> D" for os D st
    using that
  proof (induction os arbitrary: st)
    case (Cons op os)
    have "sourced (ev_lib E) D (plugin_step E op st)"
      by (rule plugin_step_sourced [OF Cons.prems(1)]) (use Cons.prems(2) in \<open>force simp: discoveries_def\<close>)
    moreover have "discoveries os \<subseteq> D" using Cons.prems(2) by (auto simp: discoveries_def)
    ultimately show ?case using Cons.IH by simp
  qed simp
  moreover have "sourced (ev_lib E) D (boot dbs)" for D by (simp add: sourced_def boot_def)
  ultimately show ?thesis by blast
qed

text \<open>
  C3: the plugin is always in a coherent state. After any sequence of reconfigurations (with any settings, outcomes of discovery and
  database failures), admin requests and logins from the start of the process: a provider is live only together with a valid
  configuration and is the provider of that configuration, with pinned algorithms, the configuration's client and scopes, and the
  document that a discovery of the run returned for the configuration's issuer, which is also the issuer id_tokens are verified
  against when discovery checks the issuer of the document as \<^verbatim>\<open>go-oidc\<close> does; it comes with a store whose pool is open, so
  that the replay guard is armed. An error is reported exactly when the settings are complete and no provider is live, and the only
  open connection pool is that of the store.
\<close>

theorem plugin_coherent:
  fixes E :: env and ops :: "plugin_op list"
  assumes "jsonb_law (ev_pg E)" and "\<forall>u. row_valid (ev_lib E) (dbs u)"
  defines "st \<equiv> fold (plugin_step E) ops (boot dbs)"
  shows "(case provPtr st of None \<Rightarrow> True
      | Some p \<Rightarrow> \<exists>c pool. cfgPtr st = Some c \<and> config_ok (ev_lib E) c \<and> provider_of (ev_lib E) c p \<and>
          (\<exists>disc\<in>discoveries ops. disc (IssuerAllowsLoopback (ev_lib E) (IssuerURL c)) (IssuerURL c) = Ok (pv_provider p)) \<and>
          ((\<forall>disc\<in>discoveries ops. \<forall>allow url d. disc allow url = Ok d \<longrightarrow> dc_Issuer d = url) \<longrightarrow>
            vf_Issuer (pv_verifier p) = IssuerURL c) \<and>
          storePtr st = Some pool \<and> openPools st = [pl_id pool]) \<and>
    (lastProviderErr st \<noteq> None \<longleftrightarrow> ProviderConfigured (liveConfig st) \<and> provPtr st = None) \<and>
    openPools st = (case storePtr st of None \<Rightarrow> [] | Some pool \<Rightarrow> [pl_id pool])"
proof -
  have c: "consistent E st" unfolding st_def by (rule plugin_run_consistent [OF assms(1,2)])
  have src: "sourced (ev_lib E) (discoveries ops) st" unfolding st_def by (rule plugin_run_sourced)
  from c have "openPools st = (case storePtr st of None \<Rightarrow> [] | Some pool \<Rightarrow> [pl_id pool])"
    by (auto simp: consistent_def split: option.split)
  moreover from c obtain disc where "buildProvider (ev_lib E) disc (liveConfig st) = (provPtr st, lastProviderErr st)"
    by (auto simp: consistent_def)
  from buildProvider_error [OF this]
  have "lastProviderErr st \<noteq> None \<longleftrightarrow> ProviderConfigured (liveConfig st) \<and> provPtr st = None" .
  moreover have "case provPtr st of None \<Rightarrow> True
      | Some p \<Rightarrow> \<exists>c pool. cfgPtr st = Some c \<and> config_ok (ev_lib E) c \<and> provider_of (ev_lib E) c p \<and>
          (\<exists>disc\<in>discoveries ops. disc (IssuerAllowsLoopback (ev_lib E) (IssuerURL c)) (IssuerURL c) = Ok (pv_provider p)) \<and>
          ((\<forall>disc\<in>discoveries ops. \<forall>allow url d. disc allow url = Ok d \<longrightarrow> dc_Issuer d = url) \<longrightarrow>
            vf_Issuer (pv_verifier p) = IssuerURL c) \<and>
          storePtr st = Some pool \<and> openPools st = [pl_id pool]"
  proof (cases "provPtr st")
    case (Some p)
    from consistent_provider [OF c Some] obtain cfg pool where o: "cfgPtr st = Some cfg" "config_ok (ev_lib E) cfg"
      "provider_of (ev_lib E) cfg p" "storePtr st = Some pool" "openPools st = [pl_id pool]" .
    from src o(1) Some obtain disc where d: "disc \<in> discoveries ops"
      "disc (IssuerAllowsLoopback (ev_lib E) (IssuerURL cfg)) (IssuerURL cfg) = Ok (pv_provider p)"
      by (auto simp: sourced_def liveConfig_def)
    have "vf_Issuer (pv_verifier p) = IssuerURL cfg"
      if "\<forall>disc\<in>discoveries ops. \<forall>allow url d. disc allow url = Ok d \<longrightarrow> dc_Issuer d = url"
      using that d o(3) by (auto simp: provider_of_def)
    with o d Some show ?thesis by auto
  qed simp
  ultimately show ?thesis by blast
qed

definition demo_env :: env where
  "demo_env = \<lparr>ev_lib = demo_lib, ev_pg = demo_pg, ev_parseURL = (\<lambda>_. Ok 4), ev_connect = (\<lambda>_. None), ev_storeMsg = (\<lambda>_. ''store'')\<rparr>"

definition demo_discovery :: discovery where
  "demo_discovery _ issuer = Ok \<lparr>dc_Issuer = issuer, dc_Endpoint = (issuer @ ''auth'', issuer @ ''token'')\<rparr>"

definition plugin_entries :: "ConfigEntry list" where
  "plugin_entries = demo_entries @ [\<lparr>ce_key = ''issuer_url'', ce_value = Some demo_issuer_value\<rparr>,
     \<lparr>ce_key = ''database_url'', ce_value = Some (fmap_of_list [(''value'', JString ''pg'')])\<rparr>]"

definition demo_boot :: plugin where
  "demo_boot = boot (\<lambda>_. freshDb)"

definition demo_plugin :: plugin where
  "demo_plugin = fold (plugin_step demo_env) [PConfigure demo_discovery plugin_entries] demo_boot"

definition demo_live :: Config where
  "demo_live = demo_config\<lparr>ClaimFilters := None, ClaimRoleMapping := None\<rparr>"

definition demo_pool :: pool where
  "demo_pool = \<lparr>pl_id = 0, pl_url = ''pg'', pl_MaxConns = 8\<rparr>"

lemma demo_prepare:
  obtains dbs where "prepare demo_env (demo_live\<lparr>DatabaseURL := ''pg''\<rparr>) demo_boot =
    (Ok (demo_pool, demo_live), demo_boot\<lparr>nextPool := 1, openPools := [0], databases := dbs\<rparr>)"
    "dbs ''pg'' = snd (ImportLegacyConfig demo_lib demo_pg (demo_live\<lparr>DatabaseURL := ''pg''\<rparr>) (snd (Migrate freshDb)))"
proof -
  let ?cfg = "demo_live\<lparr>DatabaseURL := ''pg''\<rparr>"
  obtain d1 where m: "Migrate freshDb = (None, d1)" by (simp add: Migrate_def attempt_def freshDb_def)
  have "fst (ImportLegacyConfig demo_lib demo_pg ?cfg (snd (Migrate freshDb))) = Ok demo_live" by code_simp
  then obtain d2 where i: "ImportLegacyConfig demo_lib demo_pg ?cfg d1 = (Ok demo_live, d2)"
    using m by (cases "ImportLegacyConfig demo_lib demo_pg ?cfg d1") simp
  have "prepare demo_env ?cfg demo_boot =
    (Ok (demo_pool, demo_live), demo_boot\<lparr>nextPool := 1, openPools := [0], databases := (databases demo_boot)(''pg'' := d2)\<rparr>)"
    by (simp add: prepare_def demo_env_def onPool_def demo_boot_def boot_def m i demo_pool_def)
  then show thesis by (rule that) (simp add: m i)
qed

lemma demo_plugin_state:
  "provPtr demo_plugin = Some demo_provider" "cfgPtr demo_plugin = Some demo_live" "storePtr demo_plugin = Some demo_pool"
  "openPools demo_plugin = [0]" "exchangeLimiter demo_plugin = newLimiter (rnd64 (5 / 60)) 10" "auditRecords demo_plugin = []"
  "databases demo_plugin ''pg'' = snd (ImportLegacyConfig demo_lib demo_pg (demo_live\<lparr>DatabaseURL := ''pg''\<rparr>) (snd (Migrate freshDb)))"
proof -
  have l: "LoadConfig demo_lib plugin_entries = Ok (demo_live\<lparr>DatabaseURL := ''pg''\<rparr>)" by code_simp
  have b: "buildProvider demo_lib demo_discovery demo_live = (Some demo_provider, None)" by code_simp
  obtain dbs where p: "prepare demo_env (demo_live\<lparr>DatabaseURL := ''pg''\<rparr>) demo_boot =
    (Ok (demo_pool, demo_live), demo_boot\<lparr>nextPool := 1, openPools := [0], databases := dbs\<rparr>)"
    "dbs ''pg'' = snd (ImportLegacyConfig demo_lib demo_pg (demo_live\<lparr>DatabaseURL := ''pg''\<rparr>) (snd (Migrate freshDb)))"
    by (rule demo_prepare)
  have E: "ev_lib demo_env = demo_lib" by (simp add: demo_env_def)
  have run: "demo_plugin = perform (SetSnapshot (demo_live\<lparr>DatabaseURL := ''pg''\<rparr>))
      (fold perform (configWrites demo_lib demo_discovery demo_pool demo_live)
        (demo_boot\<lparr>nextPool := 1, openPools := [0], databases := dbs\<rparr>))"
    by (simp add: demo_plugin_def Configure_def E l onConfig_def p(1))
  show "provPtr demo_plugin = Some demo_provider" "cfgPtr demo_plugin = Some demo_live" "storePtr demo_plugin = Some demo_pool"
    "openPools demo_plugin = [0]" "exchangeLimiter demo_plugin = newLimiter (rnd64 (5 / 60)) 10" "auditRecords demo_plugin = []"
    "databases demo_plugin ''pg'' = snd (ImportLegacyConfig demo_lib demo_pg (demo_live\<lparr>DatabaseURL := ''pg''\<rparr>) (snd (Migrate freshDb)))"
    unfolding run using p(2) by (simp_all add: configWrites_def applyWrites_def b demo_boot_def boot_def)
qed

theorem plugin_coherent_witness:
  "\<exists>c pool. cfgPtr demo_plugin = Some c \<and> config_ok demo_lib c \<and> provider_of demo_lib c demo_provider \<and>
     vf_Issuer (pv_verifier demo_provider) = IssuerURL c \<and>
     storePtr demo_plugin = Some pool \<and> openPools demo_plugin = [pl_id pool]"
proof -
  have d: "\<forall>disc\<in>discoveries [PConfigure demo_discovery plugin_entries]. \<forall>allow url d. disc allow url = Ok d \<longrightarrow> dc_Issuer d = url"
    by (auto simp: discoveries_def demo_discovery_def)
  have run: "demo_plugin = fold (plugin_step demo_env) [PConfigure demo_discovery plugin_entries] (boot (\<lambda>_. freshDb))"
    by (simp add: demo_plugin_def demo_boot_def)
  have E: "ev_lib demo_env = demo_lib" "jsonb_law (ev_pg demo_env)" using demo_pg_laws(1) by (simp_all add: demo_env_def)
  have "\<forall>u. row_valid (ev_lib demo_env) ((\<lambda>_. freshDb) u)" by (simp add: row_valid_fresh)
  from plugin_coherent [OF E(2) this, of "[PConfigure demo_discovery plugin_entries]"]
  show ?thesis unfolding run [symmetric] demo_plugin_state E(1) using d by (simp add: demo_plugin_state)
qed

text \<open>
  C27: a failed Configure is harmless. Whatever makes it fail (unusable settings, no database URL, a URL that does not parse, no
  connection, a failing migration or import), the live configuration, provider, store, HTTP handler, reported error and
  the configuration of record are untouched, and every pool it opened is closed again; only rows of databases may have changed.
\<close>

theorem Configure_failure_harmless:
  assumes "Configure E disc entries st = (Some e, st')" and "pools_numbered st"
  shows "\<exists>n dbs. st' = st\<lparr>nextPool := n, databases := dbs\<rparr> \<and> nextPool st \<le> n"
proof (cases "LoadConfig (ev_lib E) entries")
  case (Inl e')
  with assms(1) show ?thesis by (intro exI [of _ "nextPool st"] exI [of _ "databases st"]) (simp add: Configure_def)
next
  case (Inr cfg)
  obtain r st1 where prep: "prepare E cfg st = (r, st1)" by force
  from prep assms(2) show ?thesis
  proof (cases rule: prepare_cases [where t = 0])
    case (failed e' n dbs)
    then have "st' = st\<lparr>nextPool := n, databases := dbs\<rparr>"
      using assms(1) Inr prep by (simp add: Configure_def onConfig_def)
    with failed(3) show ?thesis by blast
  next
    case (ready p eff dbs)
    with assms(1) Inr prep show ?thesis by (simp add: Configure_def onConfig_def)
  qed
qed

theorem Configure_failure_harmless_witness:
  "\<exists>n dbs. snd (Configure demo_env demo_discovery [] demo_boot) = demo_boot\<lparr>nextPool := n, databases := dbs\<rparr> \<and> nextPool demo_boot \<le> n"
proof -
  have "LoadConfig demo_lib [] = Ok loadDefaults" by code_simp
  then have "Configure demo_env demo_discovery [] demo_boot = (Some DatabaseURLRequired, demo_boot)"
    by (simp add: Configure_def onConfig_def prepare_def demo_env_def loadDefaults_def zeroConfig_def)
  moreover have "pools_numbered demo_boot" by (simp add: demo_boot_def boot_def pools_numbered_def)
  ultimately show ?thesis using Configure_failure_harmless [of demo_env demo_discovery "[]" demo_boot] by simp
qed

subsection \<open>Replay across the whole plugin\<close>

fun op_by :: "instant \<Rightarrow> plugin_op \<Rightarrow> bool" where
  "op_by t (PExchange al I ck peer req) \<longleftrightarrow> ck_db ck \<le> t"
| "op_by t _ \<longleftrightarrow> True"

lemma Configure_evolves:
  assumes "pools_numbered st"
  shows "dbs_evolve E t st (snd (Configure E disc entries st))"
proof (cases "LoadConfig (ev_lib E) entries")
  case (Inr cfg)
  obtain r st1 where prep: "prepare E cfg st = (r, st1)" by force
  then have "dbs_evolve E t st st1" using assms by (cases rule: prepare_cases [where t = t])
  with Inr prep show ?thesis
    by (cases r) (auto simp: Configure_def onConfig_def dbs_evolve_def split: prod.split)
qed (simp add: Configure_def)

lemma plugin_step_evolves:
  assumes "consistent E st" "op_by t op"
  shows "dbs_evolve E t st (plugin_step E op st)"
proof (cases op)
  case (PFaults u fs)
  have "evolves E t (databases st u) ((databases st u)\<lparr>faults := fs\<rparr>)"
    using evolves_exec [of t "OpFaults fs" E "databases st u"] by (simp add: op_within_def)
  with PFaults show ?thesis by (simp add: dbs_evolve_def)
next
  case (PConfigure disc entries)
  with assms show ?thesis by (simp add: Configure_evolves consistent_def)
qed (use assms in \<open>simp_all add: httpRPC_evolves exchangeRPC_evolves\<close>)

lemma plugin_run_evolves:
  assumes "jsonb_law (ev_pg E)" "consistent E st" "\<forall>op\<in>set ops. op_by t op"
  shows "dbs_evolve E t st (fold (plugin_step E) ops st)"
  using assms(2,3)
  by (induction ops arbitrary: st)
    (auto intro: dbs_evolve_trans [OF plugin_step_evolves] simp: plugin_step_consistent [OF assms(1)])

lemma consumeNonce_live:
  "storePtr st = Some p \<Longrightarrow> pl_id p \<in> set (openPools st) \<Longrightarrow> consumeNonce P st = ConsumeNonce P"
  by (intro ext) (simp add: consumeNonce_def)

text \<open>A login that succeeds finds a provider, hence in a coherent state the replay guard of the live store.\<close>

lemma exchangeRPC_Ok_consumes:
  assumes "consistent E st" "exchangeRPC E al I ck peer req st = (Ok resp, st1)"
  shows "\<exists>s1. consumeOn (ev_pg E) (ck_db ck) (ps_nonce (readState (xr_provider_state req))) (ck_nonce ck + stateTTL) (authView st)
      = (None, s1) \<and> as_db s1 = databases st1 (storeURL st) \<and>
    \<not> stale al (ck_since ck) (ps_issuedAt (readState (xr_provider_state req))) \<and> storeURL st1 = storeURL st"
proof -
  obtain s where x: "ExchangeCode (ev_lib E) al I (authServer (ev_pg E) st) ck peer req (authView st) = (Ok resp, s)"
    and st1: "st1 = authBack st s"
    using assms(2) by (auto simp: exchangeRPC_def split: prod.splits)
  from x have "provPtr st \<noteq> None"
    using ExchangeCode_Ok_iff [of "ev_lib E" al I "authServer (ev_pg E) st" ck peer req "authView st" resp]
    by (auto simp: exchangeOutcome_Ok_iff)
  then obtain p where "provPtr st = Some p" by blast
  with assms(1) obtain pool where "storePtr st = Some pool" "openPools st = [pl_id pool]" by (rule consistent_provider)
  then have "consumeNonc (authServer (ev_pg E) st) = Some (ConsumeNonce (ev_pg E))" by (simp add: consumeNonce_live)
  from ExchangeCode_consumes [OF this x] st1 show ?thesis by (auto simp: authBack_def storeURL_def)
qed

text \<open>
  C2: replay protection in runs of complete operations. After a login succeeded, a second callback with the same provider state
  is refused, whatever the plugin went through in between, one operation at a time: reconfigurations, changed settings, failed
  statements, other logins. The conditions are that the provider state carries an \<^verbatim>\<open>issued_at\<close> that parses, as
  \<^const>\<open>InitAuthorize\<close> writes it, that the database's clock at the second call is ahead of the plugin's by less than the age
  the state had at the first, and that the live store then is on the same database. Without \<^verbatim>\<open>issued_at\<close> a callback is accepted again once
  its nonce is pruned, and overlapping operations can give the guard up: see \<open>Plugin_Concurrent\<close>.
\<close>

theorem plugin_no_replay:
  assumes laws: "jsonb_law (ev_pg E)" "timestamp_law (ev_pg E)" "\<forall>u. row_valid (ev_lib E) (dbs u)"
    and st: "st = fold (plugin_step E) before (boot dbs)"
    and first: "exchangeRPC E al I ck peer req st = (Ok resp, st1)"
    and st2: "st2 = fold (plugin_step E) ops st1" "\<forall>op\<in>set ops. op_by (ck_db ck') op" "storeURL st2 = storeURL st"
    and same: "xr_provider_state req' = xr_provider_state req"
    and issued: "ps_issuedAt (readState (xr_provider_state req)) \<noteq> []"
      "time_parse al (ps_issuedAt (readState (xr_provider_state req))) = Some t0"
    and skew: "ck_db ck' - ck_since ck' + microsecond \<le> ck_nonce ck - t0"
  shows "fst (exchangeRPC E al I' ck' peer' req' st2) \<noteq> Ok resp'"
proof
  let ?ps = "readState (xr_provider_state req)" and ?P = "ev_pg E" and ?u = "storeURL st"
  assume "fst (exchangeRPC E al I' ck' peer' req' st2) = Ok resp'"
  then obtain st3 where second: "exchangeRPC E al I' ck' peer' req' st2 = (Ok resp', st3)" by (metis prod.collapse)
  have c: "consistent E st" unfolding st by (rule plugin_run_consistent [OF laws(1,3)])
  have c1: "consistent E st1" using exchangeRPC_consistent [OF laws(1) c, of al I ck peer req] first by simp
  have c2: "consistent E st2" unfolding st2(1) using c1
    by (induction ops arbitrary: st1) (simp_all add: plugin_step_consistent [OF laws(1)])
  from exchangeRPC_Ok_consumes [OF c first] obtain s1 where
    a1: "consumeOn ?P (ck_db ck) (ps_nonce ?ps) (ck_nonce ck + stateTTL) (authView st) = (None, s1)" "as_db s1 = databases st1 ?u" by auto
  from exchangeRPC_Ok_consumes [OF c2 second] same obtain s2 where
    a2: "consumeOn ?P (ck_db ck') (ps_nonce ?ps) (ck_nonce ck' + stateTTL) (authView st2) = (None, s2)"
    and fresh: "\<not> stale al (ck_since ck') (ps_issuedAt ?ps)" by auto
  have "ck_db ck' \<le> pg_timestamp ?P (ck_nonce ck + stateTTL)"
    by (rule retention_covers [OF laws(2) fresh issued skew])
  with logins.accepted [OF a1(1)] a1(2) have "remembered ?P (databases st1 ?u) (ps_nonce ?ps) (ck_db ck')"
    by (auto simp: remembered_def)
  with plugin_run_evolves [OF laws(1) c1 st2(2)] have "remembered ?P (databases st2 ?u) (ps_nonce ?ps) (ck_db ck')"
    unfolding st2(1) [symmetric] dbs_evolve_def by (blast intro: evolves_remembered)
  then have "remembered ?P (as_db (authView st2)) (ps_nonce ?ps) (ck_db ck')" using st2(3) by (simp add: authView_def)
  from logins.refused [OF this order_refl] a2 show False by (metis fst_conv)
qed

text \<open>A caller without a bucket is admitted, and a bucket is made for that caller only.\<close>

lemma admit_fresh:
  assumes "fmlookup (buckets l) (''exchange:'' @ rateKey ip) = None" "1 \<le> burst l"
  shows "\<exists>l'. admit al ck ip (Some l) = (None, Some l') \<and> burst l' = burst l \<and>
    (\<forall>k. k \<noteq> ''exchange:'' @ rateKey ip \<longrightarrow> fmlookup (buckets l) k = None \<longrightarrow> fmlookup (buckets l') k = None)"
  using assms by (simp add: admit_def Allow_eq Let_def current_def sweepLocked_def split: option.split)

definition demo_resp :: AuthenticateResponse where
  "demo_resp = response (decorate demo_lib demo_live demo_claims
     (fmadd demo_claims (fmap_of_list [(''sub'', JString ''u1''), (''name'', JString ''Una'')])))"

text \<open>The callback of the demonstration flow succeeds as soon as limiter and replay guard let it through.\<close>

lemma demo_login:
  assumes "provPtr st = Some demo_provider" "cfgPtr st = Some demo_live" "0 \<le> t" "t \<le> stateTTL"
    and "admit demo_authlib (demo_clocks t) (peerIP peer) (Some (exchangeLimiter st)) = (None, lm)"
    and "consumeNonce demo_pg st t demo_nonce (t + stateTTL) (databases st (storeURL st)) = (None, d')"
  shows "\<exists>lg. exchangeRPC demo_env demo_authlib demo_idp (demo_clocks t) peer demo_req st =
    (Ok demo_resp, authBack st \<lparr>as_limiter = lm, as_log = lg, as_db = d'\<rparr>)"
proof -
  let ?srv = "authServer demo_pg st" and ?ck = "demo_clocks t"
  have l: "login demo_lib demo_authlib demo_idp demo_live demo_provider (readState (xr_provider_state demo_req)) demo_req = Ok demo_resp"
    by code_simp
  have "exchangeOutcome demo_lib demo_authlib demo_idp ?srv ?ck (peerIP peer) demo_req (authView st) =
      (Ok demo_resp, (authView st)\<lparr>as_limiter := lm, as_db := d'\<rparr>)"
    using assms demo_checkState [OF assms(3,4)] l
    by (auto simp: exchangeOutcome_Ok_iff authView_def demo_clocks_def liveConfig_def consumeStep_None_iff)
  then show ?thesis
    by (auto simp: exchangeRPC_def ExchangeCode_def demo_env_def authView_def Let_def)
qed

lemma demo_plugin_login:
  obtains st1 where "exchangeRPC demo_env demo_authlib demo_idp (demo_clocks 5000) None demo_req demo_plugin = (Ok demo_resp, st1)"
proof -
  let ?d = "snd (ImportLegacyConfig demo_lib demo_pg (demo_live\<lparr>DatabaseURL := ''pg''\<rparr>) (snd (Migrate freshDb)))"
  have t: "(0::int) \<le> 5000" "5000 \<le> stateTTL" by (simp_all add: stateTTL_def duration_defs)
  have "fst (ConsumeNonce demo_pg 5000 demo_nonce (5000 + stateTTL) ?d) = None" by code_simp
  then obtain d' where "ConsumeNonce demo_pg 5000 demo_nonce (5000 + stateTTL) ?d = (None, d')" by (metis prod.collapse)
  moreover have "consumeNonce demo_pg demo_plugin = ConsumeNonce demo_pg"
    by (rule consumeNonce_live [OF demo_plugin_state(3)]) (simp add: demo_plugin_state demo_pool_def)
  ultimately have c: "consumeNonce demo_pg demo_plugin 5000 demo_nonce (5000 + stateTTL) (databases demo_plugin (storeURL demo_plugin)) = (None, d')"
    by (simp add: storeURL_def demo_plugin_state demo_pool_def)
  have "fmlookup (buckets (exchangeLimiter demo_plugin)) (''exchange:'' @ rateKey (peerIP None)) = None" "1 \<le> burst (exchangeLimiter demo_plugin)"
    by (simp_all add: demo_plugin_state newLimiter_def)
  from admit_fresh [OF this, of demo_authlib "demo_clocks 5000"] obtain l'
    where "admit demo_authlib (demo_clocks 5000) (peerIP None) (Some (exchangeLimiter demo_plugin)) = (None, Some l')" by blast
  from demo_login [OF demo_plugin_state(1,2) t this c] that show thesis by blast
qed

theorem plugin_no_replay_witness:
  "let x = exchangeRPC demo_env demo_authlib demo_idp (demo_clocks 5000) None demo_req demo_plugin in
   fst x = Ok demo_resp \<and>
   fst (exchangeRPC demo_env demo_authlib demo_idp (demo_clocks 6000) None demo_req (snd x)) \<noteq> Ok demo_resp"
proof -
  obtain st1 where x: "exchangeRPC demo_env demo_authlib demo_idp (demo_clocks 5000) None demo_req demo_plugin = (Ok demo_resp, st1)"
    by (rule demo_plugin_login)
  have E: "jsonb_law (ev_pg demo_env)" "timestamp_law (ev_pg demo_env)" using demo_pg_laws by (simp_all add: demo_env_def)
  have v: "\<forall>u. row_valid (ev_lib demo_env) freshDb" by (simp add: row_valid_fresh)
  have run: "demo_plugin = fold (plugin_step demo_env) [PConfigure demo_discovery plugin_entries] (boot (\<lambda>_. freshDb))"
    by (simp add: demo_plugin_def demo_boot_def)
  have i: "ps_issuedAt (readState (xr_provider_state demo_req)) \<noteq> []"
    "time_parse demo_authlib (ps_issuedAt (readState (xr_provider_state demo_req))) = Some 2"
    by (simp_all add: readState_def demo_req_def providerState_def demo_authlib_def Let_def string_at_def fmlookup_of_list)
  have "storeURL st1 = storeURL demo_plugin"
    using x by (auto simp: exchangeRPC_def authBack_def storeURL_def split: prod.splits)
  from plugin_no_replay [OF E v run x _ _ this refl i, of "[]" "demo_clocks 6000" demo_idp None demo_resp] x
  show ?thesis by (simp add: demo_clocks_def microsecond_def)
qed

end
