(* ===== verification/Plugin_Concurrent.thy ===== *)
theory Plugin_Concurrent
  imports Plugin_Runs "HOL-Library.Multiset"
begin

text \<open>
  The plugin with overlapping RPCs. gRPC serves every call on its own goroutine, \<^verbatim>\<open>main.go\<close> takes no lock, and each
  pointer is swapped atomically but on its own. A step of the world is: the database phase of a \<^verbatim>\<open>Configure\<close> or of an admin
  update, one pointer write of a call under way, or one of the two halves of a login, which reads the configuration before the
  provider. The statements of one database phase are not interleaved with other statements on the same database.
\<close>

subsection \<open>The world\<close>

datatype thread = Writing "ptr_write list" | Exchanging Config

record world =
  live :: plugin
  threads :: "thread list"

text \<open>One pointer write of a thread.\<close>

inductive advance :: "world \<Rightarrow> world \<Rightarrow> bool" where
  advance: "threads w = xs @ Writing (a # ws) # ys \<Longrightarrow>
    advance w \<lparr>live = perform a (live w), threads = xs @ Writing ws # ys\<rparr>"

definition loginWith ::
  "env \<Rightarrow> Config \<Rightarrow> authlib \<Rightarrow> idp \<Rightarrow> clocks \<Rightarrow> string option \<Rightarrow> ExchangeCodeRequest \<Rightarrow> plugin \<Rightarrow>
   (status, AuthenticateResponse) result \<times> plugin" where
  "loginWith E cfg al I ck peer req st =
     (case ExchangeCode (ev_lib E) al I ((authServer (ev_pg E) st)\<lparr>cfgFn := cfg\<rparr>) ck peer req (authView st) of
        (r, s) \<Rightarrow> (r, authBack st s))"

inductive wstep :: "env \<Rightarrow> world \<Rightarrow> world \<Rightarrow> bool" for E where
  configure: "LoadConfig (ev_lib E) entries = Ok cfg \<Longrightarrow> prepare E cfg (live w) = (Ok (p, eff), st1) \<Longrightarrow>
    wstep E w \<lparr>live = st1, threads = Writing (configWrites (ev_lib E) disc p eff @ [SetSnapshot cfg]) # threads w\<rparr>"
| configure_fails: "LoadConfig (ev_lib E) entries = Ok cfg \<Longrightarrow> prepare E cfg (live w) = (Err e, st1) \<Longrightarrow>
    wstep E w \<lparr>live = st1, threads = threads w\<rparr>"
| update: "storePtr (live w) = Some p \<Longrightarrow> onPool (UpdateConfig (ev_lib E) (ev_pg E) next) p (live w) = (None, st1) \<Longrightarrow>
    wstep E w \<lparr>live = st1, threads = Writing (applyWrites (ev_lib E) disc next) # threads w\<rparr>"
| update_fails: "storePtr (live w) = Some p \<Longrightarrow> onPool (UpdateConfig (ev_lib E) (ev_pg E) next) p (live w) = (Some e, st1) \<Longrightarrow>
    wstep E w \<lparr>live = st1, threads = threads w\<rparr>"
| begin_login: "wstep E w \<lparr>live = live w, threads = Exchanging (liveConfig (live w)) # threads w\<rparr>"
| end_login: "threads w = xs @ Exchanging cfg # ys \<Longrightarrow>
    wstep E w \<lparr>live = snd (loginWith E cfg al I ck peer req (live w)), threads = xs @ ys\<rparr>"
| pointer_write: "advance w w' \<Longrightarrow> wstep E w w'"

inductive reachable :: "env \<Rightarrow> world \<Rightarrow> world \<Rightarrow> bool" for E w0 where
  initially: "reachable E w0 w0"
| later: "reachable E w0 w \<Longrightarrow> wstep E w w' \<Longrightarrow> reachable E w0 w'"

definition start :: "(string \<Rightarrow> db) \<Rightarrow> world" where
  "start dbs = \<lparr>live = boot dbs, threads = []\<rparr>"

fun writesOf :: "thread \<Rightarrow> ptr_write list" where
  "writesOf (Writing ws) = ws"
| "writesOf (Exchanging c) = []"

definition outstanding :: "world \<Rightarrow> ptr_write list" where
  "outstanding w = concat (map writesOf (threads w))"

definition quiescent :: "world \<Rightarrow> bool" where
  "quiescent w \<longleftrightarrow> outstanding w = []"

subsection \<open>What every interleaving keeps\<close>

fun swapIds :: "ptr_write \<Rightarrow> nat list" where
  "swapIds (SwapPool p) = [pl_id p]"
| "swapIds _ = []"

text \<open>The pools that are published or will be swapped in.\<close>

definition accounted :: "world \<Rightarrow> nat multiset" where
  "accounted w = mset (case poolPtr (live w) of None \<Rightarrow> [] | Some p \<Rightarrow> [pl_id p]) + mset (concat (map swapIds (outstanding w)))"

definition pools_ok :: "world \<Rightarrow> bool" where
  "pools_ok w \<longleftrightarrow> mset (openPools (live w)) = accounted w \<and> distinct (openPools (live w)) \<and> pools_numbered (live w)"

text \<open>A write that may be performed: valid configurations, providers built from valid configurations.\<close>

fun write_ok :: "env \<Rightarrow> ptr_write \<Rightarrow> bool" where
  "write_ok E (SetCfg c) \<longleftrightarrow> config_ok (ev_lib E) c"
| "write_ok E (SetProv p) \<longleftrightarrow> pred_option (\<lambda>p. \<exists>c. config_ok (ev_lib E) c \<and> provider_of (ev_lib E) c p) p"
| "write_ok E _ \<longleftrightarrow> True"

definition values_ok :: "env \<Rightarrow> world \<Rightarrow> bool" where
  "values_ok E w \<longleftrightarrow> rows_valid E (live w) \<and> pred_option (config_ok (ev_lib E)) (cfgPtr (live w)) \<and>
     write_ok E (SetProv (provPtr (live w))) \<and> list_all (write_ok E) (outstanding w)"

text \<open>A provider, live or on its way, comes with a store that is live or on its way.\<close>

definition arming :: "world \<Rightarrow> bool" where
  "arming w \<longleftrightarrow>
     (provPtr (live w) \<noteq> None \<or> list_ex (\<lambda>a. \<exists>p. a = SetProv (Some p)) (outstanding w) \<longrightarrow>
      storePtr (live w) \<noteq> None \<or> list_ex (\<lambda>a. \<exists>p. a = SetStore p) (outstanding w))"

definition sound :: "env \<Rightarrow> world \<Rightarrow> bool" where
  "sound E w \<longleftrightarrow> values_ok E w \<and> pools_ok w \<and> arming w"

lemmas sound_defs = sound_def values_ok_def pools_ok_def arming_def accounted_def

lemma outstanding_fork [simp]: "outstanding \<lparr>live = st, threads = t # threads w\<rparr> = writesOf t @ outstanding w"
  by (simp add: outstanding_def)

lemma outstanding_threads: "outstanding \<lparr>live = st, threads = threads w\<rparr> = outstanding w"
  by (simp add: outstanding_def)

lemma applyWrites_ok: "config_ok (ev_lib E) c \<Longrightarrow> list_all (write_ok E) (applyWrites (ev_lib E) disc c)"
  using buildProvider_Some [of "ev_lib E" disc c]
  by (cases "buildProvider (ev_lib E) disc c"; cases "fst (buildProvider (ev_lib E) disc c)") (auto simp: applyWrites_def)

lemma applyWrites_swaps: "map swapIds (applyWrites lib disc c) = [[], [], []]"
  "\<not> list_ex (\<lambda>a. \<exists>p. a = SetStore p) (applyWrites lib disc c)"
  by (simp_all add: applyWrites_def split: prod.split)

lemma sound_advance:
  assumes "sound E w" "advance w w'"
  shows "sound E w'"
  using assms(2)
proof (cases rule: advance.cases)
  case (advance xs a ws ys)
  let ?before = "concat (map writesOf xs)" and ?after = "ws @ concat (map writesOf ys)"
  have o: "outstanding w = ?before @ a # ?after" "outstanding w' = ?before @ ?after" "live w' = perform a (live w)"
    using advance by (simp_all add: outstanding_def)
  have v: "values_ok E w'"
    using assms(1) o by (cases a) (auto simp: sound_def values_ok_def rows_valid_def split: option.split)
  have "pools_ok w'"
  proof (cases a)
    case (SwapPool p)
    with assms(1) o show ?thesis
      by (cases "poolPtr (live w)")
        (auto simp: sound_defs pools_numbered_def list_all_iff distinct_remove1_removeAll [symmetric] intro: distinct_remove1)
  qed (use assms(1) o in \<open>simp_all add: sound_defs pools_numbered_def\<close>)
  moreover have "arming w'"
    using assms(1) o by (cases a) (auto simp: sound_def arming_def split: option.split)
  ultimately show ?thesis using v by (simp add: sound_def)
qed

lemma loginWith_evolves:
  assumes "ck_db ck \<le> t"
  shows "dbs_evolve E t st (snd (loginWith E cfg al I ck peer req st))"
  using loginDb_evolves [OF assms, of "(authServer (ev_pg E) st)\<lparr>cfgFn := cfg\<rparr>" E st al I peer req]
  by (auto simp: loginWith_def dbs_evolve_def authBack_def authView_def split: prod.split)

text \<open>A step that leaves the pointers and the threads alone and only lets databases evolve.\<close>

lemma sound_frame:
  assumes "sound E w" "jsonb_law (ev_pg E)" "dbs_evolve E t (live w) st" "outstanding w' = outstanding w" "live w' = st"
    and "cfgPtr st = cfgPtr (live w)" "provPtr st = provPtr (live w)" "storePtr st = storePtr (live w)" "poolPtr st = poolPtr (live w)"
    and "openPools st = openPools (live w)" "nextPool (live w) \<le> nextPool st"
  shows "sound E w'"
proof -
  have "rows_valid E st" using rows_valid_evolve [OF assms(3,2)] assms(1) by (simp add: sound_def values_ok_def)
  moreover have "pools_numbered st"
  proof -
    have "pools_numbered (live w)" using assms(1) by (simp add: sound_def pools_ok_def)
    with assms(10,11) show ?thesis by (fastforce simp: pools_numbered_def list_all_iff)
  qed
  ultimately show ?thesis using assms by (simp add: sound_defs)
qed

lemma configWrites_facts:
  "map swapIds (configWrites lib disc p c) = [[], [], [], [], [], [pl_id p]]"
  "list_ex (\<lambda>a. \<exists>p. a = SetStore p) (configWrites lib disc p c)"
  by (simp_all add: configWrites_def applyWrites_swaps)

lemma sound_configure:
  assumes "sound E w" "jsonb_law (ev_pg E)" "prepare E cfg (live w) = (Ok (p, eff), st1)"
  shows "sound E \<lparr>live = st1, threads = Writing (configWrites (ev_lib E) disc p eff @ [SetSnapshot cfg]) # threads w\<rparr>"
proof -
  have num: "pools_numbered (live w)" and rows: "rows_valid E (live w)"
    using assms(1) by (simp_all add: sound_def pools_ok_def values_ok_def)
  from assms(3) num show ?thesis
  proof (cases rule: prepare_cases [where t = 0])
    case (ready p' eff' dbs)
    then have p: "p' = p" "eff' = eff" by simp_all
    have eff: "config_ok (ev_lib E) eff" using ready(7) p assms(2) rows by blast
    then have "list_all (write_ok E) (configWrites (ev_lib E) disc p eff)"
      using applyWrites_ok [OF eff, of disc] by (simp add: configWrites_def)
    moreover have "rows_valid E st1" by (rule rows_valid_evolve [OF ready(6) assms(2) rows])
    moreover have "nextPool (live w) \<notin> set (openPools (live w))"
      using num by (auto simp: pools_numbered_def list_all_iff)
    moreover have "pools_numbered st1"
      using num ready(2) by (fastforce simp: pools_numbered_def list_all_iff)
    ultimately show ?thesis
      using assms(1) ready(2,3) p by (simp add: sound_defs configWrites_facts)
  qed simp
qed

lemma sound_update:
  assumes "sound E w" "jsonb_law (ev_pg E)" "storePtr (live w) = Some p"
    and "onPool (UpdateConfig (ev_lib E) (ev_pg E) c) p (live w) = (r, st1)"
    and "ts = threads w \<or> r = None \<and> ts = Writing (applyWrites (ev_lib E) disc c) # threads w"
  shows "sound E \<lparr>live = st1, threads = ts\<rparr>"
proof -
  have e: "dbs_evolve E 0 (live w) st1" by (rule onPool_evolves [OF assms(4), of _ "OpUpdate c"]) (simp_all add: op_within_def)
  have st1: "\<exists>dbs. st1 = (live w)\<lparr>databases := dbs\<rparr>"
    using assms(4) by (cases rule: onPool_cases) (auto intro: exI [of _ "databases (live w)"])
  let ?w1 = "\<lparr>live = st1, threads = threads w\<rparr>"
  have s1: "sound E ?w1"
    by (rule sound_frame [OF assms(1,2) e]) (use st1 in \<open>auto simp: outstanding_threads\<close>)
  from assms(5) show ?thesis
  proof (elim disjE conjE)
    assume r: "r = None" and ts: "ts = Writing (applyWrites (ev_lib E) disc c) # threads w"
    have "config_ok (ev_lib E) c" by (rule onPool_UpdateConfig_valid [OF assms(4) r])
    from applyWrites_ok [OF this, of disc] s1 show ?thesis
      using st1 assms(3) unfolding ts sound_defs
      by (auto simp: applyWrites_swaps outstanding_threads)
  qed (use s1 in simp)
qed

lemma sound_login:
  assumes "sound E w" "jsonb_law (ev_pg E)" "outstanding w' = outstanding w" "live w' = snd (loginWith E cfg al I ck peer req (live w))"
  shows "sound E w'"
  by (rule sound_frame [OF assms(1,2) loginWith_evolves [OF order_refl] assms(3,4)])
    (simp_all add: loginWith_def authBack_def split: prod.split)

lemma sound_wstep:
  assumes "sound E w" "jsonb_law (ev_pg E)" "wstep E w w'"
  shows "sound E w'"
  using assms(3)
proof (cases rule: wstep.cases)
  case (configure_fails entries cfg e st1)
  have "pools_numbered (live w)" using assms(1) by (simp add: sound_def pools_ok_def)
  with configure_fails(3) show ?thesis
  proof (cases rule: prepare_cases [where t = 0])
    case (failed e n dbs)
    show ?thesis unfolding configure_fails(1)
      by (rule sound_frame [OF assms(1,2) failed(4)]) (use failed in \<open>simp_all add: outstanding_threads\<close>)
  qed simp
next
  case begin_login
  have "dbs_evolve E 0 (live w) (live w)" by simp
  from sound_frame [OF assms(1,2) this] begin_login show ?thesis by (simp add: outstanding_def)
next
  case (end_login xs cfg ys al I ck peer req)
  then show ?thesis by (intro sound_login [OF assms(1,2)]) (simp_all add: outstanding_def)
qed (use assms sound_configure sound_update sound_advance in blast)+

lemma sound_start: "\<forall>u. row_valid (ev_lib E) (dbs u) \<Longrightarrow> sound E (start dbs)"
  by (simp add: sound_defs start_def boot_def rows_valid_def pools_numbered_def outstanding_def)

lemma sound_reachable:
  assumes "jsonb_law (ev_pg E)" "sound E w0" "reachable E w0 w"
  shows "sound E w"
  using assms(3) by induction (use assms sound_wstep in blast)+

text \<open>
  C11: no interleaving lets an unvalidated value go live. However reconfigurations, admin updates and logins overlap, the live
  configuration passed validation and the live provider was built from a validated configuration, with pinned algorithms, the
  \<^verbatim>\<open>openid\<close> scope and loopback only for a local issuer; and whenever no write is outstanding a live provider has a
  store behind its replay guard.
\<close>

theorem concurrent_sound:
  assumes "jsonb_law (ev_pg E)" and "\<forall>u. row_valid (ev_lib E) (dbs u)" and "reachable E (start dbs) w"
  shows "pred_option (config_ok (ev_lib E)) (cfgPtr (live w)) \<and>
    pred_option (\<lambda>p. \<exists>c. config_ok (ev_lib E) c \<and> provider_of (ev_lib E) c p) (provPtr (live w)) \<and>
    (quiescent w \<and> provPtr (live w) \<noteq> None \<longrightarrow> storePtr (live w) \<noteq> None)"
  using sound_reachable [OF assms(1) sound_start [OF assms(2)] assms(3)]
  by (auto simp: sound_def values_ok_def arming_def quiescent_def)

text \<open>
  C19: no pool leaks. In every interleaving the open pools are, each once, the published pool and those a \<^verbatim>\<open>Configure\<close> under way
  still has to publish; so at rest at most one pool is open, however many calls succeeded or failed.
\<close>

theorem pools_accounted:
  assumes "jsonb_law (ev_pg E)" and "\<forall>u. row_valid (ev_lib E) (dbs u)" and "reachable E (start dbs) w"
  shows "mset (openPools (live w)) = accounted w \<and> distinct (openPools (live w)) \<and>
    (quiescent w \<longrightarrow> openPools (live w) = (case poolPtr (live w) of None \<Rightarrow> [] | Some p \<Rightarrow> [pl_id p]))"
proof -
  have ok: "pools_ok w" using sound_reachable [OF assms(1) sound_start [OF assms(2)] assms(3)] by (simp add: sound_def)
  have "openPools (live w) = (case poolPtr (live w) of None \<Rightarrow> [] | Some p \<Rightarrow> [pl_id p])" if "quiescent w"
    using that ok by (cases "poolPtr (live w)") (simp_all add: pools_ok_def accounted_def quiescent_def)
  with ok show ?thesis by (simp add: pools_ok_def)
qed

subsection \<open>Schedules\<close>

lemma reachable_writes:
  assumes "reachable E w0 w" "threads w = xs @ Writing (as @ ws) # ys"
  shows "reachable E w0 \<lparr>live = fold perform as (live w), threads = xs @ Writing ws # ys\<rparr>"
  using assms
proof (induction as arbitrary: w)
  case Nil
  then show ?case by (cases w) simp
next
  case (Cons a as)
  let ?w1 = "\<lparr>live = perform a (live w), threads = xs @ Writing (as @ ws) # ys\<rparr>"
  have "wstep E w ?w1" using Cons.prems(2) by (intro pointer_write advance.intros) simp
  with Cons.prems(1) have "reachable E w0 ?w1" by (rule later)
  from Cons.IH [OF this] show ?case by simp
qed

definition demo_cfg :: Config where
  "demo_cfg = demo_live\<lparr>DatabaseURL := ''pg''\<rparr>"

lemma demo_cfg_loads: "LoadConfig (ev_lib demo_env) plugin_entries = Ok demo_cfg" by code_simp

definition demo_start :: world where
  "demo_start = start (\<lambda>_. freshDb)"

lemma demo_start_live: "live demo_start = demo_boot" "threads demo_start = []"
  by (simp_all add: demo_start_def start_def demo_boot_def)

lemma demo_applyWrites:
  "applyWrites (ev_lib demo_env) demo_discovery demo_live = [SetErr None, SetCfg demo_live, SetProv (Some demo_provider)]"
proof -
  have "buildProvider (ev_lib demo_env) demo_discovery demo_live = (Some demo_provider, None)" by code_simp
  then show ?thesis by (simp add: applyWrites_def)
qed

text \<open>The first half of the first \<^verbatim>\<open>Configure\<close>: configuration and provider are published, the store is not.\<close>

lemma half_configured:
  obtains w dbs where "reachable demo_env demo_start w" "storePtr (live w) = None" "provPtr (live w) = Some demo_provider"
    "cfgPtr (live w) = Some demo_live" "exchangeLimiter (live w) = newLimiter (rnd64 (5 / 60)) 10"
proof -
  obtain dbs where p: "prepare demo_env demo_cfg (live demo_start) =
      (Ok (demo_pool, demo_live), demo_boot\<lparr>nextPool := 1, openPools := [0], databases := dbs\<rparr>)"
    unfolding demo_start_live demo_cfg_def by (rule demo_prepare)
  let ?st = "demo_boot\<lparr>nextPool := 1, openPools := [0], databases := dbs\<rparr>"
  have "reachable demo_env demo_start \<lparr>live = ?st, threads =
      Writing (configWrites (ev_lib demo_env) demo_discovery demo_pool demo_live @ [SetSnapshot demo_cfg]) # threads demo_start\<rparr>"
    by (rule later [OF initially configure [OF demo_cfg_loads p]])
  from reachable_writes [OF this, of "[]" "applyWrites (ev_lib demo_env) demo_discovery demo_live"
      "[SetStore demo_pool, SetHttp, SwapPool demo_pool, SetSnapshot demo_cfg]" "[]"]
  have "reachable demo_env demo_start \<lparr>live = fold perform (applyWrites (ev_lib demo_env) demo_discovery demo_live) ?st,
      threads = [Writing [SetStore demo_pool, SetHttp, SwapPool demo_pool, SetSnapshot demo_cfg]]\<rparr>"
    by (simp add: configWrites_def demo_start_live)
  then show thesis by (rule that) (simp_all add: demo_applyWrites demo_boot_def boot_def)
qed

theorem concurrent_sound_witness:
  "\<exists>w. reachable demo_env demo_start w \<and> pred_option (config_ok demo_lib) (cfgPtr (live w)) \<and> cfgPtr (live w) = Some demo_live \<and>
     pred_option (\<lambda>p. \<exists>c. config_ok demo_lib c \<and> provider_of demo_lib c p) (provPtr (live w))"
proof -
  obtain w where w: "reachable demo_env demo_start w" "cfgPtr (live w) = Some demo_live" by (rule half_configured)
  have E: "jsonb_law (ev_pg demo_env)" "ev_lib demo_env = demo_lib" using demo_pg_laws(1) by (simp_all add: demo_env_def)
  have "\<forall>u. row_valid (ev_lib demo_env) ((\<lambda>_. freshDb) u)" by (simp add: row_valid_fresh)
  from concurrent_sound [OF E(1) this w(1) [unfolded demo_start_def]] w show ?thesis unfolding E(2) by blast
qed

theorem pools_accounted_witness:
  "\<exists>w. reachable demo_env demo_start w \<and> mset (openPools (live w)) = accounted w"
proof -
  obtain w where w: "reachable demo_env demo_start w" "cfgPtr (live w) = Some demo_live" by (rule half_configured)
  have E: "jsonb_law (ev_pg demo_env)" using demo_pg_laws(1) by (simp add: demo_env_def)
  have "\<forall>u. row_valid (ev_lib demo_env) ((\<lambda>_. freshDb) u)" by (simp add: row_valid_fresh)
  from pools_accounted [OF E this w(1) [unfolded demo_start_def]] w(1) show ?thesis by blast
qed

subsection \<open>Two windows\<close>

text \<open>
  C17: the replay guard is not armed while the first \<^verbatim>\<open>Configure\<close> publishes. The provider is stored before the store, so there is a
  reachable state in which logins work and \<^const>\<open>consumeNonce\<close> accepts everything: the same callback, presented by two
  callers, succeeds twice.
\<close>

theorem replay_window:
  "\<exists>w st1 st2. reachable demo_env demo_start w \<and>
     exchangeRPC demo_env demo_authlib demo_idp (demo_clocks 5000) (Some ''10.0.0.1:4000'') demo_req (live w) = (Ok demo_resp, st1) \<and>
     exchangeRPC demo_env demo_authlib demo_idp (demo_clocks 6000) (Some ''10.0.0.2:4000'') demo_req st1 = (Ok demo_resp, st2)"
proof -
  obtain w where w: "reachable demo_env demo_start w" "storePtr (live w) = None" "provPtr (live w) = Some demo_provider"
    "cfgPtr (live w) = Some demo_live" "exchangeLimiter (live w) = newLimiter (rnd64 (5 / 60)) 10" by (rule half_configured)
  let ?k = "\<lambda>peer. ''exchange:'' @ rateKey (peerIP (Some peer))"
  have k: "?k ''10.0.0.2:4000'' \<noteq> ?k ''10.0.0.1:4000''" by code_simp
  have t: "(0::int) \<le> 5000" "5000 \<le> stateTTL" "(0::int) \<le> 6000" "6000 \<le> stateTTL" by (simp_all add: stateTTL_def duration_defs)
  have f: "fmlookup (buckets (exchangeLimiter (live w))) x = None" "1 \<le> burst (exchangeLimiter (live w))" for x
    by (simp_all add: w(5) newLimiter_def)
  obtain l1 where l1: "admit demo_authlib (demo_clocks 5000) (peerIP (Some ''10.0.0.1:4000'')) (Some (exchangeLimiter (live w))) = (None, Some l1)"
    and b1: "burst l1 = burst (exchangeLimiter (live w))"
    and o1: "\<forall>k. k \<noteq> ?k ''10.0.0.1:4000'' \<longrightarrow> fmlookup (buckets (exchangeLimiter (live w))) k = None \<longrightarrow> fmlookup (buckets l1) k = None"
    using admit_fresh [OF f, where ip = "peerIP (Some ''10.0.0.1:4000'')" and al = demo_authlib and ck = "demo_clocks 5000"] by blast
  have l1': "fmlookup (buckets l1) (?k ''10.0.0.2:4000'') = None" "1 \<le> burst l1"
    using o1 [rule_format, OF k f(1)] b1 f(2) by simp_all
  have n: "consumeNonce demo_pg st now n e d = (None, d)" if "storePtr st = None" for st now n e d
    using that by (simp add: consumeNonce_def)
  from demo_login [OF w(3,4) t(1,2) l1 n [OF w(2)]] obtain lg where
    x1: "exchangeRPC demo_env demo_authlib demo_idp (demo_clocks 5000) (Some ''10.0.0.1:4000'') demo_req (live w) =
      (Ok demo_resp, authBack (live w) \<lparr>as_limiter = Some l1, as_log = lg, as_db = databases (live w) (storeURL (live w))\<rparr>)" by blast
  define st1 where "st1 = authBack (live w) \<lparr>as_limiter = Some l1, as_log = lg, as_db = databases (live w) (storeURL (live w))\<rparr>"
  have st1: "provPtr st1 = Some demo_provider" "cfgPtr st1 = Some demo_live" "storePtr st1 = None" "exchangeLimiter st1 = l1"
    using w by (simp_all add: st1_def authBack_def)
  from admit_fresh [OF l1', where al = demo_authlib and ck = "demo_clocks 6000"] obtain l2 where
    "admit demo_authlib (demo_clocks 6000) (peerIP (Some ''10.0.0.2:4000'')) (Some (exchangeLimiter st1)) = (None, Some l2)"
    unfolding st1(4) by blast
  from demo_login [OF st1(1,2) t(3,4) this n [OF st1(3)]] x1 w(1) show ?thesis unfolding st1_def by blast
qed

text \<open>On a closed pool the replay check fails, and with it the login.\<close>

lemma closed_store_refuses:
  assumes "storePtr st = Some p" "pl_id p \<notin> set (openPools st)"
  shows "fst (exchangeRPC E al I ck peer req st) \<noteq> Ok resp"
proof -
  have "fst (ConsumeNonce P now n e (d\<lparr>faults := closedFaults\<rparr>)) \<noteq> None" for P now n e d
    by (simp add: ConsumeNonce_def closedFaults_def numeral_2_eq_2 query_def attempt_def Let_def)
  then have "consumeNonce (ev_pg E) st now n e d \<noteq> (None, d')" for now n e d d'
    using assms by (auto simp: consumeNonce_def)
  then have "fst (ExchangeCode (ev_lib E) al I (authServer (ev_pg E) st) ck peer req (authView st)) \<noteq> Ok resp"
    by (auto simp: ExchangeCode_Ok_iff exchangeOutcome_Ok_iff consumeStep_None_iff)
  then show ?thesis by (auto simp: exchangeRPC_def split: prod.split)
qed

definition demo_pool2 :: pool where
  "demo_pool2 = \<lparr>pl_id = 1, pl_url = ''pg'', pl_MaxConns = 8\<rparr>"

lemma demo_prepare_again:
  assumes "dbs ''pg'' = snd (ImportLegacyConfig demo_lib demo_pg demo_cfg (snd (Migrate freshDb)))"
  obtains dbs' where "prepare demo_env demo_cfg (demo_boot\<lparr>nextPool := 1, openPools := [0], databases := dbs\<rparr>) =
    (Ok (demo_pool2, demo_live), demo_boot\<lparr>nextPool := 2, openPools := [1, 0], databases := dbs'\<rparr>)"
proof -
  let ?d = "snd (ImportLegacyConfig demo_lib demo_pg demo_cfg (snd (Migrate freshDb)))"
  have "fst (Migrate ?d) = None" by code_simp
  then obtain d1 where m: "Migrate (dbs ''pg'') = (None, d1)" using assms by (metis prod.collapse)
  have "fst (ImportLegacyConfig demo_lib demo_pg demo_cfg (snd (Migrate ?d))) = Ok demo_live" by code_simp
  then obtain d2 where i: "ImportLegacyConfig demo_lib demo_pg demo_cfg d1 = (Ok demo_live, d2)"
    using m assms by (cases "ImportLegacyConfig demo_lib demo_pg demo_cfg d1") simp
  have u: "DatabaseURL demo_cfg = ''pg''" by (simp add: demo_cfg_def)
  have "prepare demo_env demo_cfg (demo_boot\<lparr>nextPool := 1, openPools := [0], databases := dbs\<rparr>) =
    (Ok (demo_pool2, demo_live), demo_boot\<lparr>nextPool := 2, openPools := [1, 0], databases := dbs(''pg'' := d2)\<rparr>)"
    by (simp add: prepare_def demo_env_def onPool_def demo_boot_def boot_def u m i demo_pool2_def)
  with that show thesis .
qed

text \<open>
  C18: two overlapping \<^verbatim>\<open>Configure\<close> calls can end with every login refused. The store and the pool are published by two separate
  writes; when another call's writes fall in between, the pool of the live store is the one that gets closed. The state is at
  rest: it lasts until the next \<^verbatim>\<open>Configure\<close>.
\<close>

theorem configure_race:
  "\<exists>w p. reachable demo_env demo_start w \<and> quiescent w \<and> provPtr (live w) = Some demo_provider \<and>
     storePtr (live w) = Some p \<and> pl_id p \<notin> set (openPools (live w)) \<and>
     (\<forall>al I ck peer req resp. fst (exchangeRPC demo_env al I ck peer req (live w)) \<noteq> Ok resp)"
proof -
  obtain dbs where p1: "prepare demo_env demo_cfg (live demo_start) =
      (Ok (demo_pool, demo_live), demo_boot\<lparr>nextPool := 1, openPools := [0], databases := dbs\<rparr>)"
    and pg: "dbs ''pg'' = snd (ImportLegacyConfig demo_lib demo_pg demo_cfg (snd (Migrate freshDb)))"
    unfolding demo_start_live demo_cfg_def by (rule demo_prepare)
  obtain dbs' where p2: "prepare demo_env demo_cfg (demo_boot\<lparr>nextPool := 1, openPools := [0], databases := dbs\<rparr>) =
    (Ok (demo_pool2, demo_live), demo_boot\<lparr>nextPool := 2, openPools := [1, 0], databases := dbs'\<rparr>)"
    using pg by (rule demo_prepare_again [of dbs])
  let ?A = "applyWrites (ev_lib demo_env) demo_discovery demo_live"
  let ?W = "\<lambda>p. configWrites (ev_lib demo_env) demo_discovery p demo_live @ [SetSnapshot demo_cfg]"
  let ?st = "demo_boot\<lparr>nextPool := 2, openPools := [1, 0], databases := dbs'\<rparr>"
  define w1 where "w1 = \<lparr>live = demo_boot\<lparr>nextPool := 1, openPools := [0], databases := dbs\<rparr>, threads = Writing (?W demo_pool) # threads demo_start\<rparr>"
  have r1: "reachable demo_env demo_start w1"
    unfolding w1_def by (rule later [OF initially configure [OF demo_cfg_loads p1]])
  have "prepare demo_env demo_cfg (live w1) = (Ok (demo_pool2, demo_live), ?st)" using p2 by (simp add: w1_def)
  from later [OF r1 configure [OF demo_cfg_loads this]]
  have "reachable demo_env demo_start \<lparr>live = ?st, threads = Writing (?W demo_pool2) # threads w1\<rparr>" .
  from reachable_writes [OF this, of "[Writing (?W demo_pool2)]" "?A @ [SetStore demo_pool, SetHttp]" "[SwapPool demo_pool, SetSnapshot demo_cfg]" "[]"]
  have r2: "reachable demo_env demo_start \<lparr>live = fold perform (?A @ [SetStore demo_pool, SetHttp]) ?st,
      threads = [Writing (?W demo_pool2), Writing [SwapPool demo_pool, SetSnapshot demo_cfg]]\<rparr>"
    by (simp add: w1_def demo_start_live configWrites_def)
  from reachable_writes [OF r2, of "[]" "?W demo_pool2" "[]" "[Writing [SwapPool demo_pool, SetSnapshot demo_cfg]]"]
  have r3: "reachable demo_env demo_start \<lparr>live = fold perform (?W demo_pool2) (fold perform (?A @ [SetStore demo_pool, SetHttp]) ?st),
      threads = [Writing [], Writing [SwapPool demo_pool, SetSnapshot demo_cfg]]\<rparr>" by simp
  define w where "w = \<lparr>live = fold perform [SwapPool demo_pool, SetSnapshot demo_cfg]
      (fold perform (?W demo_pool2) (fold perform (?A @ [SetStore demo_pool, SetHttp]) ?st)), threads = [Writing [], Writing []]\<rparr>"
  from reachable_writes [OF r3, of "[Writing []]" "[SwapPool demo_pool, SetSnapshot demo_cfg]" "[]" "[]"]
  have r: "reachable demo_env demo_start w" unfolding w_def by simp
  have f: "provPtr (live w) = Some demo_provider" "storePtr (live w) = Some demo_pool2" "openPools (live w) = [0]" "quiescent w"
    by (simp_all add: w_def configWrites_def demo_applyWrites demo_boot_def boot_def closePool_def demo_pool_def demo_pool2_def
        quiescent_def outstanding_def)
  have c: "pl_id demo_pool2 \<notin> set (openPools (live w))" by (simp add: f(3) demo_pool2_def)
  with r f closed_store_refuses [OF f(2) c] show ?thesis by blast
qed

end
