(* ===== verification/Plugin_Limits.thy ===== *)
theory Plugin_Limits
  imports Plugin_Runs
begin

text \<open>
  What the limiter constants of \<^verbatim>\<open>main.go\<close> amount to: a bound on the callbacks one network address gets through.
\<close>

definition exchange_limiter :: "Limiter \<Rightarrow> bool" where
  "exchange_limiter l \<longleftrightarrow> limiter_ok l \<and> rate l = rnd64 (5 / 60) \<and> burst l = 10 \<and> ttl l = 10 * minute"

lemma exchange_limiter_boot: "exchange_limiter (exchangeLimiter (boot dbs))"
proof -
  have "limiter_ok (newLimiter (rnd64 (5 / 60)) 10)" by (rule newLimiter_ok) (simp add: rnd64_numeral)
  moreover have "\<not> rnd64 (5 / 60) \<le> 0" using rnd64_pos [of "5 / 60"] by (simp add: not_le del: rnd64_pos)
  then have "rate (newLimiter (rnd64 (5 / 60)) 10) = rnd64 (5 / 60)" by (simp add: newLimiter_def)
  ultimately show ?thesis by (simp add: exchange_limiter_def boot_def) (simp add: newLimiter_def)
qed

lemma exchange_limiter_Allow: "exchange_limiter l \<Longrightarrow> exchange_limiter (snd (Allow t k l))"
  using Allow_invariant [of l t k] by (simp add: exchange_limiter_def Allow_eq Let_def sweepLocked_def)

lemma exchangeOutcome_limiter:
  "as_limiter (snd (exchangeOutcome lib al I srv ck ip req s)) = snd (admit al ck ip (as_limiter s))"
  by (simp add: exchangeOutcome_def Let_def split: option.split prod.split)

lemma exchangeRPC_limiter:
  "exchangeLimiter (snd (exchangeRPC E al I ck peer req st)) =
   snd (Allow (ck_limit ck) (''exchange:'' @ rateKey (peerIP peer)) (exchangeLimiter st))"
proof -
  have "as_limiter (snd (ExchangeCode lib al I srv ck peer req s)) = snd (admit al ck (peerIP peer) (as_limiter s))" for lib srv s
    unfolding exchangeOutcome_limiter [symmetric, of al ck "peerIP peer" s lib I srv req]
    by (simp add: ExchangeCode_def Let_def split: prod.split)
  note x = this [of "ev_lib E" "authServer (ev_pg E) st" "authView st"]
  have "exchangeLimiter (snd (exchangeRPC E al I ck peer req st)) =
      the (as_limiter (snd (ExchangeCode (ev_lib E) al I (authServer (ev_pg E) st) ck peer req (authView st))))"
    by (simp add: exchangeRPC_def authBack_def split: prod.split)
  also have "\<dots> = the (snd (admit al ck (peerIP peer) (Some (exchangeLimiter st))))" unfolding x by (simp add: authView_def)
  also have "\<dots> = snd (Allow (ck_limit ck) (''exchange:'' @ rateKey (peerIP peer)) (exchangeLimiter st))"
    by (cases "Allow (ck_limit ck) (''exchange:'' @ rateKey (peerIP peer)) (exchangeLimiter st)") (simp add: admit_def split: prod.split)
  finally show ?thesis .
qed

lemma perform_limiter [simp]: "exchangeLimiter (perform a st) = exchangeLimiter st"
  by (cases a) (simp_all add: closePool_def split: option.split)

lemma performs_limiter [simp]: "exchangeLimiter (fold perform ws st) = exchangeLimiter st"
  by (induction ws arbitrary: st) simp_all

lemma closePool_limiter [simp]: "exchangeLimiter (closePool p st) = exchangeLimiter st"
  by (simp add: closePool_def)

lemma onPool_limiter: "onPool f p st = (r, st') \<Longrightarrow> exchangeLimiter st' = exchangeLimiter st"
  by (erule onPool_cases) simp_all

lemma prepare_limiter:
  assumes "prepare E cfg st = (r, st1)"
  shows "exchangeLimiter st1 = exchangeLimiter st"
proof -
  let ?st0 = "st\<lparr>nextPool := nextPool st + 1, openPools := nextPool st # openPools st\<rparr>"
  have pool: "exchangeLimiter st' = exchangeLimiter st" if "onPool f p ?st0 = (x, st')" for f p x st'
    using onPool_limiter [OF that] by simp
  show ?thesis
    using assms unfolding prepare_def Let_def
    by (auto dest!: pool onPool_limiter split: option.splits sum.splits prod.splits if_splits)
qed

lemma updateConfigFn_limiter: "exchangeLimiter (snd (updateConfigFn E disc c st)) = exchangeLimiter st"
proof (cases "storePtr st")
  case (Some p)
  obtain r st1 where "onPool (UpdateConfig (ev_lib E) (ev_pg E) c) p st = (r, st1)" by force
  with Some onPool_limiter [OF this] show ?thesis by (cases r) (simp_all add: updateConfigFn_def applyConfig_def)
qed (simp add: updateConfigFn_def)

interpretation backend_limiter: config_backend "adminDeps E disc" "\<lambda>a b. exchangeLimiter b = exchangeLimiter a" for E disc
  by unfold_locales (auto simp: adminDeps_def NewAdminServer_def updateConfigFn_limiter)

lemma Configure_limiter: "exchangeLimiter (snd (Configure E disc entries st)) = exchangeLimiter st"
proof (cases "LoadConfig (ev_lib E) entries")
  case (Inr cfg)
  obtain r st1 where "prepare E cfg st = (r, st1)" by force
  with prepare_limiter [OF this] Inr show ?thesis
    by (cases r) (auto simp: Configure_def onConfig_def)
qed (simp add: Configure_def)

lemma httpRPC_limiter: "exchangeLimiter (snd (httpRPC E S disc now q st)) = exchangeLimiter st"
proof -
  let ?s = "snd (Handle (se_render S) (se_other S) (httpSlot E S disc now st) q (adminView st))"
  have "exchangeLimiter (ad_app ?s) = exchangeLimiter (ad_app (adminView st))" by (rule backend_limiter.Handle_rel [OF httpSlot_backend])
  then show ?thesis by (simp add: httpRPC_app adminBack_def adminView_def)
qed

lemma plugin_step_limiter: "exchange_limiter (exchangeLimiter st) \<Longrightarrow> exchange_limiter (exchangeLimiter (plugin_step E op st))"
  by (cases op) (simp_all add: Configure_limiter httpRPC_limiter exchangeRPC_limiter exchange_limiter_Allow)

lemma plugin_run_limiter: "exchange_limiter (exchangeLimiter (fold (plugin_step E) ops (boot dbs)))"
proof -
  have "exchange_limiter (exchangeLimiter st) \<Longrightarrow> exchange_limiter (exchangeLimiter (fold (plugin_step E) ops st))" for st
    by (induction ops arbitrary: st) (simp_all add: plugin_step_limiter)
  with exchange_limiter_boot show ?thesis by blast
qed

text \<open>
  C22: the budget of a network address. At any time in the life of the plugin, whatever happened before, at most 15 of the calls to
  \<^verbatim>\<open>ExchangeCode\<close> that one address makes within a minute get past the limiter (the burst of ten and five more), the rounding of
  the float arithmetic included; the number of calls in the minute is taken to be below \<open>2^40\<close>.
\<close>

theorem exchange_budget:
  assumes "sorted (map fst calls)" and "\<forall>c\<in>set calls. T \<le> fst c \<and> fst c \<le> T + minute" and "length calls \<le> 2 ^ 40"
  shows "grantedTo (''exchange:'' @ rateKey ip) calls (exchangeLimiter (fold (plugin_step E) ops (boot dbs))) \<le> 15"
proof -
  let ?l = "exchangeLimiter (fold (plugin_step E) ops (boot dbs))" and ?n = "grantedTo (''exchange:'' @ rateKey ip) calls"
  have l: "limiter_ok ?l" "rate ?l = rnd64 (5 / 60)" "burst ?l = 10" "ttl ?l = 10 * minute"
    using plugin_run_limiter [of E ops dbs] by (simp_all add: exchange_limiter_def)
  have lo: "(1 - ulp1) * (5 / 60) \<le> rate ?l" and hi: "rate ?l \<le> (1 + ulp1) * (5 / 60)"
    unfolding l(2) using rnd64_lower [of "5 / 60"] rnd64_upper [of "5 / 60"] by simp_all
  have r: "refills_before_sweep ?l"
    using lo by (simp add: refills_before_sweep_def l(3,4) minute_def second_def ulp1_def)
  have "of_nat (?n ?l) \<le> 10 + c5 * rate ?l * 60 + 2 * ulp1 * 10 * of_nat (length calls)"
    using grantedTo_level [OF l(1) r assms(1,2), of "''exchange:'' @ rateKey ip"] level_le_burst [of T "''exchange:'' @ rateKey ip" ?l]
    by (simp add: l(3) minute_def second_def)
  also have "\<dots> \<le> 10 + c5 * ((1 + ulp1) * (5 / 60)) * 60 + 2 * ulp1 * 10 * 2 ^ 40"
  proof -
    have "c5 * rate ?l \<le> c5 * ((1 + ulp1) * (5 / 60))" by (rule mult_left_mono [OF hi]) simp
    moreover have "(of_nat (length calls) :: rat) \<le> 2 ^ 40"
      using assms(3) by (metis of_nat_le_iff of_nat_numeral of_nat_power)
    then have "2 * ulp1 * 10 * of_nat (length calls) \<le> 2 * ulp1 * 10 * (2 ^ 40 :: rat)"
      by (intro mult_left_mono) (simp_all add: ulp1_def)
    ultimately show ?thesis by linarith
  qed
  also have "\<dots> < of_nat 16" by (simp add: c5_def ulp1_def field_simps)
  finally show ?thesis by (simp only: of_nat_less_iff)
qed

theorem exchange_budget_witness:
  "grantedTo (''exchange:'' @ rateKey ''10.0.0.1'') [(0, ''exchange:10.0.0.1''), (second, ''exchange:10.0.0.1'')]
     (exchangeLimiter (fold (plugin_step demo_env) [PConfigure demo_discovery plugin_entries] demo_boot)) \<le> 15"
  unfolding demo_boot_def by (rule exchange_budget [where T = 0]) (simp_all add: second_def minute_def)

end
