(* ===== verification/Dialer.thy ===== *)
theory Dialer
  imports Secure_Http
begin

text \<open>
  \<^verbatim>\<open>SecureHTTPClient\<close> of \<^verbatim>\<open>internal/oidc/securehttp.go\<close> as a whole: which addresses a request through the hardened
  client can connect to. Parameters: the answers of the resolver, which may differ from call to call, and
  \<^verbatim>\<open>http.ProxyFromEnvironment\<close>. As \<^verbatim>\<open>net/http\<close> documents it, the transport dials the proxy when there is one for the
  request and the target otherwise; as \<^verbatim>\<open>net.Dialer\<close> documents it, \<^verbatim>\<open>Control\<close> runs on every resolved address
  before the connection to it is made, and its error ends that attempt.
\<close>

record http_client =
  hc_Timeout :: duration
  hc_DialTimeout :: duration
  hc_KeepAlive :: duration
  hc_ProxyFromEnvironment :: bool
  hc_Control :: "string \<Rightarrow> dial_error check"
  hc_MaxIdleConns :: nat
  hc_IdleConnTimeout :: duration
  hc_TLSHandshakeTimeout :: duration
  hc_ExpectContinueTimeout :: duration

definition SecureHTTPClient :: "bool \<Rightarrow> http_client" where
  "SecureHTTPClient allowLoopback =
     \<lparr>hc_Timeout = 30 * second, hc_DialTimeout = 10 * second, hc_KeepAlive = 30 * second, hc_ProxyFromEnvironment = True,
      hc_Control = (\<lambda>address. control address allowLoopback), hc_MaxIdleConns = 10, hc_IdleConnTimeout = 90 * second,
      hc_TLSHandshakeTimeout = 10 * second, hc_ExpectContinueTimeout = second\<rparr>"

text \<open>The host and port the transport dials for a request.\<close>

definition dialTarget :: "http_client \<Rightarrow> (string \<Rightarrow> string option) \<Rightarrow> string \<Rightarrow> string" where
  "dialTarget c proxy target =
     (case (if hc_ProxyFromEnvironment c then proxy target else None) of None \<Rightarrow> target | Some p \<Rightarrow> p)"

text \<open>The addresses connected to, out of those the resolver gave at that moment.\<close>

definition connections :: "http_client \<Rightarrow> (string \<Rightarrow> string option) \<Rightarrow> (string \<Rightarrow> string list) \<Rightarrow> string \<Rightarrow> string list" where
  "connections c proxy resolve target = filter (\<lambda>a. hc_Control c a = None) (resolve (dialTarget c proxy target))"

text \<open>
  C23: the policy is enforced on the address that is dialled, whatever the resolver says. With no proxy in the environment, every
  connection for a request goes to an address of the target that is outside the blocked networks and, unless the issuer is local, the
  loopback networks; a name that resolves differently the second time (rebinding) gains nothing.
\<close>

theorem dialed_allowed:
  assumes "proxy target = None" and "a \<in> set (connections (SecureHTTPClient allow) proxy resolve target)"
  shows "a \<in> set (resolve target) \<and>
    (\<exists>ip. ParseIP (case SplitHostPort a of Err _ \<Rightarrow> a | Ok (h, _) \<Rightarrow> h) = Some ip \<and>
       list_all (\<lambda>net. \<not> in_net net ip) (blocked_nets @ (if allow then [] else loopback_nets)))"
proof -
  from assms have a: "a \<in> set (resolve target)" "control a allow = None"
    by (simp_all add: connections_def SecureHTTPClient_def dialTarget_def)
  from a(2) obtain ip where ip: "ParseIP (case SplitHostPort a of Err _ \<Rightarrow> a | Ok (h, _) \<Rightarrow> h) = Some ip" "\<not> isBlockedIP ip allow"
    by (auto simp: control_None_iff)
  from isBlockedIP_iff [OF ParseIP_length [OF ip(1)], of allow] ip(2)
  have "list_all (\<lambda>net. \<not> in_net net ip) (blocked_nets @ (if allow then [] else loopback_nets))" by (auto simp: list_all_iff)
  with a(1) ip(1) show ?thesis by blast
qed

text \<open>A name that resolves to a public and to the metadata address: only the public one is dialled.\<close>

definition demo_resolve :: "string \<Rightarrow> string list" where
  "demo_resolve _ = [''169.254.169.254:443'', ''93.184.216.34:443'']"

theorem dialed_allowed_witness:
  "connections (SecureHTTPClient False) (\<lambda>_. None) demo_resolve ''idp.example:443'' = [''93.184.216.34:443''] \<and>
   (\<exists>ip. ParseIP ''93.184.216.34'' = Some ip \<and> list_all (\<lambda>net. \<not> in_net net ip) (blocked_nets @ loopback_nets))"
proof -
  have c: "connections (SecureHTTPClient False) (\<lambda>_. None) demo_resolve ''idp.example:443'' = [''93.184.216.34:443'']" by code_simp
  have s: "SplitHostPort ''93.184.216.34:443'' = Ok (''93.184.216.34'', ''443'')" by code_simp
  from dialed_allowed [of "\<lambda>_. None" "''idp.example:443''" "''93.184.216.34:443''" False demo_resolve] c s show ?thesis by simp
qed

text \<open>With a proxy for the request only the proxy's address is checked: the connections do not depend on the target's addresses.\<close>

lemma proxied_target_unchecked:
  "proxy target = Some p \<Longrightarrow>
   connections (SecureHTTPClient allow) proxy resolve target = filter (\<lambda>a. control a allow = None) (resolve p)"
  by (simp add: connections_def SecureHTTPClient_def dialTarget_def)

end
