(* ===== verification/Oidc_Test.thy ===== *)
theory Oidc_Test
  imports Http_Routes
begin

text \<open>
  \<^verbatim>\<open>internal/oidctest/idp.go\<close>: the fake identity provider the plugin's tests run against. Parameters: the URL
  \<^verbatim>\<open>httptest\<close> listens on, the marshalled key set, the signer of \<^verbatim>\<open>go-jose\<close>, the JSON number of a Unix time, and the order in which
  Go iterates the map of issued tokens. A failing test helper (\<^verbatim>\<open>t.Fatalf\<close>) is \<^const>\<open>None\<close>.
\<close>

record TokenIssue =
  ti_IDToken :: string
  ti_AccessToken :: string
  ti_UserInfo :: "claims option"

record IdP =
  ip_URL :: string
  ip_ClientID :: string
  ip_jwks :: string
  ip_tokens :: "(string, TokenIssue) fmap"

definition NewIdP :: "string \<Rightarrow> string option \<Rightarrow> string \<Rightarrow> IdP option" where
  "NewIdP url jwks clientID = map_option (\<lambda>j. \<lparr>ip_URL = url, ip_ClientID = clientID, ip_jwks = j, ip_tokens = fmempty\<rparr>) jwks"

definition idpDiscovery :: "IdP \<Rightarrow> body http_response" where
  "idpDiscovery i = \<lparr>rs_code = 200, rs_header = contentType ''application/json'',
     rs_body = encodeBody (obj
       [(''issuer'', JString (ip_URL i)), (''authorization_endpoint'', JString (ip_URL i @ ''/oauth/authorize'')),
        (''token_endpoint'', JString (ip_URL i @ ''/oauth/token'')), (''userinfo_endpoint'', JString (ip_URL i @ ''/oauth/userinfo'')),
        (''jwks_uri'', JString (ip_URL i @ ''/jwks.json'')),
        (''scopes_supported'', JArray [JString ''openid'', JString ''profile'', JString ''email'']),
        (''response_types_supported'', JArray [JString ''code'']),
        (''id_token_signing_alg_values_supported'', JArray [JString ''RS256''])])\<rparr>"

definition idpJWKS :: "IdP \<Rightarrow> body http_response" where
  "idpJWKS i = \<lparr>rs_code = 200, rs_header = contentType ''application/json'', rs_body = BText (ip_jwks i)\<rparr>"

definition idpToken :: "json \<Rightarrow> string \<Rightarrow> IdP \<Rightarrow> body http_response" where
  "idpToken expires code i =
     (case fmlookup (ip_tokens i) code of
        None \<Rightarrow> \<lparr>rs_code = 400, rs_header = fmempty,
          rs_body = BText (''{'' @ quote @ ''error'' @ quote @ '':'' @ quote @ ''invalid_code'' @ quote @ ''}'')\<rparr>
      | Some issue \<Rightarrow> \<lparr>rs_code = 200, rs_header = contentType ''application/json'',
          rs_body = encodeBody (obj [(''access_token'', JString (ti_AccessToken issue)), (''id_token'', JString (ti_IDToken issue)),
            (''token_type'', JString ''Bearer''), (''expires_in'', expires)])\<rparr>)"

text \<open>The issues in the order of the iteration.\<close>

definition idpUserinfo :: "TokenIssue list \<Rightarrow> http_request \<Rightarrow> body http_response" where
  "idpUserinfo issues r =
     (let auth = trimPrefix (headerGet (rq_header r) ''Authorization'') ''Bearer '' in
      case find (\<lambda>issue. ti_AccessToken issue = auth) issues of
        Some issue \<Rightarrow> \<lparr>rs_code = 200, rs_header = contentType ''application/json'',
          rs_body = encodeBody (case ti_UserInfo issue of None \<Rightarrow> JNull | Some c \<Rightarrow> JObject c)\<rparr>
      | None \<Rightarrow> \<lparr>rs_code = 401, rs_header = fmempty, rs_body = BEmpty\<rparr>)"

definition issueClaims :: "(instant \<Rightarrow> json) \<Rightarrow> instant \<Rightarrow> claims \<Rightarrow> IdP \<Rightarrow> claims" where
  "issueClaims unix now idTokenClaims i =
     fmadd (fmap_of_list [(''iss'', JString (ip_URL i)), (''aud'', JString (ip_ClientID i)), (''iat'', unix now),
       (''exp'', unix (now + 60 * minute))]) idTokenClaims"

definition IssueCode ::
  "(instant \<Rightarrow> json) \<Rightarrow> (claims \<Rightarrow> string option) \<Rightarrow> instant \<Rightarrow> claims \<Rightarrow> claims option \<Rightarrow> string \<Rightarrow> IdP \<Rightarrow>
   ((string \<times> string) \<times> IdP) option" where
  "IssueCode unix sign now idTokenClaims userInfo accessToken i =
     (case sign (issueClaims unix now idTokenClaims i) of
        None \<Rightarrow> None
      | Some idToken \<Rightarrow>
          let suffix = (if length accessToken > 8 then take 8 accessToken else accessToken);
              code = ''code-'' @ suffix
          in Some ((code, idToken), i\<lparr>ip_tokens := fmupd code
               \<lparr>ti_IDToken = idToken, ti_AccessToken = accessToken, ti_UserInfo = userInfo\<rparr> (ip_tokens i)\<rparr>))"

subsection \<open>An issued code can be redeemed\<close>

text \<open>The token endpoint answers for a code with what was issued last under it; codes are those of the first eight bytes of the
  access token, so a later issue with the same eight bytes takes over the code of an earlier one, and no other.\<close>

lemma IssueCode_token:
  assumes "IssueCode unix sign now c ui tk i = Some ((code, idToken), i')"
  shows "fmlookup (ip_tokens i') code = Some \<lparr>ti_IDToken = idToken, ti_AccessToken = tk, ti_UserInfo = ui\<rparr>"
    and "code = ''code-'' @ take 8 tk" and "sign (issueClaims unix now c i) = Some idToken"
    and "code' \<noteq> code \<Longrightarrow> fmlookup (ip_tokens i') code' = fmlookup (ip_tokens i) code'"
  using assms by (auto simp: IssueCode_def Let_def split: option.splits)

lemma IssueCode_takes_over:
  assumes "IssueCode unix sign now c ui tk i = Some ((code, idToken), i1)"
    and "IssueCode unix sign now' c' ui' tk' i1 = Some ((code', idToken'), i2)"
  shows "idpToken e code i2 = idpToken e code (if take 8 tk' = take 8 tk then i2 else i1)"
  using IssueCode_token [OF assms(1)] IssueCode_token [OF assms(2)] by (simp add: idpToken_def)

text \<open>Claims given by the test win over the defaults, so a test can issue a token with a wrong audience or issuer.\<close>

lemma issueClaims_lookup:
  "fmlookup (issueClaims unix now c i) k =
     (case fmlookup c k of Some v \<Rightarrow> Some v
      | None \<Rightarrow> if k = ''iss'' then Some (JString (ip_URL i)) else if k = ''aud'' then Some (JString (ip_ClientID i))
        else if k = ''iat'' then Some (unix now) else if k = ''exp'' then Some (unix (now + 60 * minute)) else None)"
  by (simp add: issueClaims_def fmlookup_dom_iff fmlookup_of_list split: option.split)

text \<open>The userinfo of an access token is that of an issue with this token: the one, whatever the iteration order, when no other has it.\<close>

lemma idpUserinfo_unique:
  assumes "x \<in> set issues" "\<forall>y\<in>set issues. ti_AccessToken y = ti_AccessToken x \<longrightarrow> y = x"
    and "headerGet (rq_header r) ''Authorization'' = ''Bearer '' @ ti_AccessToken x"
  shows "idpUserinfo issues r = \<lparr>rs_code = 200, rs_header = contentType ''application/json'',
    rs_body = encodeBody (case ti_UserInfo x of None \<Rightarrow> JNull | Some c \<Rightarrow> JObject c)\<rparr>"
proof -
  have "trimPrefix (''Bearer '' @ ti_AccessToken x) ''Bearer '' = ti_AccessToken x"
    unfolding trimPrefix_def by (simp add: hasPrefix_def)
  moreover have "find (\<lambda>issue. ti_AccessToken issue = ti_AccessToken x) issues = Some x"
  proof (cases "find (\<lambda>issue. ti_AccessToken issue = ti_AccessToken x) issues")
    case None
    with assms(1) show ?thesis by (auto simp: find_None_iff)
  next
    case (Some y)
    with find_SomeD [OF Some] assms(2) show ?thesis by simp
  qed
  ultimately show ?thesis unfolding idpUserinfo_def assms(3) Let_def by simp
qed

end
