(* ===== verification/Spec2Isabelle.thy ===== *)
theory Spec2Isabelle
  imports Plugin_Concurrent Plugin_Limits Dialer Oidc_Test
begin

text \<open>
  \<^bold>\<open>The OIDC login plugin of the Silo server.\<close> The plugin is a gRPC process the host starts. The host configures it
  (\<^verbatim>\<open>Runtime.Configure\<close>), sends users to an OpenID provider with \<^verbatim>\<open>InitAuthorize\<close>, brings their callback back with
  \<^verbatim>\<open>ExchangeCode\<close>, and forwards HTTP requests for an admin API and an admin page. Its state is a handful of atomic pointers
  (configuration, provider, store, pool), two rate limiters, an audit log and a PostgreSQL database with one settings row
  and a table of used nonces.

  \<^bold>\<open>Theories, in the order of the imports, and what they model (paths under \<open>src/\<close>).\<close>

  \<^item> \<open>Prelude\<close>: results and checks, Go's \<^verbatim>\<open>strings\<close> functions on byte strings, instants and durations.
  \<^item> \<open>Json\<close>: dynamic JSON values (\<^verbatim>\<open>any\<close>), documents, \<^verbatim>\<open>encoding/json\<close> decoding into structs, slices, pointers;
    \<^verbatim>\<open>reflect.DeepEqual\<close>.
  \<^item> \<open>Net\<close>: \<^verbatim>\<open>net.ParseIP\<close>, \<^verbatim>\<open>SplitHostPort\<close> and the address predicates.
  \<^item> \<open>Runtime_Config\<close>: \<^verbatim>\<open>internal/runtime/runtime.go\<close>, the configuration, its loader, validation and JSON form.
  \<^item> \<open>Claims\<close>: \<^verbatim>\<open>internal/claims\<close>, paths, operators, filters, role rules, identity.
  \<^item> \<open>Float64\<close>, \<open>Rate_Limit\<close>: binary64 rounding and \<^verbatim>\<open>internal/ratelimit\<close>, the token bucket in float arithmetic.
  \<^item> \<open>Secure_Http\<close>, \<open>Dialer\<close>: \<^verbatim>\<open>internal/oidc\<close>, the address policy, the hardened client, the provider.
  \<^item> \<open>Audit_Log\<close>: \<^verbatim>\<open>internal/audit\<close>. \<open>Base64\<close>: the raw URL encoding of verifier, nonce and challenge.
  \<^item> \<open>Jsonb\<close>, \<open>Store\<close>: \<^verbatim>\<open>internal/store\<close> over a database with a script of statement failures.
  \<^item> \<open>Auth\<close>, \<open>Auth_Flow\<close>: \<^verbatim>\<open>internal/auth/server.go\<close>, \<^verbatim>\<open>InitAuthorize\<close> and \<^verbatim>\<open>ExchangeCode\<close> with every
    early return, and the login flow as a whole.
  \<^item> \<open>Http\<close>, \<open>Admin\<close>: \<^verbatim>\<open>internal/admin/server.go\<close>, the admin API with its two middlewares.
  \<^item> \<open>Url_Query\<close>, \<open>Http_Routes\<close>: \<^verbatim>\<open>internal/server\<close> (site and static files) and \<^verbatim>\<open>internal/httproutes\<close> (the adapter
    from the host's RPC), with percent-encoding and the request line written out.
  \<^item> \<open>Plugin\<close>: \<^verbatim>\<open>cmd/silo-plugin-oidc-login/main.go\<close> and \<^verbatim>\<open>Runtime.Configure\<close>: the record \<^typ>\<open>plugin\<close> has one field per
    variable of \<^verbatim>\<open>main\<close>; the closures passed to the servers are functions of it.
  \<^item> \<open>Plugin_Runs\<close>, \<open>Plugin_Limits\<close>: runs of complete operations. \<open>Plugin_Concurrent\<close>: a step relation on a
    \<^typ>\<open>world\<close> of overlapping calls, one pointer write at a time.
  \<^item> \<open>Oidc_Test\<close>: \<^verbatim>\<open>internal/oidctest/idp.go\<close>, the fake identity provider of the tests.

  \<^bold>\<open>Interfaces.\<close> Each is a locale, interpreted on the model's own definitions: \<open>struct_codec\<close> (a struct and its JSON form; three
  interpretations in \<open>Jsonb\<close>), the limiter contract of \<open>Rate_Limit\<close>, \<open>nonce_guard\<close> (an accepted nonce is remembered
  and refused; interpreted for the store and for the auth server), \<open>config_backend\<close> (HTTP requests move the application only as its
  update function does; interpreted for the invariant, the databases and the limiter of the plugin).

  \<^bold>\<open>What is shown.\<close>

  \<^item> \<^emph>\<open>Login.\<close> \<^const>\<open>ExchangeCode\<close> succeeds exactly when every gate is passed; the role, subject and linking advice it returns;
    one audit record per decision but for two internal errors; of upstream error texts only that of undecodable id_token claims
    reaches the caller; a flow with an IdP that acts on the URL it is sent completes.
  \<^item> \<^emph>\<open>Replay.\<close> A nonce is accepted once under any interleaving of store operations and failures, and a callback once in runs
    of complete operations, if its provider state carries an \<^verbatim>\<open>issued_at\<close> that parses. Two windows in which the wiring gives this up are proved reachable: while the first
    \<^verbatim>\<open>Configure\<close> publishes, and after two overlapping ones.
  \<^item> \<^emph>\<open>Configuration.\<close> Validation meets an order-free specification; what is stored is read back; what is live was validated,
    in every run and every interleaving; the provider is that of the live configuration; reading ends after three statements; a failed \<^verbatim>\<open>Configure\<close> changes nothing that is live; pools do not leak.
  \<^item> \<^emph>\<open>HTTP.\<close> A caller without the admin role learns and changes nothing; replies other than the update's do not depend on the
    client secret; updates are audited exactly when persisted; the simulator agrees with the gate where the id_token and the merged
    claims agree on \<^verbatim>\<open>email_verified\<close>; the discovery panel fetches two URLs at most; static files stay in their directories; the
    adapter hands requests on, empty and non-string query parameters as their text form. The theme parameter reaches the page unescaped and a \<^verbatim>\<open>null\<close> discovery document
    panics: both are stated as the code behaves.
  \<^item> \<^emph>\<open>Limits and network.\<close> Token counts stay in range, the granted rate is bounded with the rounding error included, waiting a
    second longer than told is enough, sweeping is invisible, fifteen callbacks per minute and address; the dial-time policy is a table of
    networks and holds for whatever the resolver answers.

  \<^bold>\<open>Bounds and fuel.\<close> No definition uses fuel: loops are structural recursion or functions with a measure, and
  \<open>GetConfig\<close>'s self-call terminates because the row it inserted is there the second time. Integers that Go keeps at a fixed width and
  that matter are words or saturate as in Go (durations); float64 arithmetic is exact rational arithmetic followed by rounding, with
  an unbounded exponent. Limiter bounds over many calls carry the number of calls, which the corollary for the plugin bounds
  by \<open>2^40\<close> in a minute. A closed pool is modelled by two failing statements, since no store operation continues after two.

  \<^bold>\<open>Parameters.\<close> Third-party code and services are arguments of the definitions: \<^verbatim>\<open>go-oidc\<close> and \<^verbatim>\<open>oauth2\<close> (\<^typ>\<open>idp\<close>,
  discovery), PostgreSQL's \<^verbatim>\<open>jsonb\<close> and \<^verbatim>\<open>timestamptz\<close> (\<open>jsonb_law\<close>, \<open>timestamp_law\<close>), \<^verbatim>\<open>chi\<close>'s replies to
  unmatched requests and its \<^verbatim>\<open>Recoverer\<close>, the embedded file systems (\<open>fs_law\<close>), URL and regular-expression parsing,
  SHA-256, clocks, entropy, DNS. Every law has an instance in the witnesses.

  \<^bold>\<open>Not modelled.\<close> The SDK's serve loop, TLS and the wire protocols; the text of log messages outside the audit log; the
  replacement of invalid UTF-8 by \<^verbatim>\<open>encoding/json\<close>, which strings from protobuf or JSON input do not contain; the
  15 s, 10 s and 30 s timeouts other than as failures; interleavings inside one database phase of \<^verbatim>\<open>Configure\<close> or of an update;
  request lines \<^verbatim>\<open>httptest.NewRequest\<close> reads in unusual ways; the embedded assets, which are declarations; the React page.
\<close>

end
